theory Spec2Isabelle
  imports Main "HOL-Library.Word" "HOL-Library.Sublist"
begin

unbundle bit_operations_syntax

section \<open>Data model of the devmapper DeviceSet\<close>

text \<open>
  The model follows \<^verbatim>\<open>daemon/graphdriver/devmapper/deviceset.go\<close> (the file
  \<^verbatim>\<open>src/unnamed/part_000\<close>). Go's \<^verbatim>\<open>uint64\<close> is a 64-bit word. Go's \<^verbatim>\<open>int\<close> is
  modelled as \<^typ>\<open>int\<close>: the only arithmetic on it is \<^verbatim>\<open>(NextDeviceId + 1) & MaxDeviceId\<close>,
  whose value is the same with or without 64-bit wrap-around since the mask keeps the low
  24 bits, the truncating \<^verbatim>\<open>/ 8\<close> and \<^verbatim>\<open>% 8\<close>, written out below, and the mount
  counter, which moves by one per call.
\<close>

type_synonym u64 = "64 word"
type_synonym byte = "8 word"

record DevInfo =
  Hash :: string
  DeviceId :: int
  Size :: u64
  TransactionId :: u64
  Initialized :: bool
  mountCount :: int
  mountPath :: string

record Transaction =
  OpenTransactionId :: u64
  DeviceIdHash :: string
  DeviceId :: int

text \<open>
  \<^verbatim>\<open>deviceIdMap\<close> is made once by \<^verbatim>\<open>make([]byte, DeviceIdMapSz)\<close> and never resliced:
  it is a function from the index to the byte, and every access writes Go's bounds check
  out (see \<open>idMapIndex\<close>). The embedded struct \<^verbatim>\<open>Transaction\<close> is the field
  \<open>Transaction\<close>; the mutexes are left out, the model being sequential.
\<close>

record DeviceSet =
  Devices :: "string \<rightharpoonup> DevInfo"
  root :: string
  devicePrefix :: string
  TransactionId :: u64
  NextDeviceId :: int
  deviceIdMap :: "nat \<Rightarrow> byte"
  dataLoopbackSize :: int
  metaDataLoopbackSize :: int
  baseFsSize :: u64
  filesystem :: string
  mountOptions :: string
  mkfsArgs :: "string list"
  dataDevice :: string
  dataLoopFile :: string
  metadataDevice :: string
  metadataLoopFile :: string
  doBlkDiscard :: bool
  thinpBlockSize :: "32 word"
  thinPoolDevice :: string
  Transaction :: Transaction

definition MaxDeviceId :: int where
  "MaxDeviceId = 0xffffff"

definition DeviceIdMapSz :: int where
  "DeviceIdMapSz = (MaxDeviceId + 1) div 8"

section \<open>Errors and the outside world\<close>

text \<open>
  Everything outside the Go file (libdevmapper, system calls, the file system, external
  commands) is reached through \<open>perform\<close>: the call is appended to the trace and the
  platform answers with an outcome that may depend on the whole history. \<open>Success\<close> is
  a nil error; every other outcome a call does not expect is an error of that call.
\<close>

datatype call =
    DmCreateDevice string int
  | DmCreateSnapDevice string int string int
  | DmDeleteDevice string int
  | DmSetTransactionId string u64 u64
  | DmGetInfo string
  | DmGetStatus string
  | DmActivateDevice string string int u64
  | DmRemoveDevice string
  | DmBlockDeviceDiscard string
  | SysMount string string string int string
  | SysUnmount string int
  | DoProbeFsType string
  | ExecCommand string "string list"
  | OsTempFile string string
  | OsWrite string "byte list"
  | OsSync string
  | OsClose string
  | OsRename string string
  | OsReadFile string
  | OsRemoveAll string

datatype outcome =
    Success
  | Failure string
  | DeviceBusy
  | IdExists
  | EINVAL
  | GotInfo int int
  | GotPoolStatus u64 u64 u64 u64 u64 u64
  | GotFsType string
  | GotTempName string
  | Wrote nat
  | WriteFailed nat

text \<open>
  \<open>IndexOutOfRange\<close> is the run-time panic of a slice access; \<open>External r\<close> is the
  error an outside call returned with the outcome \<open>r\<close>; \<open>Wrapped m e\<close> is
  \<^verbatim>\<open>fmt.Errorf(m + ": %s", e)\<close>; the others are the errors the file makes itself.
\<close>

datatype error =
    IndexOutOfRange
  | NoFreeDeviceId
  | ErrShortWrite
  | NotExist
  | External outcome
  | UnknownDevice string
  | MountedElsewhere string string
  | NotMounted string
  | PoolHasUsedData string
  | PoolHasTransactionId string
  | UnsupportedFilesystem string
  | Timeout string
  | EncodingFailed
  | BadOption string
  | UnknownOption string
  | Wrapped string error

record world =
  files :: "string \<rightharpoonup> byte list"
  trace :: "call list"

text \<open>
  The platform: the answers of the outside world, and the library functions of other
  packages that the file calls (\<^verbatim>\<open>encoding/json\<close>, \<^verbatim>\<open>joinMountOptions\<close>,
  \<^verbatim>\<open>label.FormatMountLabel\<close>, \<^verbatim>\<open>parsers.ParseKeyValueOpt\<close>, \<^verbatim>\<open>strings.ToLower\<close>,
  \<^verbatim>\<open>units.RAMInBytes\<close>, \<^verbatim>\<open>strconv.ParseBool\<close>), taken as parameters. A decoder
  returns the struct it decoded into; \<open>None\<close> is a non-nil error (for a
  \<^verbatim>\<open>**DevInfo\<close> also the JSON \<^verbatim>\<open>null\<close>, which leaves a nil pointer).
  \<open>removedBeforeFailure h p\<close> tells, for an \<^verbatim>\<open>os.RemoveAll\<close> of a directory that
  fails after the history \<open>h\<close>, whether the entry \<open>p\<close> below it was removed before the
  error.
\<close>

record platform =
  respond :: "call list \<Rightarrow> outcome"
  jsonMarshalDevInfo :: "DevInfo \<Rightarrow> byte list option"
  jsonUnmarshalDevInfo :: "byte list \<Rightarrow> DevInfo \<Rightarrow> DevInfo option"
  jsonMarshalTransaction :: "Transaction \<Rightarrow> byte list option"
  jsonUnmarshalTransaction :: "byte list \<Rightarrow> Transaction \<Rightarrow> Transaction"
  jsonMarshalDeviceSet :: "int \<Rightarrow> byte list option"
  jsonUnmarshalDeviceSet :: "byte list \<Rightarrow> int \<Rightarrow> int option"
  joinMountOptions :: "string \<Rightarrow> string \<Rightarrow> string"
  FormatMountLabel :: "string \<Rightarrow> string \<Rightarrow> string"
  ParseKeyValueOpt :: "string \<Rightarrow> (string \<times> string) option"
  ToLower :: "string \<Rightarrow> string"
  RAMInBytes :: "string \<Rightarrow> int option"
  ParseBool :: "string \<Rightarrow> bool option"
  removedBeforeFailure :: "call list \<Rightarrow> string \<Rightarrow> bool"

definition perform :: "platform \<Rightarrow> call \<Rightarrow> world \<Rightarrow> outcome \<times> world" where
  "perform P c w = (respond P (trace w @ [c]), w\<lparr>trace := trace w @ [c]\<rparr>)"

text \<open>A call that returns only an error.\<close>

definition invoke :: "platform \<Rightarrow> call \<Rightarrow> world \<Rightarrow> error option \<times> world" where
  "invoke P c w =
     (case perform P c w of
        (r, w') \<Rightarrow> if r = Success then (None, w') else (Some (External r), w'))"

subsection \<open>Files\<close>

text \<open>
  \<^verbatim>\<open>ioutil.ReadFile\<close>: an error of the platform, or \<open>NotExist\<close> (the error
  \<^verbatim>\<open>os.IsNotExist\<close> recognises) when there is no such file, or the content.
\<close>

definition osReadFile :: "platform \<Rightarrow> string \<Rightarrow> world \<Rightarrow> (error + byte list) \<times> world" where
  "osReadFile P name w =
     (case perform P (OsReadFile name) w of
        (r, w') \<Rightarrow>
          if r \<noteq> Success then (Inl (External r), w')
          else (case files w' name of
                  None \<Rightarrow> (Inl NotExist, w')
                | Some content \<Rightarrow> (Inr content, w')))"

text \<open>
  The world maps the path of every regular file to its content; a directory is there
  through the files below it. \<open>inTree name p\<close>: the path \<open>p\<close> is \<open>name\<close> or lies
  below the directory \<open>name\<close>.
\<close>

definition inTree :: "string \<Rightarrow> string \<Rightarrow> bool" where
  "inTree name p \<longleftrightarrow> p = name \<or> prefix (if name = ''/'' then name else name @ ''/'') p"

text \<open>
  \<^verbatim>\<open>os.RemoveAll\<close>: nil when the path and everything below it is gone, also when
  there was nothing. When it fails, the path itself stays (a file is removed in one step
  or not at all), and of the entries below a directory those are gone that were removed
  before the error.
\<close>

definition osRemoveAll :: "platform \<Rightarrow> string \<Rightarrow> world \<Rightarrow> error option \<times> world" where
  "osRemoveAll P name w =
     (case perform P (OsRemoveAll name) w of
        (r, w') \<Rightarrow>
          if r = Success
          then (None, w'\<lparr>files := (\<lambda>p. if inTree name p then None else files w' p)\<rparr>)
          else (Some (External r),
                w'\<lparr>files := (\<lambda>p. if inTree name p \<and> p \<noteq> name \<and>
                                      removedBeforeFailure P (trace w') p
                                   then None else files w' p)\<rparr>))"

text \<open>
  \<^verbatim>\<open>ioutil.TempFile(dir, prefix)\<close>: the platform picks the random suffix; the file is
  opened with \<^verbatim>\<open>O_EXCL\<close>, so a name that exists is never returned. The new file is
  empty.
\<close>

definition osTempFile :: "platform \<Rightarrow> string \<Rightarrow> string \<Rightarrow> world \<Rightarrow> (error + string) \<times> world" where
  "osTempFile P dir pfx w =
     (case perform P (OsTempFile dir pfx) w of
        (GotTempName sfx, w') \<Rightarrow>
          (let name = dir @ ''/'' @ pfx @ sfx
           in if files w' name \<noteq> None then (Inl (External (GotTempName sfx)), w')
              else (Inr name, w'\<lparr>files := (files w')(name \<mapsto> [])\<rparr>))
      | (r, w') \<Rightarrow> (Inl (External r), w'))"

text \<open>
  \<^verbatim>\<open>File.Write\<close> returns \<^verbatim>\<open>(n, err)\<close>: \<open>Wrote n\<close> is a nil error after \<open>n\<close>
  bytes (at most the length of the data), \<open>WriteFailed n\<close> an error after \<open>n\<close> bytes.
\<close>

definition appendFile :: "world \<Rightarrow> string \<Rightarrow> byte list \<Rightarrow> world" where
  "appendFile w name bs =
     w\<lparr>files := (files w)(name \<mapsto> (case files w name of None \<Rightarrow> [] | Some old \<Rightarrow> old) @ bs)\<rparr>"

definition osWrite :: "platform \<Rightarrow> string \<Rightarrow> byte list \<Rightarrow> world \<Rightarrow> (error + nat) \<times> world" where
  "osWrite P name bs w =
     (case perform P (OsWrite name bs) w of
        (Wrote n, w') \<Rightarrow> (Inr (min n (length bs)), appendFile w' name (take n bs))
      | (WriteFailed n, w') \<Rightarrow> (Inl (External (WriteFailed n)), appendFile w' name (take n bs))
      | (r, w') \<Rightarrow> (Inl (External r), w'))"

text \<open>\<^verbatim>\<open>os.Rename\<close> replaces the target in one step or fails and changes nothing.\<close>

definition osRename :: "platform \<Rightarrow> string \<Rightarrow> string \<Rightarrow> world \<Rightarrow> error option \<times> world" where
  "osRename P old new w =
     (case perform P (OsRename old new) w of
        (r, w') \<Rightarrow>
          if r = Success then (None, w'\<lparr>files := (files w')(old := None, new := files w' old)\<rparr>)
          else (Some (External r), w'))"

subsection \<open>libdevmapper and system calls\<close>

text \<open>\<^verbatim>\<open>devicemapper.GetInfo\<close>: the fields \<^verbatim>\<open>Exists\<close> and \<^verbatim>\<open>OpenCount\<close>, or an error (and a nil info).\<close>

definition GetInfo :: "platform \<Rightarrow> string \<Rightarrow> world \<Rightarrow> (error + int \<times> int) \<times> world" where
  "GetInfo P name w =
     (case perform P (DmGetInfo name) w of
        (GotInfo ex oc, w') \<Rightarrow> (Inr (ex, oc), w')
      | (r, w') \<Rightarrow> (Inl (External r), w'))"

definition MS_MGC_VAL :: int where
  "MS_MGC_VAL = 0xC0ED0000"

definition MNT_DETACH :: int where
  "MNT_DETACH = 2"

section \<open>Device-id bitmap and allocator\<close>

text \<open>Go's \<^verbatim>\<open>/\<close> and \<^verbatim>\<open>%\<close> on \<^verbatim>\<open>int\<close> truncate towards zero.\<close>

definition go_quot :: "int \<Rightarrow> int \<Rightarrow> int" where
  "go_quot a b = sgn a * sgn b * (\<bar>a\<bar> div \<bar>b\<bar>)"

definition go_rem :: "int \<Rightarrow> int \<Rightarrow> int" where
  "go_rem a b = a - b * go_quot a b"

text \<open>
  \<^verbatim>\<open>mask = 1 << uint(i)\<close> with \<^verbatim>\<open>i := deviceId % 8\<close>, a byte: for a negative
  \<^verbatim>\<open>i\<close> the conversion \<^verbatim>\<open>uint(i)\<close> is at least \<open>2^64 - 7\<close>, and a byte shifted
  left by eight or more is 0.
\<close>

definition idMask :: "int \<Rightarrow> byte" where
  "idMask deviceId =
     (let i = go_rem deviceId 8
      in if 0 \<le> i \<and> i < 8 then push_bit (nat i) 1 else 0)"

text \<open>The index \<^verbatim>\<open>deviceId/8\<close> into the slice, with the bounds check of the Go runtime.\<close>

definition idMapIndex :: "int \<Rightarrow> error + nat" where
  "idMapIndex deviceId =
     (let q = go_quot deviceId 8
      in if 0 \<le> q \<and> q < DeviceIdMapSz then Inr (nat q) else Inl IndexOutOfRange)"

definition markDeviceIdUsed :: "DeviceSet \<Rightarrow> int \<Rightarrow> error + DeviceSet" where
  "markDeviceIdUsed devices deviceId =
     (let mask = idMask deviceId
      in case idMapIndex deviceId of
           Inl e \<Rightarrow> Inl e
         | Inr k \<Rightarrow> Inr (devices\<lparr>deviceIdMap := (deviceIdMap devices)(k := deviceIdMap devices k OR mask)\<rparr>))"

definition markDeviceIdFree :: "DeviceSet \<Rightarrow> int \<Rightarrow> error + DeviceSet" where
  "markDeviceIdFree devices deviceId =
     (let mask = NOT (idMask deviceId)
      in case idMapIndex deviceId of
           Inl e \<Rightarrow> Inl e
         | Inr k \<Rightarrow> Inr (devices\<lparr>deviceIdMap := (deviceIdMap devices)(k := deviceIdMap devices k AND mask)\<rparr>))"

definition isDeviceIdFree :: "DeviceSet \<Rightarrow> int \<Rightarrow> error + bool" where
  "isDeviceIdFree devices deviceId =
     (let mask = idMask deviceId
      in case idMapIndex deviceId of
           Inl e \<Rightarrow> Inl e
         | Inr k \<Rightarrow> if deviceIdMap devices k AND mask \<noteq> 0 then Inr False else Inr True)"

definition incNextDeviceId :: "DeviceSet \<Rightarrow> DeviceSet" where
  "incNextDeviceId devices = devices\<lparr>NextDeviceId := (NextDeviceId devices + 1) AND MaxDeviceId\<rparr>"

text \<open>
  The \<^verbatim>\<open>for i := 0; i <= MaxDeviceId; i++\<close> loop of \<^verbatim>\<open>getNextFreeDeviceId\<close>, entered
  with the loop counter \<open>i\<close>.
\<close>

function getNextFreeDeviceId_loop :: "int \<Rightarrow> DeviceSet \<Rightarrow> (error + int) \<times> DeviceSet" where
  "getNextFreeDeviceId_loop i devices =
     (if i \<le> MaxDeviceId then
        (case isDeviceIdFree devices (NextDeviceId devices) of
           Inl e \<Rightarrow> (Inl e, devices)
         | Inr True \<Rightarrow>
             (case markDeviceIdUsed devices (NextDeviceId devices) of
                Inl e \<Rightarrow> (Inl e, devices)
              | Inr devices' \<Rightarrow> (Inr (NextDeviceId devices'), devices'))
         | Inr False \<Rightarrow> getNextFreeDeviceId_loop (i + 1) (incNextDeviceId devices))
      else (Inl NoFreeDeviceId, devices))"
  by pat_completeness auto
termination
  by (relation "measure (\<lambda>(i, devices). nat (MaxDeviceId + 1 - i))") auto

definition getNextFreeDeviceId :: "DeviceSet \<Rightarrow> (error + int) \<times> DeviceSet" where
  "getNextFreeDeviceId devices = getNextFreeDeviceId_loop 0 (incNextDeviceId devices)"

section \<open>Names and paths\<close>

text \<open>
  \<^verbatim>\<open>path.Clean\<close> of the Go library, by its documentation: multiple slashes become
  one, every \<^verbatim>\<open>.\<close> element goes, every inner \<^verbatim>\<open>..\<close> element goes together with the
  element before it that is not \<^verbatim>\<open>..\<close>, a \<^verbatim>\<open>..\<close> element that begins a rooted path
  goes, the result ends in a slash only if it is the root, and the empty result is
  \<^verbatim>\<open>.\<close>. \<open>splitPath\<close> cuts a path at its slashes (\<open>splitFrom\<close> with the
  characters of the current element, the last one first); \<open>cleanElems rooted out es\<close>
  goes through the elements \<open>es\<close> with the elements kept so far in \<open>out\<close>, the last
  one first; \<open>joinElems\<close> is \<^verbatim>\<open>strings.Join(elems, "/")\<close>.
\<close>

fun splitFrom :: "string \<Rightarrow> string \<Rightarrow> string list" where
  "splitFrom element [] = [rev element]"
| "splitFrom element (c # cs) =
     (if c = CHR ''/'' then rev element # splitFrom [] cs
      else splitFrom (c # element) cs)"

definition splitPath :: "string \<Rightarrow> string list" where
  "splitPath path = splitFrom [] path"

fun cleanElems :: "bool \<Rightarrow> string list \<Rightarrow> string list \<Rightarrow> string list" where
  "cleanElems rooted out [] = rev out"
| "cleanElems rooted out (e # es) =
     (if e = [] \<or> e = ''.'' then cleanElems rooted out es
      else if e = ''..'' then
        (case out of
           [] \<Rightarrow> if rooted then cleanElems rooted out es else cleanElems rooted [e] es
         | kept # others \<Rightarrow>
             if kept = ''..'' then cleanElems rooted (e # out) es
             else cleanElems rooted others es)
      else cleanElems rooted (e # out) es)"

fun joinElems :: "string list \<Rightarrow> string" where
  "joinElems [] = []"
| "joinElems [e] = e"
| "joinElems (e # f # es) = e @ ''/'' @ joinElems (f # es)"

definition pathClean :: "string \<Rightarrow> string" where
  "pathClean path =
     (if path = [] then ''.''
      else let rooted = (hd path = CHR ''/'');
               out = joinElems (cleanElems rooted [] (splitPath path))
           in if rooted then ''/'' @ out
              else if out = [] then ''.'' else out)"

text \<open>
  \<^verbatim>\<open>path.Join(dir, file)\<close>: the empty string when both are empty; otherwise the
  elements from the first non-empty one on, joined by a slash and cleaned.
\<close>

definition pathJoin :: "string \<Rightarrow> string \<Rightarrow> string" where
  "pathJoin dir file =
     (if dir = [] \<and> file = [] then []
      else if dir = [] then pathClean file
      else pathClean (dir @ ''/'' @ file))"

definition getDevName :: "string \<Rightarrow> string" where
  "getDevName name = ''/dev/mapper/'' @ name"

text \<open>\<^verbatim>\<open>info.devices\<close> is the DeviceSet itself wherever \<^verbatim>\<open>Name\<close> is called.\<close>

definition Name :: "DeviceSet \<Rightarrow> DevInfo \<Rightarrow> string" where
  "Name devices info =
     (let hash = Hash info;
          hash = (if hash = [] then ''base'' else hash)
      in devicePrefix devices @ ''-'' @ hash)"

definition DevName :: "DeviceSet \<Rightarrow> DevInfo \<Rightarrow> string" where
  "DevName devices info = getDevName (Name devices info)"

definition metadataDir :: "DeviceSet \<Rightarrow> string" where
  "metadataDir devices = pathJoin (root devices) ''metadata''"

definition metadataFile :: "DeviceSet \<Rightarrow> DevInfo \<Rightarrow> string" where
  "metadataFile devices info =
     (let file = Hash info;
          file = (if file = [] then ''base'' else file)
      in pathJoin (metadataDir devices) file)"

definition transactionMetaFile :: "DeviceSet \<Rightarrow> string" where
  "transactionMetaFile devices = pathJoin (metadataDir devices) ''transaction-metadata''"

definition deviceSetMetaFile :: "DeviceSet \<Rightarrow> string" where
  "deviceSetMetaFile devices = pathJoin (metadataDir devices) ''deviceset-metadata''"

definition getPoolName :: "DeviceSet \<Rightarrow> string" where
  "getPoolName devices =
     (if thinPoolDevice devices = [] then devicePrefix devices @ ''-pool''
      else thinPoolDevice devices)"

definition getPoolDevName :: "DeviceSet \<Rightarrow> string" where
  "getPoolDevName devices = getDevName (getPoolName devices)"

text \<open>A \<^verbatim>\<open>&DevInfo{Hash: hash}\<close>: every other field has its zero value.\<close>

definition newDevInfo :: "string \<Rightarrow> DevInfo" where
  "newDevInfo hash =
     \<lparr>Hash = hash, DevInfo.DeviceId = 0, Size = 0, DevInfo.TransactionId = 0,
      Initialized = False, mountCount = 0, mountPath = []\<rparr>"

section \<open>Metadata store\<close>

definition allocateTransactionId :: "DeviceSet \<Rightarrow> DeviceSet" where
  "allocateTransactionId devices =
     devices\<lparr>Transaction := (Transaction devices)
       \<lparr>OpenTransactionId := DeviceSet.TransactionId devices + 1\<rparr>\<rparr>"

definition updatePoolTransactionId ::
  "platform \<Rightarrow> DeviceSet \<Rightarrow> world \<Rightarrow> error option \<times> DeviceSet \<times> world" where
  "updatePoolTransactionId P devices w =
     (case invoke P (DmSetTransactionId (getPoolDevName devices)
                       (DeviceSet.TransactionId devices)
                       (OpenTransactionId (Transaction devices))) w of
        (Some err, w') \<Rightarrow>
          (Some (Wrapped ''Error setting devmapper transaction ID'' err), devices, w')
      | (None, w') \<Rightarrow>
          (None,
           devices\<lparr>DeviceSet.TransactionId := OpenTransactionId (Transaction devices)\<rparr>,
           w'))"

definition removeMetadata :: "platform \<Rightarrow> DeviceSet \<Rightarrow> DevInfo \<Rightarrow> world \<Rightarrow> error option \<times> world" where
  "removeMetadata P devices info w =
     (case osRemoveAll P (metadataFile devices info) w of
        (Some err, w') \<Rightarrow> (Some (Wrapped ''Error removing metadata file'' err), w')
      | (None, w') \<Rightarrow> (None, w'))"

definition writeMetaFile ::
  "platform \<Rightarrow> DeviceSet \<Rightarrow> byte list \<Rightarrow> string \<Rightarrow> world \<Rightarrow> error option \<times> world" where
  "writeMetaFile P devices jsonData filePath w =
     (case osTempFile P (metadataDir devices) ''.tmp'' w of
        (Inl err, w1) \<Rightarrow> (Some (Wrapped ''Error creating metadata file'' err), w1)
      | (Inr tmpFile, w1) \<Rightarrow>
     (case osWrite P tmpFile jsonData w1 of
        (Inl err, w2) \<Rightarrow> (Some (Wrapped ''Error writing metadata'' err), w2)
      | (Inr n, w2) \<Rightarrow>
     if n < length jsonData then (Some ErrShortWrite, w2) else
     (case invoke P (OsSync tmpFile) w2 of
        (Some err, w3) \<Rightarrow> (Some (Wrapped ''Error syncing metadata file'' err), w3)
      | (None, w3) \<Rightarrow>
     (case invoke P (OsClose tmpFile) w3 of
        (Some err, w4) \<Rightarrow> (Some (Wrapped ''Error closing metadata file'' err), w4)
      | (None, w4) \<Rightarrow>
     (case osRename P tmpFile filePath w4 of
        (Some err, w5) \<Rightarrow> (Some (Wrapped ''Error committing metadata file'' err), w5)
      | (None, w5) \<Rightarrow> (None, w5))))))"

definition saveMetadata :: "platform \<Rightarrow> DeviceSet \<Rightarrow> DevInfo \<Rightarrow> world \<Rightarrow> error option \<times> world" where
  "saveMetadata P devices info w =
     (case jsonMarshalDevInfo P info of
        None \<Rightarrow> (Some (Wrapped ''Error encoding metadata to json'' EncodingFailed), w)
      | Some jsonData \<Rightarrow> writeMetaFile P devices jsonData (metadataFile devices info) w)"

text \<open>
  \<^verbatim>\<open>loadMetadata\<close> decodes into \<^verbatim>\<open>&DevInfo{Hash: hash, devices: devices}\<close>; the
  decoder assigns the four fields that have a JSON name and no other.
\<close>

definition loadMetadata :: "platform \<Rightarrow> DeviceSet \<Rightarrow> string \<Rightarrow> world \<Rightarrow> DevInfo option \<times> world" where
  "loadMetadata P devices hash w =
     (let info = newDevInfo hash
      in case osReadFile P (metadataFile devices info) w of
           (Inl err, w') \<Rightarrow> (None, w')
         | (Inr jsonData, w') \<Rightarrow>
             (case jsonUnmarshalDevInfo P jsonData info of
                None \<Rightarrow> (None, w')
              | Some decoded \<Rightarrow>
                  (Some (info\<lparr>DevInfo.DeviceId := DevInfo.DeviceId decoded,
                               Size := Size decoded,
                               DevInfo.TransactionId := DevInfo.TransactionId decoded,
                               Initialized := Initialized decoded\<rparr>), w')))"

section \<open>Device registry\<close>

definition lookupDevice ::
  "platform \<Rightarrow> DeviceSet \<Rightarrow> string \<Rightarrow> world \<Rightarrow> (error + DevInfo) \<times> DeviceSet \<times> world" where
  "lookupDevice P devices hash w =
     (case Devices devices hash of
        Some info \<Rightarrow> (Inr info, devices, w)
      | None \<Rightarrow>
          (case loadMetadata P devices hash w of
             (None, w') \<Rightarrow> (Inl (UnknownDevice hash), devices, w')
           | (Some info, w') \<Rightarrow>
               (Inr info, devices\<lparr>Devices := (Devices devices)(hash \<mapsto> info)\<rparr>, w')))"

definition unregisterDevice ::
  "platform \<Rightarrow> DeviceSet \<Rightarrow> int \<Rightarrow> string \<Rightarrow> world \<Rightarrow> error option \<times> DeviceSet \<times> world" where
  "unregisterDevice P devices ident hash w =
     (let info = (newDevInfo hash)\<lparr>DevInfo.DeviceId := ident\<rparr>;
          devices1 = devices\<lparr>Devices := (Devices devices)(hash := None)\<rparr>
      in case removeMetadata P devices1 info w of
           (Some err, w') \<Rightarrow> (Some err, devices1, w')
         | (None, w') \<Rightarrow> (None, devices1, w'))"

definition registerDevice ::
  "platform \<Rightarrow> DeviceSet \<Rightarrow> int \<Rightarrow> string \<Rightarrow> u64 \<Rightarrow> u64 \<Rightarrow> world \<Rightarrow>
   (error + DevInfo) \<times> DeviceSet \<times> world" where
  "registerDevice P devices ident hash sz transactionId w =
     (let info = \<lparr>Hash = hash, DevInfo.DeviceId = ident, Size = sz,
                  DevInfo.TransactionId = transactionId, Initialized = False,
                  mountCount = 0, mountPath = []\<rparr>;
          devices1 = devices\<lparr>Devices := (Devices devices)(hash \<mapsto> info)\<rparr>
      in case saveMetadata P devices1 info w of
           (Some err, w') \<Rightarrow>
             (Inl err, devices1\<lparr>Devices := (Devices devices1)(hash := None)\<rparr>, w')
         | (None, w') \<Rightarrow> (Inr info, devices1, w'))"

definition activateDeviceIfNeeded ::
  "platform \<Rightarrow> DeviceSet \<Rightarrow> DevInfo \<Rightarrow> world \<Rightarrow> error option \<times> world" where
  "activateDeviceIfNeeded P devices info w =
     (case GetInfo P (Name devices info) w of
        (devinfo, w1) \<Rightarrow>
          if (case devinfo of Inl err \<Rightarrow> False | Inr (ex, oc) \<Rightarrow> ex \<noteq> 0) then (None, w1)
          else invoke P (DmActivateDevice (getPoolDevName devices) (Name devices info)
                           (DevInfo.DeviceId info) (Size info)) w1)"

definition createFilesystem ::
  "platform \<Rightarrow> DeviceSet \<Rightarrow> DevInfo \<Rightarrow> world \<Rightarrow> error option \<times> world" where
  "createFilesystem P devices info w =
     (let devname = DevName devices info;
          args = mkfsArgs devices @ [devname]
      in if filesystem devices = ''xfs'' then invoke P (ExecCommand ''mkfs.xfs'' args) w
         else if filesystem devices = ''ext4'' then
           (case invoke P (ExecCommand ''mkfs.ext4''
                   ([''-E'', ''nodiscard,lazy_itable_init=0,lazy_journal_init=0''] @ args)) w of
              (err, w1) \<Rightarrow>
                (case (if err \<noteq> None
                       then invoke P (ExecCommand ''mkfs.ext4''
                              ([''-E'', ''nodiscard,lazy_itable_init=0''] @ args)) w1
                       else (err, w1)) of
                   (Some err2, w2) \<Rightarrow> (Some err2, w2)
                 | (None, w2) \<Rightarrow>
                     invoke P (ExecCommand ''tune2fs'' ([''-c'', ''-1'', ''-i'', ''0''] @ [devname])) w2))
         else (Some (UnsupportedFilesystem (filesystem devices)), w))"

section \<open>Transaction log\<close>

definition saveTransactionMetaData ::
  "platform \<Rightarrow> DeviceSet \<Rightarrow> world \<Rightarrow> error option \<times> world" where
  "saveTransactionMetaData P devices w =
     (case jsonMarshalTransaction P (Transaction devices) of
        None \<Rightarrow> (Some (Wrapped ''Error encoding metadata to json'' EncodingFailed), w)
      | Some jsonData \<Rightarrow> writeMetaFile P devices jsonData (transactionMetaFile devices) w)"

definition openTransaction ::
  "platform \<Rightarrow> DeviceSet \<Rightarrow> string \<Rightarrow> int \<Rightarrow> world \<Rightarrow> error option \<times> DeviceSet \<times> world" where
  "openTransaction P devices hash deviceId w =
     (let devices1 = allocateTransactionId devices;
          devices2 = devices1\<lparr>Transaction := (Transaction devices1)
                       \<lparr>DeviceIdHash := hash, Transaction.DeviceId := deviceId\<rparr>\<rparr>
      in case saveTransactionMetaData P devices2 w of
           (Some err, w') \<Rightarrow> (Some (Wrapped ''Error saving transaction meta data'' err), devices2, w')
         | (None, w') \<Rightarrow> (None, devices2, w'))"

definition refreshTransaction ::
  "platform \<Rightarrow> DeviceSet \<Rightarrow> int \<Rightarrow> world \<Rightarrow> error option \<times> DeviceSet \<times> world" where
  "refreshTransaction P devices deviceId w =
     (let devices1 = devices\<lparr>Transaction := (Transaction devices)
                       \<lparr>Transaction.DeviceId := deviceId\<rparr>\<rparr>
      in case saveTransactionMetaData P devices1 w of
           (Some err, w') \<Rightarrow> (Some (Wrapped ''Error saving transaction meta data'' err), devices1, w')
         | (None, w') \<Rightarrow> (None, devices1, w'))"

definition closeTransaction ::
  "platform \<Rightarrow> DeviceSet \<Rightarrow> world \<Rightarrow> error option \<times> DeviceSet \<times> world" where
  "closeTransaction P devices w =
     (case updatePoolTransactionId P devices w of
        (Some err, devices', w') \<Rightarrow> (Some err, devices', w')
      | (None, devices', w') \<Rightarrow> (None, devices', w'))"

section \<open>Creating devices\<close>

text \<open>
  \<^verbatim>\<open>devices.markDeviceIdFree(deviceId); return nil, err\<close>, the end of every cleanup
  path: the panic of the slice access, if any, replaces the error.
\<close>

definition freeIdAndFail ::
  "DeviceSet \<Rightarrow> int \<Rightarrow> error \<Rightarrow> world \<Rightarrow> (error + 'a) \<times> DeviceSet \<times> world" where
  "freeIdAndFail devices deviceId err w =
     (case markDeviceIdFree devices deviceId of
        Inl panic \<Rightarrow> (Inl panic, devices, w)
      | Inr devices' \<Rightarrow> (Inl err, devices', w))"

text \<open>
  The \<^verbatim>\<open>for { ... }\<close> loop of \<^verbatim>\<open>createRegisterDevice\<close>. It returns the device id
  that the pool accepted. The result of \<^verbatim>\<open>refreshTransaction\<close> is dropped, as in the
  source.
\<close>

function createRegisterDevice_loop ::
  "platform \<Rightarrow> DeviceSet \<Rightarrow> int \<Rightarrow> world \<Rightarrow> (error + int) \<times> DeviceSet \<times> world" where
  "createRegisterDevice_loop P devices deviceId w =
     (case perform P (DmCreateDevice (getPoolDevName devices) deviceId) w of
        (r, w1) \<Rightarrow>
          if r \<noteq> Success then
            if r = IdExists then
              (case getNextFreeDeviceId devices of
                 (Inl err, devices1) \<Rightarrow> (Inl err, devices1, w1)
               | (Inr deviceId', devices1) \<Rightarrow>
                   (case refreshTransaction P devices1 deviceId' w1 of
                      (ignored, devices2, w2) \<Rightarrow>
                        createRegisterDevice_loop P devices2 deviceId' w2))
            else freeIdAndFail devices deviceId (External r) w1
          else (Inr deviceId, devices, w1))"
  by pat_completeness auto

definition createRegisterDevice ::
  "platform \<Rightarrow> DeviceSet \<Rightarrow> string \<Rightarrow> world \<Rightarrow> (error + DevInfo) \<times> DeviceSet \<times> world" where
  "createRegisterDevice P devices hash w =
     (case getNextFreeDeviceId devices of
        (Inl err, devices1) \<Rightarrow> (Inl err, devices1, w)
      | (Inr deviceId0, devices1) \<Rightarrow>
     (case openTransaction P devices1 hash deviceId0 w of
        (Some err, devices2, w2) \<Rightarrow> freeIdAndFail devices2 deviceId0 err w2
      | (None, devices2, w2) \<Rightarrow>
     (case createRegisterDevice_loop P devices2 deviceId0 w2 of
        (Inl err, devices3, w3) \<Rightarrow> (Inl err, devices3, w3)
      | (Inr deviceId, devices3, w3) \<Rightarrow>
     (case registerDevice P devices3 deviceId hash (baseFsSize devices3)
             (OpenTransactionId (Transaction devices3)) w3 of
        (Inl err, devices4, w4) \<Rightarrow>
          (case invoke P (DmDeleteDevice (getPoolDevName devices4) deviceId) w4 of
             (ignored, w5) \<Rightarrow> freeIdAndFail devices4 deviceId err w5)
      | (Inr info, devices4, w4) \<Rightarrow>
     (case closeTransaction P devices4 w4 of
        (Some err, devices5, w5) \<Rightarrow>
          (case unregisterDevice P devices5 deviceId hash w5 of
             (ignored, devices6, w6) \<Rightarrow>
               (case invoke P (DmDeleteDevice (getPoolDevName devices6) deviceId) w6 of
                  (ignored', w7) \<Rightarrow> freeIdAndFail devices6 deviceId err w7))
      | (None, devices5, w5) \<Rightarrow> (Inr info, devices5, w5))))))"

function createRegisterSnapDevice_loop ::
  "platform \<Rightarrow> DeviceSet \<Rightarrow> DevInfo \<Rightarrow> int \<Rightarrow> world \<Rightarrow> (error + int) \<times> DeviceSet \<times> world" where
  "createRegisterSnapDevice_loop P devices baseInfo deviceId w =
     (case perform P (DmCreateSnapDevice (getPoolDevName devices) deviceId
                        (Name devices baseInfo) (DevInfo.DeviceId baseInfo)) w of
        (r, w1) \<Rightarrow>
          if r \<noteq> Success then
            if r = IdExists then
              (case getNextFreeDeviceId devices of
                 (Inl err, devices1) \<Rightarrow> (Inl err, devices1, w1)
               | (Inr deviceId', devices1) \<Rightarrow>
                   (case refreshTransaction P devices1 deviceId' w1 of
                      (ignored, devices2, w2) \<Rightarrow>
                        createRegisterSnapDevice_loop P devices2 baseInfo deviceId' w2))
            else freeIdAndFail devices deviceId (External r) w1
          else (Inr deviceId, devices, w1))"
  by pat_completeness auto

definition createRegisterSnapDevice ::
  "platform \<Rightarrow> DeviceSet \<Rightarrow> string \<Rightarrow> DevInfo \<Rightarrow> world \<Rightarrow> error option \<times> DeviceSet \<times> world" where
  "createRegisterSnapDevice P devices hash baseInfo w =
     (case getNextFreeDeviceId devices of
        (Inl err, devices1) \<Rightarrow> (Some err, devices1, w)
      | (Inr deviceId0, devices1) \<Rightarrow>
     (case openTransaction P devices1 hash deviceId0 w of
        (Some err, devices2, w2) \<Rightarrow>
          (case freeIdAndFail devices2 deviceId0 err w2 :: (error + unit) \<times> DeviceSet \<times> world of
             (Inl e, devices3, w3) \<Rightarrow> (Some e, devices3, w3)
           | (Inr u, devices3, w3) \<Rightarrow> (None, devices3, w3))
      | (None, devices2, w2) \<Rightarrow>
     (case createRegisterSnapDevice_loop P devices2 baseInfo deviceId0 w2 of
        (Inl err, devices3, w3) \<Rightarrow> (Some err, devices3, w3)
      | (Inr deviceId, devices3, w3) \<Rightarrow>
     (case registerDevice P devices3 deviceId hash (Size baseInfo)
             (OpenTransactionId (Transaction devices3)) w3 of
        (Inl err, devices4, w4) \<Rightarrow>
          (case invoke P (DmDeleteDevice (getPoolDevName devices4) deviceId) w4 of
             (ignored, w5) \<Rightarrow>
               (case freeIdAndFail devices4 deviceId err w5 :: (error + unit) \<times> DeviceSet \<times> world of
                  (Inl e, devices5, w6) \<Rightarrow> (Some e, devices5, w6)
                | (Inr u, devices5, w6) \<Rightarrow> (None, devices5, w6)))
      | (Inr info, devices4, w4) \<Rightarrow>
     (case closeTransaction P devices4 w4 of
        (Some err, devices5, w5) \<Rightarrow>
          (case unregisterDevice P devices5 deviceId hash w5 of
             (ignored, devices6, w6) \<Rightarrow>
               (case invoke P (DmDeleteDevice (getPoolDevName devices6) deviceId) w6 of
                  (ignored', w7) \<Rightarrow>
                    (case freeIdAndFail devices6 deviceId err w7 :: (error + unit) \<times> DeviceSet \<times> world of
                       (Inl e, devices7, w8) \<Rightarrow> (Some e, devices7, w8)
                     | (Inr u, devices7, w8) \<Rightarrow> (None, devices7, w8))))
      | (None, devices5, w5) \<Rightarrow> (None, devices5, w5))))))"

section \<open>Waiting for the kernel\<close>

text \<open>
  The three bounded loops, entered with the loop counter \<open>i\<close>. The global lock is
  released around the \<^verbatim>\<open>time.Sleep\<close> of each round; neither is modelled.
\<close>

function removeDeviceAndWait_loop ::
  "platform \<Rightarrow> string \<Rightarrow> int \<Rightarrow> world \<Rightarrow> error option \<times> world" where
  "removeDeviceAndWait_loop P devname i w =
     (if i < 1000 then
        (case perform P (DmRemoveDevice devname) w of
           (r, w1) \<Rightarrow>
             if r = Success then (None, w1)
             else if r \<noteq> DeviceBusy then (Some (External r), w1)
             else removeDeviceAndWait_loop P devname (i + 1) w1)
      else (Some (External DeviceBusy), w))"
  by pat_completeness auto
termination
  by (relation "measure (\<lambda>(P, devname, i, w). nat (1000 - i))") auto

function waitRemove_loop ::
  "platform \<Rightarrow> string \<Rightarrow> int \<Rightarrow> world \<Rightarrow> error option \<times> world" where
  "waitRemove_loop P devname i w =
     (if i < 1000 then
        (case GetInfo P devname w of
           (Inl err, w1) \<Rightarrow> (None, w1)
         | (Inr (ex, oc), w1) \<Rightarrow>
             if ex = 0 then (None, w1)
             else waitRemove_loop P devname (i + 1) w1)
      else (Some (Timeout devname), w))"
  by pat_completeness auto
termination
  by (relation "measure (\<lambda>(P, devname, i, w). nat (1000 - i))") auto

definition waitRemove :: "platform \<Rightarrow> string \<Rightarrow> world \<Rightarrow> error option \<times> world" where
  "waitRemove P devname w = waitRemove_loop P devname 0 w"

definition removeDeviceAndWait :: "platform \<Rightarrow> string \<Rightarrow> world \<Rightarrow> error option \<times> world" where
  "removeDeviceAndWait P devname w =
     (case removeDeviceAndWait_loop P devname 0 w of
        (Some err, w1) \<Rightarrow> (Some err, w1)
      | (None, w1) \<Rightarrow>
          (case waitRemove P devname w1 of
             (Some err, w2) \<Rightarrow> (Some err, w2)
           | (None, w2) \<Rightarrow> (None, w2)))"

function waitClose_loop ::
  "platform \<Rightarrow> DeviceSet \<Rightarrow> DevInfo \<Rightarrow> int \<Rightarrow> world \<Rightarrow> error option \<times> world" where
  "waitClose_loop P devices info i w =
     (if i < 1000 then
        (case GetInfo P (Name devices info) w of
           (Inl err, w1) \<Rightarrow> (Some err, w1)
         | (Inr (ex, oc), w1) \<Rightarrow>
             if oc = 0 then (None, w1)
             else waitClose_loop P devices info (i + 1) w1)
      else (Some (Timeout (Hash info)), w))"
  by pat_completeness auto
termination
  by (relation "measure (\<lambda>(P, devices, info, i, w). nat (1000 - i))") auto

definition waitClose :: "platform \<Rightarrow> DeviceSet \<Rightarrow> DevInfo \<Rightarrow> world \<Rightarrow> error option \<times> world" where
  "waitClose P devices info w = waitClose_loop P devices info 0 w"

definition deactivateDevice ::
  "platform \<Rightarrow> DeviceSet \<Rightarrow> DevInfo \<Rightarrow> world \<Rightarrow> error option \<times> world" where
  "deactivateDevice P devices info w =
     (case waitClose P devices info w of
        (logged, w1) \<Rightarrow>
          (case GetInfo P (Name devices info) w1 of
             (Inl err, w2) \<Rightarrow> (Some err, w2)
           | (Inr (ex, oc), w2) \<Rightarrow>
               if ex \<noteq> 0 then
                 (case removeDeviceAndWait P (Name devices info) w2 of
                    (Some err, w3) \<Rightarrow> (Some err, w3)
                  | (None, w3) \<Rightarrow> (None, w3))
               else (None, w2)))"

section \<open>Deleting devices\<close>

definition deleteDevice ::
  "platform \<Rightarrow> DeviceSet \<Rightarrow> DevInfo \<Rightarrow> world \<Rightarrow> error option \<times> DeviceSet \<times> world" where
  "deleteDevice P devices info w =
     (case (if doBlkDiscard devices then
              (case activateDeviceIfNeeded P devices info w of
                 (None, wa) \<Rightarrow>
                   (case invoke P (DmBlockDeviceDiscard (DevName devices info)) wa of
                      (ignored, wb) \<Rightarrow> wb)
               | (Some err, wa) \<Rightarrow> wa)
            else w) of
        w1 \<Rightarrow>
     (case GetInfo P (Name devices info) w1 of
        (devinfo, w2) \<Rightarrow>
     (case (if (case devinfo of Inl err \<Rightarrow> False | Inr (ex, oc) \<Rightarrow> ex \<noteq> 0)
            then removeDeviceAndWait P (Name devices info) w2
            else (None, w2)) of
        (Some err, w3) \<Rightarrow> (Some err, devices, w3)
      | (None, w3) \<Rightarrow>
     (case openTransaction P devices (Hash info) (DevInfo.DeviceId info) w3 of
        (Some err, devices4, w4) \<Rightarrow> (Some err, devices4, w4)
      | (None, devices4, w4) \<Rightarrow>
     (case invoke P (DmDeleteDevice (getPoolDevName devices4) (DevInfo.DeviceId info)) w4 of
        (Some err, w5) \<Rightarrow> (Some err, devices4, w5)
      | (None, w5) \<Rightarrow>
     (case unregisterDevice P devices4 (DevInfo.DeviceId info) (Hash info) w5 of
        (Some err, devices6, w6) \<Rightarrow> (Some err, devices6, w6)
      | (None, devices6, w6) \<Rightarrow>
     (case closeTransaction P devices6 w6 of
        (Some err, devices7, w7) \<Rightarrow> (Some err, devices7, w7)
      | (None, devices7, w7) \<Rightarrow>
     (case markDeviceIdFree devices7 (DevInfo.DeviceId info) of
        Inl panic \<Rightarrow> (Some panic, devices7, w7)
      | Inr devices8 \<Rightarrow> (None, devices8, w7)))))))))"

definition DeleteDevice ::
  "platform \<Rightarrow> DeviceSet \<Rightarrow> string \<Rightarrow> world \<Rightarrow> error option \<times> DeviceSet \<times> world" where
  "DeleteDevice P devices hash w =
     (case lookupDevice P devices hash w of
        (Inl err, devices1, w1) \<Rightarrow> (Some err, devices1, w1)
      | (Inr info, devices1, w1) \<Rightarrow> deleteDevice P devices1 info w1)"

section \<open>Base image\<close>

text \<open>
  \<^verbatim>\<open>poolStatus\<close>: \<^verbatim>\<open>devicemapper.GetStatus\<close> and the \<^verbatim>\<open>fmt.Sscanf\<close> of its
  parameter string, one outside call whose outcome carries the fields that were read, in
  the order of the Go results: total size in sectors, transaction id, data used, data
  total, metadata used, metadata total.
\<close>

definition poolStatus ::
  "platform \<Rightarrow> DeviceSet \<Rightarrow> world \<Rightarrow>
   (error + u64 \<times> u64 \<times> u64 \<times> u64 \<times> u64 \<times> u64) \<times> world" where
  "poolStatus P devices w =
     (case perform P (DmGetStatus (getPoolName devices)) w of
        (GotPoolStatus totalSizeInSectors transactionId dataUsed dataTotal metadataUsed metadataTotal, w') \<Rightarrow>
          (Inr (totalSizeInSectors, transactionId, dataUsed, dataTotal, metadataUsed, metadataTotal), w')
      | (r, w') \<Rightarrow> (Inl (External r), w'))"

text \<open>
  In \<^verbatim>\<open>setupBaseImage\<close> the record \<^verbatim>\<open>info\<close> is the one registered under the empty
  hash: \<^verbatim>\<open>info.Initialized = true\<close> is seen through the registry, and is set back to
  false when the metadata cannot be saved.
\<close>

definition setupBaseImage ::
  "platform \<Rightarrow> DeviceSet \<Rightarrow> world \<Rightarrow> error option \<times> DeviceSet \<times> world" where
  "setupBaseImage P devices w =
     (case lookupDevice P devices [] w of
        (oldInfo, devices1, w1) \<Rightarrow>
     if (case oldInfo of Inl err \<Rightarrow> False | Inr old \<Rightarrow> Initialized old)
     then (None, devices1, w1) else
     (case (if (case oldInfo of Inl err \<Rightarrow> False | Inr old \<Rightarrow> \<not> Initialized old)
            then DeleteDevice P devices1 [] w1
            else (None, devices1, w1)) of
        (Some err, devices2, w2) \<Rightarrow> (Some err, devices2, w2)
      | (None, devices2, w2) \<Rightarrow>
     (case (if thinPoolDevice devices2 \<noteq> [] \<and> (case oldInfo of Inl err \<Rightarrow> True | Inr old \<Rightarrow> False)
            then
              (case poolStatus P devices2 w2 of
                 (Inl err, w3) \<Rightarrow> (Some err, w3)
               | (Inr (totalSizeInSectors, transactionId, dataUsed, others), w3) \<Rightarrow>
                   if dataUsed \<noteq> 0 then (Some (PoolHasUsedData (thinPoolDevice devices2)), w3)
                   else if transactionId \<noteq> 0
                   then (Some (PoolHasTransactionId (thinPoolDevice devices2)), w3)
                   else (None, w3))
            else (None, w2)) of
        (Some err, w3) \<Rightarrow> (Some err, devices2, w3)
      | (None, w3) \<Rightarrow>
     (case createRegisterDevice P devices2 [] w3 of
        (Inl err, devices4, w4) \<Rightarrow> (Some err, devices4, w4)
      | (Inr info, devices4, w4) \<Rightarrow>
     (case activateDeviceIfNeeded P devices4 info w4 of
        (Some err, w5) \<Rightarrow> (Some err, devices4, w5)
      | (None, w5) \<Rightarrow>
     (case createFilesystem P devices4 info w5 of
        (Some err, w6) \<Rightarrow> (Some err, devices4, w6)
      | (None, w6) \<Rightarrow>
     (case saveMetadata P devices4 (info\<lparr>Initialized := True\<rparr>) w6 of
        (Some err, w7) \<Rightarrow> (Some err, devices4, w7)
      | (None, w7) \<Rightarrow>
          (None,
           devices4\<lparr>Devices := (Devices devices4)([] \<mapsto> info\<lparr>Initialized := True\<rparr>)\<rparr>,
           w7))))))))"

section \<open>Crash recovery\<close>

text \<open>
  \<^verbatim>\<open>loadTransactionMetaData\<close> drops the error of \<^verbatim>\<open>json.Unmarshal\<close>: the
  transaction is whatever the decoder left in the struct.
\<close>

definition loadTransactionMetaData ::
  "platform \<Rightarrow> DeviceSet \<Rightarrow> world \<Rightarrow> error option \<times> DeviceSet \<times> world" where
  "loadTransactionMetaData P devices w =
     (case osReadFile P (transactionMetaFile devices) w of
        (Inl err, w') \<Rightarrow>
          if err = NotExist
          then (None,
                devices\<lparr>Transaction := (Transaction devices)
                  \<lparr>OpenTransactionId := DeviceSet.TransactionId devices\<rparr>\<rparr>,
                w')
          else (Some err, devices, w')
      | (Inr jsonData, w') \<Rightarrow>
          (None,
           devices\<lparr>Transaction := jsonUnmarshalTransaction P jsonData (Transaction devices)\<rparr>,
           w'))"

definition removeTransactionMetaData ::
  "platform \<Rightarrow> DeviceSet \<Rightarrow> world \<Rightarrow> error option \<times> world" where
  "removeTransactionMetaData P devices w =
     (case osRemoveAll P (transactionMetaFile devices) w of
        (Some err, w') \<Rightarrow> (Some err, w')
      | (None, w') \<Rightarrow> (None, w'))"

text \<open>
  \<^verbatim>\<open>rollbackTransaction\<close> always returns nil: its result is \<open>Inr None\<close>, or
  \<open>Inl\<close> of the panic of \<^verbatim>\<open>markDeviceIdFree\<close>.
\<close>

definition rollbackTransaction ::
  "platform \<Rightarrow> DeviceSet \<Rightarrow> world \<Rightarrow> (error + error option) \<times> DeviceSet \<times> world" where
  "rollbackTransaction P devices w =
     (case invoke P (DmDeleteDevice (getPoolDevName devices)
                       (Transaction.DeviceId (Transaction devices))) w of
        (logged, w1) \<Rightarrow>
     (let dinfo = newDevInfo (DeviceIdHash (Transaction devices))
      in case removeMetadata P devices dinfo w1 of
           (removed, w2) \<Rightarrow>
     (case (if removed \<noteq> None then Inr devices
            else markDeviceIdFree devices (Transaction.DeviceId (Transaction devices))) of
        Inl panic \<Rightarrow> (Inl panic, devices, w2)
      | Inr devices3 \<Rightarrow>
          (case removeTransactionMetaData P devices3 w2 of
             (logged', w4) \<Rightarrow> (Inr None, devices3, w4)))))"

definition processPendingTransaction ::
  "platform \<Rightarrow> DeviceSet \<Rightarrow> world \<Rightarrow> error option \<times> DeviceSet \<times> world" where
  "processPendingTransaction P devices w =
     (case loadTransactionMetaData P devices w of
        (Some err, devices1, w1) \<Rightarrow> (Some err, devices1, w1)
      | (None, devices1, w1) \<Rightarrow>
          if DeviceSet.TransactionId devices1 = OpenTransactionId (Transaction devices1)
          then (None, devices1, w1)
          else if OpenTransactionId (Transaction devices1) < DeviceSet.TransactionId devices1
          then (None, devices1, w1)
          else
            (case rollbackTransaction P devices1 w1 of
               (Inl panic, devices2, w2) \<Rightarrow> (Some panic, devices2, w2)
             | (Inr (Some err), devices2, w2) \<Rightarrow>
                 (Some (Wrapped ''Rolling back open transaction failed'' err), devices2, w2)
             | (Inr None, devices2, w2) \<Rightarrow>
                 (None,
                  devices2\<lparr>Transaction := (Transaction devices2)
                    \<lparr>OpenTransactionId := DeviceSet.TransactionId devices2\<rparr>\<rparr>,
                  w2)))"

section \<open>Mounting\<close>

text \<open>\<^verbatim>\<open>ProbeFsType\<close> (another file of the package) reads the device.\<close>

definition ProbeFsType :: "platform \<Rightarrow> string \<Rightarrow> world \<Rightarrow> (error + string) \<times> world" where
  "ProbeFsType P device w =
     (case perform P (DoProbeFsType device) w of
        (GotFsType fstype, w') \<Rightarrow> (Inr fstype, w')
      | (r, w') \<Rightarrow> (Inl (External r), w'))"

text \<open>
  \<^verbatim>\<open>info\<close> is the record the registry holds under \<open>hash\<close>: an assignment to one of
  its fields is an update of that entry.
\<close>

definition MountDevice ::
  "platform \<Rightarrow> DeviceSet \<Rightarrow> string \<Rightarrow> string \<Rightarrow> string \<Rightarrow> world \<Rightarrow>
   error option \<times> DeviceSet \<times> world" where
  "MountDevice P devices hash path mountLabel w =
     (case lookupDevice P devices hash w of
        (Inl err, devices1, w1) \<Rightarrow> (Some err, devices1, w1)
      | (Inr info, devices1, w1) \<Rightarrow>
     if mountCount info > 0 then
       if path \<noteq> mountPath info
       then (Some (MountedElsewhere (mountPath info) path), devices1, w1)
       else (None,
             devices1\<lparr>Devices := (Devices devices1)
               (hash \<mapsto> info\<lparr>mountCount := mountCount info + 1\<rparr>)\<rparr>,
             w1)
     else
     (case activateDeviceIfNeeded P devices1 info w1 of
        (Some err, w2) \<Rightarrow>
          (Some (Wrapped ''Error activating devmapper device'' err), devices1, w2)
      | (None, w2) \<Rightarrow>
     (case ProbeFsType P (DevName devices1 info) w2 of
        (Inl err, w3) \<Rightarrow> (Some err, devices1, w3)
      | (Inr fstype, w3) \<Rightarrow>
     (let options = [];
          options = (if fstype = ''xfs'' then joinMountOptions P options ''nouuid'' else options);
          options = joinMountOptions P options (mountOptions devices1);
          options = joinMountOptions P options (FormatMountLabel P [] mountLabel)
      in case perform P (SysMount (DevName devices1 info) path fstype MS_MGC_VAL
                           (joinMountOptions P ''discard'' options)) w3 of
           (r, w4) \<Rightarrow>
     (case (if r = EINVAL
            then perform P (SysMount (DevName devices1 info) path fstype MS_MGC_VAL options) w4
            else (r, w4)) of
        (r', w5) \<Rightarrow>
          if r' \<noteq> Success
          then (Some (Wrapped ''Error mounting'' (External r')), devices1, w5)
          else (None,
                devices1\<lparr>Devices := (Devices devices1)
                  (hash \<mapsto> info\<lparr>mountCount := 1, mountPath := path\<rparr>)\<rparr>,
                w5))))))"

definition UnmountDevice ::
  "platform \<Rightarrow> DeviceSet \<Rightarrow> string \<Rightarrow> world \<Rightarrow> error option \<times> DeviceSet \<times> world" where
  "UnmountDevice P devices hash w =
     (case lookupDevice P devices hash w of
        (Inl err, devices1, w1) \<Rightarrow> (Some err, devices1, w1)
      | (Inr info, devices1, w1) \<Rightarrow>
     if mountCount info = 0 then (Some (NotMounted hash), devices1, w1) else
     (let info2 = info\<lparr>mountCount := mountCount info - 1\<rparr>;
          devices2 = devices1\<lparr>Devices := (Devices devices1)(hash \<mapsto> info2)\<rparr>
      in if mountCount info2 > 0 then (None, devices2, w1) else
     (case invoke P (SysUnmount (mountPath info2) MNT_DETACH) w1 of
        (Some err, w2) \<Rightarrow> (Some err, devices2, w2)
      | (None, w2) \<Rightarrow>
     (case deactivateDevice P devices2 info2 w2 of
        (Some err, w3) \<Rightarrow> (Some err, devices2, w3)
      | (None, w3) \<Rightarrow>
          (None,
           devices2\<lparr>Devices := (Devices devices2)(hash \<mapsto> info2\<lparr>mountPath := []\<rparr>)\<rparr>,
           w3)))))"

section \<open>Configuration\<close>

definition DefaultDataLoopbackSize :: int where
  "DefaultDataLoopbackSize = 100 * 1024 * 1024 * 1024"

definition DefaultMetaDataLoopbackSize :: int where
  "DefaultMetaDataLoopbackSize = 2 * 1024 * 1024 * 1024"

definition DefaultBaseFsSize :: u64 where
  "DefaultBaseFsSize = 10 * 1024 * 1024 * 1024"

definition DefaultThinpBlockSize :: "32 word" where
  "DefaultThinpBlockSize = 128"

text \<open>\<^verbatim>\<open>strings.TrimPrefix\<close>.\<close>

definition TrimPrefix :: "string \<Rightarrow> string \<Rightarrow> string" where
  "TrimPrefix s pfx = (if prefix pfx s then drop (length pfx) s else s)"

text \<open>
  The composite literal at the head of \<^verbatim>\<open>NewDeviceSet\<close>; the fields it does not name
  have their zero values.
\<close>

definition NewDeviceSet_literal :: "string \<Rightarrow> DeviceSet" where
  "NewDeviceSet_literal rootDir =
     \<lparr>Devices = Map.empty,
      root = rootDir,
      devicePrefix = [],
      DeviceSet.TransactionId = 0,
      NextDeviceId = 0,
      deviceIdMap = (\<lambda>k. 0),
      dataLoopbackSize = DefaultDataLoopbackSize,
      metaDataLoopbackSize = DefaultMetaDataLoopbackSize,
      baseFsSize = DefaultBaseFsSize,
      filesystem = ''ext4'',
      mountOptions = [],
      mkfsArgs = [],
      dataDevice = [],
      dataLoopFile = [],
      metadataDevice = [],
      metadataLoopFile = [],
      doBlkDiscard = True,
      thinpBlockSize = DefaultThinpBlockSize,
      thinPoolDevice = [],
      Transaction = \<lparr>OpenTransactionId = 0, DeviceIdHash = [], Transaction.DeviceId = 0\<rparr>\<rparr>"

text \<open>
  The \<^verbatim>\<open>for _, option := range options\<close> loop of \<^verbatim>\<open>NewDeviceSet\<close>, with the flag
  \<^verbatim>\<open>foundBlkDiscard\<close>. An error ends the loop and \<^verbatim>\<open>NewDeviceSet\<close>.
\<close>

fun NewDeviceSet_options ::
  "platform \<Rightarrow> string list \<Rightarrow> DeviceSet \<Rightarrow> bool \<Rightarrow> error + DeviceSet \<times> bool" where
  "NewDeviceSet_options P [] devices foundBlkDiscard = Inr (devices, foundBlkDiscard)"
| "NewDeviceSet_options P (option # options) devices foundBlkDiscard =
     (case ParseKeyValueOpt P option of
        None \<Rightarrow> Inl (BadOption option)
      | Some (key0, val) \<Rightarrow>
          (let key = ToLower P key0
           in if key = ''dm.basesize'' then
                (case RAMInBytes P val of
                   None \<Rightarrow> Inl (BadOption val)
                 | Some sz \<Rightarrow>
                     NewDeviceSet_options P options
                       (devices\<lparr>baseFsSize := word_of_int sz\<rparr>) foundBlkDiscard)
              else if key = ''dm.loopdatasize'' then
                (case RAMInBytes P val of
                   None \<Rightarrow> Inl (BadOption val)
                 | Some sz \<Rightarrow>
                     NewDeviceSet_options P options
                       (devices\<lparr>dataLoopbackSize := sz\<rparr>) foundBlkDiscard)
              else if key = ''dm.loopmetadatasize'' then
                (case RAMInBytes P val of
                   None \<Rightarrow> Inl (BadOption val)
                 | Some sz \<Rightarrow>
                     NewDeviceSet_options P options
                       (devices\<lparr>metaDataLoopbackSize := sz\<rparr>) foundBlkDiscard)
              else if key = ''dm.fs'' then
                (if val \<noteq> ''ext4'' \<and> val \<noteq> ''xfs'' then Inl (UnsupportedFilesystem val)
                 else NewDeviceSet_options P options (devices\<lparr>filesystem := val\<rparr>) foundBlkDiscard)
              else if key = ''dm.mkfsarg'' then
                NewDeviceSet_options P options
                  (devices\<lparr>mkfsArgs := mkfsArgs devices @ [val]\<rparr>) foundBlkDiscard
              else if key = ''dm.mountopt'' then
                NewDeviceSet_options P options
                  (devices\<lparr>mountOptions := joinMountOptions P (mountOptions devices) val\<rparr>)
                  foundBlkDiscard
              else if key = ''dm.metadatadev'' then
                NewDeviceSet_options P options (devices\<lparr>metadataDevice := val\<rparr>) foundBlkDiscard
              else if key = ''dm.datadev'' then
                NewDeviceSet_options P options (devices\<lparr>dataDevice := val\<rparr>) foundBlkDiscard
              else if key = ''dm.thinpooldev'' then
                NewDeviceSet_options P options
                  (devices\<lparr>thinPoolDevice := TrimPrefix val ''/dev/mapper/''\<rparr>) foundBlkDiscard
              else if key = ''dm.blkdiscard'' then
                (case ParseBool P val of
                   None \<Rightarrow> Inl (BadOption val)
                 | Some b \<Rightarrow> NewDeviceSet_options P options (devices\<lparr>doBlkDiscard := b\<rparr>) True)
              else if key = ''dm.blocksize'' then
                (case RAMInBytes P val of
                   None \<Rightarrow> Inl (BadOption val)
                 | Some sz \<Rightarrow>
                     NewDeviceSet_options P options
                       (devices\<lparr>thinpBlockSize := drop_bit 9 (word_of_int sz)\<rparr>) foundBlkDiscard)
              else Inl (UnknownOption key)))"

text \<open>
  \<^verbatim>\<open>NewDeviceSet\<close>. \<^verbatim>\<open>initDevmapper\<close>, which brings the pool up, is a parameter here:
  it receives the configured DeviceSet, and \<^verbatim>\<open>NewDeviceSet\<close> returns what it leaves.
\<close>

definition NewDeviceSet ::
  "platform \<Rightarrow> (DeviceSet \<Rightarrow> bool \<Rightarrow> world \<Rightarrow> error option \<times> DeviceSet \<times> world) \<Rightarrow>
   string \<Rightarrow> bool \<Rightarrow> string list \<Rightarrow> world \<Rightarrow> (error + DeviceSet) \<times> world" where
  "NewDeviceSet P initDevmapper rootDir doInit options w =
     (case NewDeviceSet_options P options (NewDeviceSet_literal rootDir) False of
        Inl err \<Rightarrow> (Inl err, w)
      | Inr (devices, foundBlkDiscard) \<Rightarrow>
          (let devices =
                 (if \<not> foundBlkDiscard \<and> (dataDevice devices \<noteq> [] \<or> thinPoolDevice devices \<noteq> [])
                  then devices\<lparr>doBlkDiscard := False\<rparr> else devices)
           in case initDevmapper devices doInit w of
                (Some err, devices', w') \<Rightarrow> (Inl err, w')
              | (None, devices', w') \<Rightarrow> (Inr devices', w')))"

section \<open>Observing a run\<close>

text \<open>
  The device ids that the pool reported as already existing, among the calls \<open>cs\<close> made
  after the history \<open>h\<close>: the ids of the \<^verbatim>\<open>CreateDevice\<close> and \<^verbatim>\<open>CreateSnapDevice\<close>
  calls that the platform answered with \<open>IdExists\<close>.
\<close>

fun reportedExisting :: "platform \<Rightarrow> call list \<Rightarrow> call list \<Rightarrow> int list" where
  "reportedExisting P h [] = []"
| "reportedExisting P h (c # cs) =
     (case c of
        DmCreateDevice pool deviceId \<Rightarrow>
          (if respond P (h @ [c]) = IdExists then [deviceId] else [])
      | DmCreateSnapDevice pool deviceId baseName baseId \<Rightarrow>
          (if respond P (h @ [c]) = IdExists then [deviceId] else [])
      | _ \<Rightarrow> []) @ reportedExisting P (h @ [c]) cs"

fun isCreate :: "call \<Rightarrow> bool" where
  "isCreate (DmCreateDevice pool deviceId) = True"
| "isCreate (DmCreateSnapDevice pool deviceId baseName baseId) = True"
| "isCreate c = False"

text \<open>The world \<open>w'\<close> comes from \<open>w\<close> by calls none of which creates a device.\<close>

definition quietly :: "world \<Rightarrow> world \<Rightarrow> bool" where
  "quietly w w' \<longleftrightarrow> (\<exists>cs. trace w' = trace w @ cs \<and> (\<forall>c\<in>set cs. \<not> isCreate c))"

text \<open>
  What the retry loop may change of the DeviceSet: the cursor, the bitmap and the device
  id of the open transaction.
\<close>

definition allocatorFrame :: "DeviceSet \<Rightarrow> DeviceSet \<Rightarrow> bool" where
  "allocatorFrame devices devices' \<longleftrightarrow>
     (\<exists>cursor bitmap deviceId.
        devices' = devices\<lparr>NextDeviceId := cursor, deviceIdMap := bitmap,
                            Transaction := (Transaction devices)
                              \<lparr>Transaction.DeviceId := deviceId\<rparr>\<rparr>)"

text \<open>
  The operations that allocate or free device ids, as requests, and a sequence of them
  served one after the other, whatever each returns.
\<close>

datatype request = Create string | CreateSnap string DevInfo | Delete DevInfo

fun serve :: "platform \<Rightarrow> request list \<Rightarrow> DeviceSet \<Rightarrow> world \<Rightarrow> DeviceSet \<times> world" where
  "serve P [] devices w = (devices, w)"
| "serve P (Create hash # rest) devices w =
     (case createRegisterDevice P devices hash w of
        (r, devices', w') \<Rightarrow> serve P rest devices' w')"
| "serve P (CreateSnap hash baseInfo # rest) devices w =
     (case createRegisterSnapDevice P devices hash baseInfo w of
        (r, devices', w') \<Rightarrow> serve P rest devices' w')"
| "serve P (Delete info # rest) devices w =
     (case deleteDevice P devices info w of
        (r, devices', w') \<Rightarrow> serve P rest devices' w')"

fun deletes :: "request \<Rightarrow> int \<Rightarrow> bool" where
  "deletes (Delete info) deviceId = (DevInfo.DeviceId info = deviceId)"
| "deletes (Create hash) deviceId = False"
| "deletes (CreateSnap hash baseInfo) deviceId = False"

section \<open>An example platform\<close>

text \<open>
  Concrete platforms and states, on which the theorems below are instantiated. The JSON
  codec of the example is a toy one: a record is the list of its numeric fields, one
  byte each, followed for a transaction by the bytes of the hash.
\<close>

definition examplePlatform :: "(call list \<Rightarrow> outcome) \<Rightarrow> platform" where
  "examplePlatform answers =
     \<lparr>respond = answers,
      jsonMarshalDevInfo =
        (\<lambda>info. Some [word_of_int (DevInfo.DeviceId info), ucast (Size info),
                       ucast (DevInfo.TransactionId info), if Initialized info then 1 else 0]),
      jsonUnmarshalDevInfo =
        (\<lambda>bs info. case bs of
           [a, b, c, d] \<Rightarrow>
             Some (info\<lparr>DevInfo.DeviceId := uint a, Size := ucast b,
                         DevInfo.TransactionId := ucast c, Initialized := (d \<noteq> 0)\<rparr>)
         | _ \<Rightarrow> None),
      jsonMarshalTransaction =
        (\<lambda>t. Some (ucast (OpenTransactionId t) # word_of_int (Transaction.DeviceId t) #
                    map (\<lambda>c. of_nat (of_char c)) (DeviceIdHash t))),
      jsonUnmarshalTransaction =
        (\<lambda>bs t. case bs of
           a # b # hs \<Rightarrow>
             \<lparr>OpenTransactionId = ucast a, DeviceIdHash = map (\<lambda>h. char_of (unat h)) hs,
              Transaction.DeviceId = uint b\<rparr>
         | _ \<Rightarrow> t),
      jsonMarshalDeviceSet = (\<lambda>n. Some [word_of_int n]),
      jsonUnmarshalDeviceSet = (\<lambda>bs n. case bs of [a] \<Rightarrow> Some (uint a) | _ \<Rightarrow> None),
      joinMountOptions = (\<lambda>a b. if a = [] then b else if b = [] then a else a @ '','' @ b),
      FormatMountLabel = (\<lambda>src mountLabel. src),
      ParseKeyValueOpt =
        (\<lambda>opt. if CHR ''='' \<in> set opt
               then Some (takeWhile (\<lambda>c. c \<noteq> CHR ''='') opt,
                          tl (dropWhile (\<lambda>c. c \<noteq> CHR ''='') opt))
               else None),
      ToLower = (\<lambda>s. s),
      RAMInBytes = (\<lambda>s. None),
      ParseBool =
        (\<lambda>s. if s = ''true'' then Some True else if s = ''false'' then Some False else None),
      removedBeforeFailure = (\<lambda>h p. False)\<rparr>"

text \<open>
  A kernel and file system on which every call succeeds: a device exists until it has
  been removed, is never held open, and carries an ext4 file system; the pool is empty;
  temporary names are fresh because they grow with the history.
\<close>

definition nominalAnswers :: "call list \<Rightarrow> outcome" where
  "nominalAnswers h =
     (case last h of
        DmGetInfo name \<Rightarrow> GotInfo (if DmRemoveDevice name \<in> set h then 0 else 1) 0
      | DmGetStatus name \<Rightarrow> GotPoolStatus 0 0 0 0 0 0
      | DoProbeFsType device \<Rightarrow> GotFsType ''ext4''
      | OsTempFile dir pfx \<Rightarrow> GotTempName (replicate (length h) (CHR ''x''))
      | OsWrite name bs \<Rightarrow> Wrote (length bs)
      | _ \<Rightarrow> Success)"

text \<open>The same, but the kernel refuses every unmount.\<close>

definition unmountFails :: "call list \<Rightarrow> outcome" where
  "unmountFails h =
     (case last h of
        SysUnmount target flags \<Rightarrow> Failure ''device or resource busy''
      | _ \<Rightarrow> nominalAnswers h)"

definition exampleWorld :: world where
  "exampleWorld = \<lparr>files = Map.empty, trace = []\<rparr>"

text \<open>A DeviceSet whose registry holds the device \<open>A\<close>, mounted once at \<open>/mnt/x\<close>.\<close>

definition mountedA :: DevInfo where
  "mountedA = (newDevInfo ''A'')\<lparr>DevInfo.DeviceId := 2, mountCount := 1, mountPath := ''/mnt/x''\<rparr>"

definition exampleDevices :: DeviceSet where
  "exampleDevices =
     (NewDeviceSet_literal ''/var/lib/docker'')
       \<lparr>Devices := [''A'' \<mapsto> mountedA], devicePrefix := ''docker-8:1-2''\<rparr>"

text \<open>
  \<open>n\<close> calls of one operation in a row, as a client that mounts (or unmounts) a device
  \<open>n\<close> times makes them; the first error ends the sequence.
\<close>

fun repeated ::
  "nat \<Rightarrow> (DeviceSet \<Rightarrow> world \<Rightarrow> error option \<times> DeviceSet \<times> world) \<Rightarrow>
   DeviceSet \<Rightarrow> world \<Rightarrow> error option \<times> DeviceSet \<times> world" where
  "repeated 0 operation devices w = (None, devices, w)"
| "repeated (Suc n) operation devices w =
     (case operation devices w of
        (Some err, devices', w') \<Rightarrow> (Some err, devices', w')
      | (None, devices', w') \<Rightarrow> repeated n operation devices' w')"

text \<open>The device \<open>A\<close> before its first mount, and the worlds after it is mounted and unmounted.\<close>

definition unmountedDevices :: DeviceSet where
  "unmountedDevices = exampleDevices\<lparr>Devices := [''A'' \<mapsto> mountedA\<lparr>mountCount := 0, mountPath := []\<rparr>]\<rparr>"

definition afterMount :: world where
  "afterMount = exampleWorld\<lparr>trace :=
     [DmGetInfo ''docker-8:1-2-A'', DoProbeFsType ''/dev/mapper/docker-8:1-2-A'',
      SysMount ''/dev/mapper/docker-8:1-2-A'' ''/mnt/x'' ''ext4'' MS_MGC_VAL ''discard'']\<rparr>"

definition afterUnmount :: world where
  "afterUnmount = afterMount\<lparr>trace := trace afterMount @
        [SysUnmount ''/mnt/x'' MNT_DETACH,
         DmGetInfo ''docker-8:1-2-A'', DmGetInfo ''docker-8:1-2-A'',
         DmRemoveDevice ''docker-8:1-2-A'', DmGetInfo ''docker-8:1-2-A'']\<rparr>"

text \<open>The nominal platform, but no file can be synced.\<close>

definition syncFails :: "call list \<Rightarrow> outcome" where
  "syncFails h =
     (case last h of
        OsSync name \<Rightarrow> Failure ''input/output error''
      | _ \<Rightarrow> nominalAnswers h)"

text \<open>A world in which the metadata file of the base device exists.\<close>

definition worldWithBase :: world where
  "worldWithBase = \<lparr>files = [''/var/lib/docker/metadata/base'' \<mapsto> [9]], trace = []\<rparr>"

text \<open>
  A DeviceSet at start-up whose pool is at transaction 3 and whose bitmap has id 5 in use,
  and a world that holds the pending transaction (4, C, 5) and a stray metadata file of C.
\<close>

definition pendingDevices :: DeviceSet where
  "pendingDevices =
     (NewDeviceSet_literal ''/var/lib/docker'')
       \<lparr>devicePrefix := ''docker-8:1-2'', DeviceSet.TransactionId := 3,
        deviceIdMap := (\<lambda>k. 0)(0 := 32)\<rparr>"

definition pendingWorld :: world where
  "pendingWorld =
     \<lparr>files = [''/var/lib/docker/metadata/transaction-metadata'' \<mapsto> [4, 5, 67],
               ''/var/lib/docker/metadata/C'' \<mapsto> [5, 0, 0, 0]],
      trace = []\<rparr>"

text \<open>The same world after the transaction was committed: the pool is at transaction 4.\<close>

definition committedDevices :: DeviceSet where
  "committedDevices = pendingDevices\<lparr>DeviceSet.TransactionId := 4\<rparr>"

text \<open>
  An external thin pool \<open>pool0\<close>, and a platform on which the pool reports the given
  transaction id and number of used data blocks.
\<close>

definition externalDevices :: DeviceSet where
  "externalDevices = (NewDeviceSet_literal ''/var/lib/docker'')\<lparr>thinPoolDevice := ''pool0''\<rparr>"

definition poolReports :: "u64 \<Rightarrow> u64 \<Rightarrow> call list \<Rightarrow> outcome" where
  "poolReports transactionId dataUsed h =
     (case last h of
        DmGetStatus name \<Rightarrow> GotPoolStatus 1000 transactionId dataUsed 100 1 10
      | _ \<Rightarrow> nominalAnswers h)"

text \<open>
  An option whose lower-cased key is \<^verbatim>\<open>dm.blkdiscard\<close>, and the boolean
  \<^verbatim>\<open>strconv.ParseBool\<close> reads from its value.
\<close>

definition isBlkDiscardOption :: "platform \<Rightarrow> string \<Rightarrow> bool" where
  "isBlkDiscardOption P option =
     (case ParseKeyValueOpt P option of
        None \<Rightarrow> False
      | Some (key, val) \<Rightarrow> ToLower P key = ''dm.blkdiscard'')"

definition blkDiscardValue :: "platform \<Rightarrow> string \<Rightarrow> bool option" where
  "blkDiscardValue P option =
     (case ParseKeyValueOpt P option of
        None \<Rightarrow> None
      | Some (key, val) \<Rightarrow> ParseBool P val)"

text \<open>An \<^verbatim>\<open>initDevmapper\<close> that does nothing, for the examples.\<close>

definition noInit :: "DeviceSet \<Rightarrow> bool \<Rightarrow> world \<Rightarrow> error option \<times> DeviceSet \<times> world" where
  "noInit devices doInit w = (None, devices, w)"

text \<open>
  The nominal platform, but the metadata file of the device \<open>C\<close> cannot be removed.
\<close>

definition metadataRemovalFails :: "call list \<Rightarrow> outcome" where
  "metadataRemovalFails h =
     (case last h of
        OsRemoveAll name \<Rightarrow>
          if name = ''/var/lib/docker/metadata/C'' then Failure ''permission denied''
          else Success
      | _ \<Rightarrow> nominalAnswers h)"

text \<open>
  The nominal platform, but every transaction file decodes to the pending transaction
  4 of the hash \<open>C\<close> with the device id \<open>2^24\<close>, one more than \<open>MaxDeviceId\<close>.
\<close>

definition decodesLargeId :: platform where
  "decodesLargeId =
     (examplePlatform nominalAnswers)
       \<lparr>jsonUnmarshalTransaction :=
          (\<lambda>bs t. \<lparr>OpenTransactionId = 4, DeviceIdHash = ''C'',
                    Transaction.DeviceId = 16777216\<rparr>)\<rparr>"

text \<open>
  A pool that already holds devices with the given ids, unknown to the bitmap: it answers
  \<open>IdExists\<close> to a create with one of them and \<open>other\<close> to a create with any other id.
\<close>

definition kernelHolds :: "int list \<Rightarrow> outcome \<Rightarrow> call list \<Rightarrow> outcome" where
  "kernelHolds ids other h =
     (case last h of
        DmCreateDevice pool deviceId \<Rightarrow> if deviceId \<in> set ids then IdExists else other
      | DmCreateSnapDevice pool deviceId baseName baseId \<Rightarrow>
          if deviceId \<in> set ids then IdExists else other
      | _ \<Rightarrow> nominalAnswers h)"

text \<open>The DeviceSet of the pending example with its transaction (4, C, 5) open in memory.\<close>

definition openDevices :: DeviceSet where
  "openDevices =
     pendingDevices\<lparr>Transaction :=
       \<lparr>OpenTransactionId = 4, DeviceIdHash = ''C'', Transaction.DeviceId = 5\<rparr>\<rparr>"

section \<open>Paths\<close>

text \<open>\<open>pathClean\<close> and \<open>pathJoin\<close> on the examples of the Go library's own tests.\<close>

lemma pathClean_examples:
  "map pathClean
     [[], ''abc'', ''abc/def'', ''.'', ''..'', ''../..'', ''../../abc'', ''/abc'', ''/'',
      ''abc/'', ''./'', ''../'', ''/abc/'', ''abc//def//ghi'', ''//abc'', ''//abc//'',
      ''abc/./def'', ''/./abc/def'', ''abc/.'', ''abc/def/ghi/../jkl'',
      ''abc/def/../ghi/../jkl'', ''abc/def/..'', ''abc/def/../..'', ''/abc/def/../..'',
      ''abc/def/../../..'', ''/abc/def/../../..'',
      ''abc/def/../../../ghi/jkl/../../../mno'', ''abc/./../def'', ''abc/../../././../def''] =
     [''.'', ''abc'', ''abc/def'', ''.'', ''..'', ''../..'', ''../../abc'', ''/abc'', ''/'',
      ''abc'', ''.'', ''..'', ''/abc'', ''abc/def/ghi'', ''/abc'', ''/abc'',
      ''abc/def'', ''/abc/def'', ''abc'', ''abc/def/jkl'',
      ''abc/jkl'', ''abc'', ''.'', ''/'',
      ''..'', ''/'',
      ''../../mno'', ''def'', ''../../def'']"
  by code_simp

lemma pathJoin_library_examples:
  "pathJoin ''a'' ''b'' = ''a/b''" "pathJoin ''a'' [] = ''a''" "pathJoin [] ''b'' = ''b''"
  "pathJoin ''/'' ''a'' = ''/a''" "pathJoin ''/'' [] = ''/''" "pathJoin ''a/'' ''b'' = ''a/b''"
  "pathJoin ''a/'' [] = ''a''" "pathJoin [] [] = []"
  by code_simp+

text \<open>The paths of the examples.\<close>

lemma pathJoin_examples:
  "pathJoin ''/var/lib/docker'' ''metadata'' = ''/var/lib/docker/metadata''"
  "pathJoin ''/var/lib/docker/metadata'' ''base'' = ''/var/lib/docker/metadata/base''"
  "pathJoin ''/var/lib/docker/metadata'' ''A'' = ''/var/lib/docker/metadata/A''"
  "pathJoin ''/var/lib/docker/metadata'' ''B'' = ''/var/lib/docker/metadata/B''"
  "pathJoin ''/var/lib/docker/metadata'' ''C'' = ''/var/lib/docker/metadata/C''"
  "pathJoin ''/var/lib/docker/metadata'' ''transaction-metadata'' =
     ''/var/lib/docker/metadata/transaction-metadata''"
  "pathJoin ''/var/lib/docker/metadata'' ''deviceset-metadata'' =
     ''/var/lib/docker/metadata/deviceset-metadata''"
  by code_simp+

section \<open>The device-id allocator\<close>

lemma go_quot_nonneg: "0 \<le> a \<Longrightarrow> go_quot a 8 = a div 8"
  by (cases "a = 0") (simp_all add: go_quot_def)

lemma go_rem_nonneg: "0 \<le> a \<Longrightarrow> go_rem a 8 = a mod 8"
  by (simp add: go_rem_def go_quot_nonneg minus_mult_div_eq_mod)

lemma idMapIndex_valid:
  "0 \<le> d \<Longrightarrow> d \<le> MaxDeviceId \<Longrightarrow> idMapIndex d = Inr (nat (d div 8))"
  by (auto simp add: idMapIndex_def go_quot_nonneg DeviceIdMapSz_def MaxDeviceId_def Let_def)

lemma idMask_valid: "0 \<le> d \<Longrightarrow> idMask d = 2 ^ nat (d mod 8)"
  by (simp add: idMask_def go_rem_nonneg Let_def)

lemma byte_and_mask_bit: "n < 8 \<Longrightarrow> ((b::byte) AND 2 ^ n \<noteq> 0) = bit b n"
  by (simp add: and_exp_eq_0_iff_not_bit)

lemma isDeviceIdFree_valid:
  "0 \<le> d \<Longrightarrow> d \<le> MaxDeviceId \<Longrightarrow>
   isDeviceIdFree devices d = Inr (\<not> bit (deviceIdMap devices (nat (d div 8))) (nat (d mod 8)))"
  by (simp add: isDeviceIdFree_def idMapIndex_valid idMask_valid and_exp_eq_0_iff_not_bit Let_def)

lemma markDeviceIdUsed_valid:
  "0 \<le> d \<Longrightarrow> d \<le> MaxDeviceId \<Longrightarrow>
   markDeviceIdUsed devices d =
     Inr (devices\<lparr>deviceIdMap := (deviceIdMap devices)
            (nat (d div 8) := deviceIdMap devices (nat (d div 8)) OR 2 ^ nat (d mod 8))\<rparr>)"
  by (simp add: markDeviceIdUsed_def idMapIndex_valid idMask_valid Let_def)

lemma markDeviceIdFree_valid:
  "0 \<le> d \<Longrightarrow> d \<le> MaxDeviceId \<Longrightarrow>
   markDeviceIdFree devices d =
     Inr (devices\<lparr>deviceIdMap := (deviceIdMap devices)
            (nat (d div 8) := deviceIdMap devices (nat (d div 8)) AND NOT (2 ^ nat (d mod 8)))\<rparr>)"
  by (simp add: markDeviceIdFree_def idMapIndex_valid idMask_valid Let_def)

lemma id_split_eq: "0 \<le> (x::int) \<Longrightarrow> 0 \<le> d \<Longrightarrow> nat (x div 8) = nat (d div 8) \<Longrightarrow> nat (x mod 8) = nat (d mod 8) \<Longrightarrow> x = d"
  by (smt (verit) div_mod_decomp_int nat_eq_iff2 pos_imp_zdiv_nonneg_iff Euclidean_Rings.pos_mod_sign)

lemma isDeviceIdFree_incNextDeviceId [simp]:
  "isDeviceIdFree (incNextDeviceId devices) d = isDeviceIdFree devices d"
  by (simp add: isDeviceIdFree_def incNextDeviceId_def split: sum.splits)

lemma isDeviceIdFree_NextDeviceId_update [simp]:
  "isDeviceIdFree (devices\<lparr>NextDeviceId := c\<rparr>) d = isDeviceIdFree devices d"
  by (simp add: isDeviceIdFree_def split: sum.splits)

lemma NextDeviceId_incNextDeviceId:
  "NextDeviceId (incNextDeviceId devices) = (NextDeviceId devices + 1) mod 2 ^ 24"
proof -
  have "x AND mask 24 = x mod 2 ^ 24" for x :: int
    by (simp only: take_bit_eq_mask [symmetric] take_bit_eq_mod)
  then have "x AND 16777215 = x mod 16777216" for x :: int
    by (simp add: mask_eq_exp_minus_1)
  then show ?thesis
    by (simp add: incNextDeviceId_def MaxDeviceId_def)
qed

lemma mod24_range: "0 \<le> (x::int) mod 2 ^ 24 \<and> x mod 2 ^ 24 \<le> MaxDeviceId"
  by (simp add: MaxDeviceId_def)

lemma isDeviceIdFree_after_mark:
  assumes d: "0 \<le> d" "d \<le> MaxDeviceId" and x: "0 \<le> x" "x \<le> MaxDeviceId"
    and m: "markDeviceIdUsed devices d = Inr devices'"
  shows "isDeviceIdFree devices' x = (if x = d then Inr False else isDeviceIdFree devices x)"
proof -
  have n8: "nat (d mod 8) < 8" "nat (x mod 8) < 8" by simp_all
  from m d have d': "devices' = devices\<lparr>deviceIdMap := (deviceIdMap devices)
            (nat (d div 8) := deviceIdMap devices (nat (d div 8)) OR 2 ^ nat (d mod 8))\<rparr>"
    by (simp add: markDeviceIdUsed_valid)
  show ?thesis
  proof (cases "x = d")
    case True
    then show ?thesis using d n8
      by (simp add: isDeviceIdFree_valid d' bit_or_iff bit_exp_iff)
  next
    case False
    then have "nat (x div 8) \<noteq> nat (d div 8) \<or> nat (x mod 8) \<noteq> nat (d mod 8)"
      using id_split_eq [OF x(1) d(1)] by blast
    then show ?thesis using False d x n8
      by (auto simp add: isDeviceIdFree_valid d' bit_or_iff bit_exp_iff)
  qed
qed

declare getNextFreeDeviceId_loop.simps [simp del]

lemma getNextFreeDeviceId_loop_found:
  assumes "NextDeviceId devices = c" "0 \<le> c" "c \<le> MaxDeviceId"
    and "i + int n \<le> MaxDeviceId"
    and "\<forall>j<n. isDeviceIdFree devices ((c + int j) mod 2 ^ 24) = Inr False"
    and "isDeviceIdFree devices ((c + int n) mod 2 ^ 24) = Inr True"
  shows "\<exists>devices'. getNextFreeDeviceId_loop i devices = (Inr ((c + int n) mod 2 ^ 24), devices') \<and>
           markDeviceIdUsed (devices\<lparr>NextDeviceId := (c + int n) mod 2 ^ 24\<rparr>) ((c + int n) mod 2 ^ 24) = Inr devices'"
  using assms
proof (induction n arbitrary: i devices c)
  case 0
  have c: "c mod 16777216 = c" using 0 by (simp add: MaxDeviceId_def)
  have self: "devices\<lparr>NextDeviceId := c\<rparr> = devices" using 0 by simp
  obtain d' where d': "markDeviceIdUsed devices c = Inr d'"
    using 0 by (simp add: markDeviceIdUsed_valid)
  then have "NextDeviceId d' = c" using 0
    by (auto simp add: markDeviceIdUsed_def Let_def split: sum.splits)
  have l: "getNextFreeDeviceId_loop i devices = (Inr c, d')"
    using 0 d' \<open>NextDeviceId d' = c\<close>
    by (subst getNextFreeDeviceId_loop.simps) (simp add: c)
  have m: "markDeviceIdUsed (devices\<lparr>NextDeviceId := c\<rparr>) c = Inr d'"
    using d' by (simp only: self)
  from l m show ?case by (simp add: c)
next
  case (Suc n)
  let ?d = "incNextDeviceId devices"
  let ?c = "(c + 1) mod 2 ^ 24"
  have used: "isDeviceIdFree devices (NextDeviceId devices) = Inr False"
    using Suc.prems(1,2,3,5) by (auto simp add: MaxDeviceId_def dest: spec [of _ 0])
  have shift: "(?c + int j) mod 2 ^ 24 = (c + int (Suc j)) mod 2 ^ 24" for j
    by (simp add: mod_simps add.assoc)
  have 1: "NextDeviceId ?d = ?c" using Suc.prems(1) by (simp add: NextDeviceId_incNextDeviceId)
  have 2: "0 \<le> ?c" "?c \<le> MaxDeviceId" using mod24_range [of "c + 1"] by simp_all
  have 3: "(i + 1) + int n \<le> MaxDeviceId" using Suc.prems(4) by simp
  have 4: "\<forall>j<n. isDeviceIdFree ?d ((?c + int j) mod 2 ^ 24) = Inr False"
    using Suc.prems(5) by (simp only: shift isDeviceIdFree_incNextDeviceId) auto
  have 5: "isDeviceIdFree ?d ((?c + int n) mod 2 ^ 24) = Inr True"
    using Suc.prems(6) by (simp only: shift isDeviceIdFree_incNextDeviceId)
  from Suc.IH [OF 1 2 3 4 5]
  obtain d' where d': "getNextFreeDeviceId_loop (i + 1) ?d = (Inr ((?c + int n) mod 2 ^ 24), d')"
      "markDeviceIdUsed (?d\<lparr>NextDeviceId := (?c + int n) mod 2 ^ 24\<rparr>) ((?c + int n) mod 2 ^ 24) = Inr d'"
    by blast
  have upd: "?d\<lparr>NextDeviceId := x\<rparr> = devices\<lparr>NextDeviceId := x\<rparr>" for x
    by (simp add: incNextDeviceId_def)
  have le: "i \<le> MaxDeviceId" using Suc.prems(4) by simp
  show ?case
    using d' used le
    by (subst getNextFreeDeviceId_loop.simps) (simp only: shift upd, simp)
qed

lemma getNextFreeDeviceId_loop_full:
  assumes "NextDeviceId devices = c" "0 \<le> c" "c \<le> MaxDeviceId"
    and "0 \<le> i" "i + int n = MaxDeviceId + 1"
    and "\<forall>j<n. isDeviceIdFree devices ((c + int j) mod 2 ^ 24) = Inr False"
  shows "getNextFreeDeviceId_loop i devices =
           (Inl NoFreeDeviceId, devices\<lparr>NextDeviceId := (c + int n) mod 2 ^ 24\<rparr>)"
  using assms
proof (induction n arbitrary: i devices c)
  case 0
  have c: "c mod 16777216 = c" using 0 by (simp add: MaxDeviceId_def)
  have self: "devices\<lparr>NextDeviceId := c\<rparr> = devices" using 0 by simp
  from 0 show ?case
    by (subst getNextFreeDeviceId_loop.simps) (simp add: c self)
next
  case (Suc n)
  let ?d = "incNextDeviceId devices"
  let ?c = "(c + 1) mod 2 ^ 24"
  have used: "isDeviceIdFree devices (NextDeviceId devices) = Inr False"
    using Suc.prems(1,2,3,6) by (auto simp add: MaxDeviceId_def dest: spec [of _ 0])
  have shift: "(?c + int j) mod 2 ^ 24 = (c + int (Suc j)) mod 2 ^ 24" for j
    by (simp add: mod_simps add.assoc)
  have 1: "NextDeviceId ?d = ?c" using Suc.prems(1) by (simp add: NextDeviceId_incNextDeviceId)
  have 2: "0 \<le> ?c" "?c \<le> MaxDeviceId" using mod24_range [of "c + 1"] by simp_all
  have 3: "0 \<le> i + 1" "(i + 1) + int n = MaxDeviceId + 1" using Suc.prems(4,5) by simp_all
  have 4: "\<forall>j<n. isDeviceIdFree ?d ((?c + int j) mod 2 ^ 24) = Inr False"
    using Suc.prems(6) by (simp only: shift isDeviceIdFree_incNextDeviceId) auto
  have upd: "?d\<lparr>NextDeviceId := x\<rparr> = devices\<lparr>NextDeviceId := x\<rparr>" for x
    by (simp add: incNextDeviceId_def)
  have le: "i \<le> MaxDeviceId" using Suc.prems(5) by simp
  show ?case
    using Suc.IH [OF 1 2 3 4] used le
    by (subst getNextFreeDeviceId_loop.simps) (simp only: shift upd, simp)
qed
lemma getNextFreeDeviceId_result:
  "(case getNextFreeDeviceId devices of
      (Inr deviceId, devices') \<Rightarrow>
        (\<exists>k<2 ^ 24.
           deviceId = (NextDeviceId devices + 1 + int k) mod 2 ^ 24 \<and>
           (\<forall>j<k. isDeviceIdFree devices ((NextDeviceId devices + 1 + int j) mod 2 ^ 24) = Inr False)) \<and>
        isDeviceIdFree devices deviceId = Inr True \<and>
        markDeviceIdUsed (devices\<lparr>NextDeviceId := deviceId\<rparr>) deviceId = Inr devices'
    | (Inl e, devices') \<Rightarrow>
        e = NoFreeDeviceId \<and>
        (\<forall>x. 0 \<le> x \<and> x \<le> MaxDeviceId \<longrightarrow> isDeviceIdFree devices x = Inr False) \<and>
        devices' = devices\<lparr>NextDeviceId := (NextDeviceId devices + 1) mod 2 ^ 24\<rparr>)"
proof -
  let ?c = "(NextDeviceId devices + 1) mod 2 ^ 24"
  let ?d = "incNextDeviceId devices"
  let ?P = "\<lambda>k. isDeviceIdFree devices ((?c + int k) mod 2 ^ 24) = Inr True"
  have c: "NextDeviceId ?d = ?c" "0 \<le> ?c" "?c \<le> MaxDeviceId"
    using mod24_range [of "NextDeviceId devices + 1"] by (simp_all add: NextDeviceId_incNextDeviceId)
  have pos: "(?c + int j) mod 2 ^ 24 = (NextDeviceId devices + 1 + int j) mod 2 ^ 24" for j
    by (simp add: mod_simps)
  have bool: "isDeviceIdFree devices (y mod 2 ^ 24) \<noteq> Inr True \<Longrightarrow>
              isDeviceIdFree devices (y mod 2 ^ 24) = Inr False" for y
    using mod24_range [of y] by (simp add: isDeviceIdFree_valid)
  show ?thesis
  proof (cases "\<exists>k<2 ^ 24. ?P k")
    case True
    define k where "k = (LEAST k. ?P k)"
    from True obtain k0 where k0: "k0 < 2 ^ 24" "?P k0" by blast
    have Pk: "?P k" unfolding k_def using k0(2) by (rule LeastI)
    have kle: "k \<le> k0" unfolding k_def using k0(2) by (rule Least_le)
    have least: "\<forall>j<k. isDeviceIdFree ?d ((?c + int j) mod 2 ^ 24) = Inr False"
    proof (intro allI impI)
      fix j assume "j < k"
      then have "\<not> ?P j" unfolding k_def by (rule not_less_Least)
      then show "isDeviceIdFree ?d ((?c + int j) mod 2 ^ 24) = Inr False"
        using bool by simp
    qed
    have bound: "0 + int k \<le> MaxDeviceId" using kle k0(1) by (simp add: MaxDeviceId_def)
    have Pk': "isDeviceIdFree ?d ((?c + int k) mod 2 ^ 24) = Inr True" using Pk by simp
    let ?id = "(?c + int k) mod 2 ^ 24"
    from getNextFreeDeviceId_loop_found [OF c bound least Pk']
    obtain d' where d': "getNextFreeDeviceId_loop 0 ?d = (Inr ?id, d')"
      "markDeviceIdUsed (?d\<lparr>NextDeviceId := ?id\<rparr>) ?id = Inr d'" by blast
    have idr: "0 \<le> ?id" "?id \<le> MaxDeviceId" using mod24_range [of "?c + int k"] by simp_all
    have upd: "?d\<lparr>NextDeviceId := x\<rparr> = devices\<lparr>NextDeviceId := x\<rparr>" for x
      by (simp add: incNextDeviceId_def)
    have mark: "markDeviceIdUsed (devices\<lparr>NextDeviceId := ?id\<rparr>) ?id = Inr d'"
      using d'(2) by (simp only: upd)
    have ex: "\<exists>k<2 ^ 24. ?id = (NextDeviceId devices + 1 + int k) mod 2 ^ 24 \<and>
           (\<forall>j<k. isDeviceIdFree devices ((NextDeviceId devices + 1 + int j) mod 2 ^ 24) = Inr False)"
    proof (intro exI [of _ k] conjI)
      show "k < 2 ^ 24" using kle k0(1) by simp
      show "?id = (NextDeviceId devices + 1 + int k) mod 2 ^ 24" by (rule pos)
      show "\<forall>j<k. isDeviceIdFree devices ((NextDeviceId devices + 1 + int j) mod 2 ^ 24) = Inr False"
        using least by (simp only: pos isDeviceIdFree_incNextDeviceId)
    qed
    have r: "getNextFreeDeviceId devices = (Inr ?id, d')"
      using d'(1) by (simp add: getNextFreeDeviceId_def)
    show ?thesis
      unfolding r prod.case sum.case
      using ex Pk mark by (intro conjI) (simp_all del: One_nat_def)
  next
    case False
    then have all: "\<forall>j<2 ^ 24. isDeviceIdFree ?d ((?c + int j) mod 2 ^ 24) = Inr False"
      using bool by simp
    have n: "0 + int (2 ^ 24) = MaxDeviceId + 1" by (simp add: MaxDeviceId_def)
    have r: "getNextFreeDeviceId devices =
        (Inl NoFreeDeviceId, ?d\<lparr>NextDeviceId := (?c + int (2 ^ 24)) mod 2 ^ 24\<rparr>)"
      using getNextFreeDeviceId_loop_full [OF c order_refl n all]
      by (simp add: getNextFreeDeviceId_def)
    have used: "isDeviceIdFree devices x = Inr False" if x: "0 \<le> x" "x \<le> MaxDeviceId" for x
    proof -
      let ?j = "nat ((x - ?c) mod 2 ^ 24)"
      have j: "?j < 2 ^ 24" by (simp add: nat_less_iff)
      have "(?c + int ?j) mod 2 ^ 24 = x mod 2 ^ 24"
        by (simp add: mod_simps)
      also have "\<dots> = x" using x by (simp add: MaxDeviceId_def)
      finally show ?thesis using all j by (metis isDeviceIdFree_incNextDeviceId)
    qed
    have wrap: "(?c + int (2 ^ 24)) mod 2 ^ 24 = ?c" by (simp add: mod_simps)
    have upd: "?d\<lparr>NextDeviceId := x\<rparr> = devices\<lparr>NextDeviceId := x\<rparr>" for x
      by (simp add: incNextDeviceId_def)
    show ?thesis
      unfolding r prod.case sum.case wrap upd
      using used by simp
  qed
qed

lemma getNextFreeDeviceId_Inr:
  assumes "getNextFreeDeviceId devices = (Inr d, devices')"
  shows "0 \<le> d" "d \<le> MaxDeviceId" "isDeviceIdFree devices d = Inr True"
    "markDeviceIdUsed (devices\<lparr>NextDeviceId := d\<rparr>) d = Inr devices'"
proof -
  from getNextFreeDeviceId_result [of devices] assms
  have *: "\<exists>k<2 ^ 24. d = (NextDeviceId devices + 1 + int k) mod 2 ^ 24"
    and rest: "isDeviceIdFree devices d = Inr True"
      "markDeviceIdUsed (devices\<lparr>NextDeviceId := d\<rparr>) d = Inr devices'"
    by auto
  from * obtain k where "d = (NextDeviceId devices + 1 + int k) mod 2 ^ 24" by blast
  then show "0 \<le> d" "d \<le> MaxDeviceId" using mod24_range [of "NextDeviceId devices + 1 + int k"]
    by simp_all
  from rest show "isDeviceIdFree devices d = Inr True"
    "markDeviceIdUsed (devices\<lparr>NextDeviceId := d\<rparr>) d = Inr devices'" by simp_all
qed

lemma getNextFreeDeviceId_Inl:
  assumes "getNextFreeDeviceId devices = (Inl e, devices')"
  shows "e = NoFreeDeviceId"
    "devices' = devices\<lparr>NextDeviceId := (NextDeviceId devices + 1) mod 2 ^ 24\<rparr>"
    "0 \<le> x \<Longrightarrow> x \<le> MaxDeviceId \<Longrightarrow> isDeviceIdFree devices x = Inr False"
  using getNextFreeDeviceId_result [of devices] assms by auto

section \<open>Termination of the retry loops\<close>

text \<open>
  Each round of the retry loop of \<^verbatim>\<open>createRegisterDevice\<close> takes a fresh id from the
  bitmap, so the number of free ids bounds the number of rounds.
\<close>

lemma isDeviceIdFree_same_map:
  "deviceIdMap a = deviceIdMap b \<Longrightarrow> isDeviceIdFree a x = isDeviceIdFree b x"
  by (simp add: isDeviceIdFree_def split: sum.splits)

lemma refreshTransaction_devices:
  "refreshTransaction P devices d w = (r, devices', w') \<Longrightarrow>
   devices' = devices\<lparr>Transaction := (Transaction devices)\<lparr>Transaction.DeviceId := d\<rparr>\<rparr>"
  by (auto simp add: refreshTransaction_def Let_def split: prod.splits option.splits)

lemma free_ids_decrease:
  assumes g: "getNextFreeDeviceId devices = (Inr d, devices1)"
    and m: "deviceIdMap devices2 = deviceIdMap devices1"
  shows "card {x. 0 \<le> x \<and> x \<le> MaxDeviceId \<and> isDeviceIdFree devices2 x = Inr True}
       < card {x. 0 \<le> x \<and> x \<le> MaxDeviceId \<and> isDeviceIdFree devices x = Inr True}"
proof -
  note f = getNextFreeDeviceId_Inr [OF g]
  have frame: "isDeviceIdFree devices2 x = (if x = d then Inr False else isDeviceIdFree devices x)"
    if "0 \<le> x" "x \<le> MaxDeviceId" for x
    using isDeviceIdFree_after_mark [OF f(1,2) that f(4)] isDeviceIdFree_same_map [OF m, of x]
    by simp
  let ?A = "{x. 0 \<le> x \<and> x \<le> MaxDeviceId \<and> isDeviceIdFree devices x = Inr True}"
  let ?B = "{x. 0 \<le> x \<and> x \<le> MaxDeviceId \<and> isDeviceIdFree devices2 x = Inr True}"
  have "?A \<subseteq> {0..MaxDeviceId}" by auto
  then have fin: "finite ?A" by (rule finite_subset) simp
  have sub: "?B \<subseteq> ?A" using frame by (auto split: if_splits)
  have "d \<in> ?A" using f by simp
  moreover have "d \<notin> ?B" using frame [OF f(1,2)] by simp
  ultimately have "?B \<subset> ?A" using sub by blast
  with fin show ?thesis by (rule psubset_card_mono)
qed

termination createRegisterDevice_loop
  apply (relation "measure (\<lambda>(P, devices, deviceId, w).
          card {x. 0 \<le> x \<and> x \<le> MaxDeviceId \<and> isDeviceIdFree devices x = Inr True})")
   apply simp
  apply clarsimp
  apply (drule sym [of "(_, _, _)"])
  apply (drule sym [of "(_, _)"])
  apply (drule refreshTransaction_devices)
  apply (rule free_ids_decrease)
   apply (erule sym)
  apply simp
  done

termination createRegisterSnapDevice_loop
  apply (relation "measure (\<lambda>(P, devices, baseInfo, deviceId, w).
          card {x. 0 \<le> x \<and> x \<le> MaxDeviceId \<and> isDeviceIdFree devices x = Inr True})")
   apply simp
  apply clarsimp
  apply (drule sym [of "(_, _, _)"])
  apply (drule sym [of "(_, _)"])
  apply (drule refreshTransaction_devices)
  apply (rule free_ids_decrease)
   apply (erule sym)
  apply simp
  done

section \<open>Device-id allocation\<close>

text \<open>
  C4. \<^verbatim>\<open>getNextFreeDeviceId\<close>, for every DeviceSet: the scan starts at the cursor
  advanced by one modulo \<open>2^24\<close> and visits at most \<open>2^24\<close> positions. When it
  returns an id, that id is the first position of the scan whose bit was clear (every
  earlier position was in use), its bit is now set, the bits of all other ids are as
  before, and the cursor is the returned id; nothing but the cursor and the bitmap
  changed. When it fails, the error is "no free device id", every id in
  \<open>0 .. MaxDeviceId\<close> was in use, and the bitmap is unchanged.
\<close>

theorem getNextFreeDeviceId_first_free:
  "(case getNextFreeDeviceId devices of
      (Inr deviceId, devices') \<Rightarrow>
        (\<exists>k<2 ^ 24.
           deviceId = (NextDeviceId devices + 1 + int k) mod 2 ^ 24 \<and>
           (\<forall>j<k. isDeviceIdFree devices ((NextDeviceId devices + 1 + int j) mod 2 ^ 24) = Inr False)) \<and>
        isDeviceIdFree devices deviceId = Inr True \<and>
        isDeviceIdFree devices' deviceId = Inr False \<and>
        (\<forall>x. 0 \<le> x \<and> x \<le> MaxDeviceId \<and> x \<noteq> deviceId \<longrightarrow>
           isDeviceIdFree devices' x = isDeviceIdFree devices x) \<and>
        devices' = devices\<lparr>NextDeviceId := deviceId, deviceIdMap := deviceIdMap devices'\<rparr>
    | (Inl e, devices') \<Rightarrow>
        e = NoFreeDeviceId \<and>
        (\<forall>x. 0 \<le> x \<and> x \<le> MaxDeviceId \<longrightarrow> isDeviceIdFree devices x = Inr False) \<and>
        deviceIdMap devices' = deviceIdMap devices)"
proof (cases "getNextFreeDeviceId devices")
  case (Pair r devices')
  show ?thesis
  proof (cases r)
    case (Inl e)
    with Pair getNextFreeDeviceId_Inl [of devices e devices'] show ?thesis by simp
  next
    case (Inr d)
    with Pair have g: "getNextFreeDeviceId devices = (Inr d, devices')" by simp
    note f = getNextFreeDeviceId_Inr [OF g]
    have ex: "\<exists>k<2 ^ 24.
           d = (NextDeviceId devices + 1 + int k) mod 2 ^ 24 \<and>
           (\<forall>j<k. isDeviceIdFree devices ((NextDeviceId devices + 1 + int j) mod 2 ^ 24) = Inr False)"
      using getNextFreeDeviceId_result [of devices] g by simp
    have frame: "isDeviceIdFree devices' x = (if x = d then Inr False else isDeviceIdFree devices x)"
      if "0 \<le> x" "x \<le> MaxDeviceId" for x
      using isDeviceIdFree_after_mark [OF f(1,2) that f(4)] by simp
    have shape: "devices' = devices\<lparr>NextDeviceId := d, deviceIdMap := deviceIdMap devices'\<rparr>"
      using f(4) f(1,2) by (auto simp add: markDeviceIdUsed_valid)
    show ?thesis
      unfolding g prod.case sum.case
      using ex f(3) frame [OF f(1,2)] frame shape by (intro conjI) (simp_all del: One_nat_def)
  qed
qed

lemma getNextFreeDeviceId_literal:
  "\<exists>devices'. getNextFreeDeviceId (NewDeviceSet_literal ''/var/lib/docker'') = (Inr 1, devices')"
  unfolding getNextFreeDeviceId_def
  by (subst getNextFreeDeviceId_loop.simps)
     (simp add: incNextDeviceId_def NewDeviceSet_literal_def isDeviceIdFree_def idMapIndex_def
        idMask_def go_rem_def go_quot_def DeviceIdMapSz_def MaxDeviceId_def markDeviceIdUsed_def)

theorem getNextFreeDeviceId_first_free_witness:
  "fst (getNextFreeDeviceId (NewDeviceSet_literal ''/var/lib/docker'')) = Inr 1 \<and>
   isDeviceIdFree (NewDeviceSet_literal ''/var/lib/docker'') 1 = Inr True \<and>
   isDeviceIdFree (snd (getNextFreeDeviceId (NewDeviceSet_literal ''/var/lib/docker''))) 1 = Inr False \<and>
   NextDeviceId (snd (getNextFreeDeviceId (NewDeviceSet_literal ''/var/lib/docker''))) = 1 \<and>
   isDeviceIdFree (snd (getNextFreeDeviceId (NewDeviceSet_literal ''/var/lib/docker''))) 2 =
     isDeviceIdFree (NewDeviceSet_literal ''/var/lib/docker'') 2"
proof -
  let ?X = "NewDeviceSet_literal ''/var/lib/docker''"
  obtain devices' where e: "getNextFreeDeviceId ?X = (Inr 1, devices')"
    using getNextFreeDeviceId_literal by blast
  note t = getNextFreeDeviceId_first_free [of ?X, unfolded e prod.case sum.case]
  have a: "isDeviceIdFree ?X 1 = Inr True"
    by (rule t [THEN conjunct2, THEN conjunct1])
  have b: "isDeviceIdFree devices' 1 = Inr False"
    by (rule t [THEN conjunct2, THEN conjunct2, THEN conjunct1])
  have "0 \<le> (2::int) \<and> 2 \<le> MaxDeviceId \<and> (2::int) \<noteq> 1" by (simp add: MaxDeviceId_def)
  then have c: "isDeviceIdFree devices' 2 = isDeviceIdFree ?X 2"
    by (rule t [THEN conjunct2, THEN conjunct2, THEN conjunct2, THEN conjunct1, rule_format])
  have "devices' = ?X\<lparr>NextDeviceId := 1, deviceIdMap := deviceIdMap devices'\<rparr>"
    by (rule t [THEN conjunct2, THEN conjunct2, THEN conjunct2, THEN conjunct2])
  then have "NextDeviceId devices' = NextDeviceId (?X\<lparr>NextDeviceId := 1, deviceIdMap := deviceIdMap devices'\<rparr>)"
    by (rule arg_cong)
  then have d: "NextDeviceId devices' = 1" by simp
  show ?thesis unfolding e fst_conv snd_conv using a b c d by blast
qed

section \<open>Mounting and unmounting\<close>

lemma lookupDevice_cached:
  "Devices devices hash = Some info \<Longrightarrow> lookupDevice P devices hash w = (Inr info, devices, w)"
  by (simp add: lookupDevice_def)

text \<open>
  C6. Mount conflict. While the record of the device has a positive mount count,
  \<^verbatim>\<open>MountDevice\<close> at a path other than the recorded one fails with the
  mounted-elsewhere error and returns the DeviceSet and the world it was given (no field
  of any record changes, and no outside call is made); at the recorded path it adds one to
  the mount count, changes nothing else and makes no outside call.
\<close>

theorem MountDevice_already_mounted:
  assumes "Devices devices hash = Some info" and "mountCount info > 0"
  shows "MountDevice P devices hash path mountLabel w =
           (if path \<noteq> mountPath info
            then (Some (MountedElsewhere (mountPath info) path), devices, w)
            else (None,
                  devices\<lparr>Devices := (Devices devices)
                    (hash \<mapsto> info\<lparr>mountCount := mountCount info + 1\<rparr>)\<rparr>,
                  w))"
  using assms by (simp add: MountDevice_def lookupDevice_cached)

theorem MountDevice_already_mounted_witness:
  "MountDevice (examplePlatform nominalAnswers) exampleDevices ''A'' ''/mnt/y'' [] exampleWorld =
     (Some (MountedElsewhere ''/mnt/x'' ''/mnt/y''), exampleDevices, exampleWorld) \<and>
   MountDevice (examplePlatform nominalAnswers) exampleDevices ''A'' ''/mnt/x'' [] exampleWorld =
     (None, exampleDevices\<lparr>Devices := [''A'' \<mapsto> mountedA\<lparr>mountCount := 2\<rparr>]\<rparr>, exampleWorld)"
proof -
  have d: "Devices exampleDevices ''A'' = Some mountedA"
    by (simp add: exampleDevices_def)
  have m: "mountCount mountedA > 0" "mountPath mountedA = ''/mnt/x''" "mountCount mountedA + 1 = 2"
    by (simp_all add: mountedA_def)
  have u: "(Devices exampleDevices)(''A'' \<mapsto> i) = [''A'' \<mapsto> i]" for i
    by (simp add: exampleDevices_def)
  show ?thesis
    using MountDevice_already_mounted [OF d m(1), of "examplePlatform nominalAnswers" "''/mnt/y''" "[]" exampleWorld]
      MountDevice_already_mounted [OF d m(1), of "examplePlatform nominalAnswers" "''/mnt/x''" "[]" exampleWorld]
    by (simp add: m u)
qed

text \<open>
  C10. \<^verbatim>\<open>UnmountDevice\<close> on a device whose mount count is 1: when the call returns an
  error (the error of the kernel unmount, or of the deactivation that follows a successful
  unmount), the DeviceSet it leaves differs from the one it was given only in the mount
  count of that record, which is 0; the mount path is still the old path.
\<close>

theorem UnmountDevice_error_keeps_decrement:
  assumes "Devices devices hash = Some info" and "mountCount info = 1"
    and "UnmountDevice P devices hash w = (Some err, devices', w')"
  shows "devices' = devices\<lparr>Devices := (Devices devices)(hash \<mapsto> info\<lparr>mountCount := 0\<rparr>)\<rparr> \<and>
         Devices devices' hash = Some (info\<lparr>mountCount := 0\<rparr>) \<and>
         mountPath (info\<lparr>mountCount := 0\<rparr>) = mountPath info \<and>
         (invoke P (SysUnmount (mountPath info) MNT_DETACH) w = (Some err, w') \<or>
          (\<exists>w2. invoke P (SysUnmount (mountPath info) MNT_DETACH) w = (None, w2) \<and>
                deactivateDevice P devices' (info\<lparr>mountCount := 0\<rparr>) w2 = (Some err, w')))"
  using assms
  by (auto simp add: UnmountDevice_def lookupDevice_cached Let_def
           split: prod.splits option.splits)

lemma UnmountDevice_example_fails:
  "UnmountDevice (examplePlatform unmountFails) exampleDevices ''A'' exampleWorld =
     (Some (External (Failure ''device or resource busy'')),
      exampleDevices\<lparr>Devices := [''A'' \<mapsto> mountedA\<lparr>mountCount := 0\<rparr>]\<rparr>,
      exampleWorld\<lparr>trace := [SysUnmount ''/mnt/x'' MNT_DETACH]\<rparr>)"
  by (simp add: UnmountDevice_def lookupDevice_def exampleDevices_def mountedA_def Let_def
        invoke_def perform_def examplePlatform_def unmountFails_def exampleWorld_def)

theorem UnmountDevice_error_keeps_decrement_witness:
  "fst (UnmountDevice (examplePlatform unmountFails) exampleDevices ''A'' exampleWorld) =
     Some (External (Failure ''device or resource busy'')) \<and>
   Devices (fst (snd (UnmountDevice (examplePlatform unmountFails) exampleDevices ''A'' exampleWorld))) ''A'' =
     Some (mountedA\<lparr>mountCount := 0\<rparr>) \<and>
   mountPath (mountedA\<lparr>mountCount := 0\<rparr>) = ''/mnt/x''"
proof -
  have d: "Devices exampleDevices ''A'' = Some mountedA"
    by (simp add: exampleDevices_def)
  have m: "mountCount mountedA = 1" "mountPath mountedA = ''/mnt/x''"
    by (simp_all add: mountedA_def)
  from UnmountDevice_error_keeps_decrement [OF d m(1) UnmountDevice_example_fails]
  show ?thesis
    unfolding UnmountDevice_example_fails by (simp add: m)
qed

subsection \<open>The calls of the wait loops\<close>

declare removeDeviceAndWait_loop.simps [simp del] waitRemove_loop.simps [simp del]
  waitClose_loop.simps [simp del]

lemma perform_world: "perform P c w = (r, w') \<Longrightarrow> w' = w\<lparr>trace := trace w @ [c]\<rparr>"
  by (auto simp add: perform_def)

lemma invoke_world: "invoke P c w = (r, w') \<Longrightarrow> w' = w\<lparr>trace := trace w @ [c]\<rparr>"
  by (auto simp add: invoke_def perform_def split: if_splits)

lemma GetInfo_world: "GetInfo P name w = (r, w') \<Longrightarrow> w' = w\<lparr>trace := trace w @ [DmGetInfo name]\<rparr>"
  by (auto simp add: GetInfo_def perform_def split: outcome.splits)

lemma removeDeviceAndWait_loop_trace:
  "removeDeviceAndWait_loop P name i w = (r, w') \<Longrightarrow>
   \<exists>cs. w' = w\<lparr>trace := trace w @ cs\<rparr> \<and> set cs \<subseteq> {DmRemoveDevice name}"
proof (induction P name i w rule: removeDeviceAndWait_loop.induct)
  case (1 P devname i w)
  show ?case
  proof (cases "i < 1000")
    case False
    with "1.prems" have "w' = w" by (simp add: removeDeviceAndWait_loop.simps)
    then show ?thesis by (intro exI [of _ "[]"]) simp
  next
    case True
    obtain x w1 where p: "perform P (DmRemoveDevice devname) w = (x, w1)" by force
    note w1 = perform_world [OF p]
    show ?thesis
    proof (cases "x = Success \<or> x \<noteq> DeviceBusy")
      case stop: True
      with "1.prems" True p have "w' = w1"
        by (auto simp add: removeDeviceAndWait_loop.simps split: if_splits)
      with w1 show ?thesis by (intro exI [of _ "[DmRemoveDevice devname]"]) simp
    next
      case go: False
      with "1.prems" True p have "removeDeviceAndWait_loop P devname (i + 1) w1 = (r, w')"
        by (auto simp add: removeDeviceAndWait_loop.simps split: if_splits)
      from "1.IH" [OF True p [symmetric] _ _ this] go
      obtain cs where "w' = w1\<lparr>trace := trace w1 @ cs\<rparr>" "set cs \<subseteq> {DmRemoveDevice devname}"
        by auto
      with w1 show ?thesis
        by (intro exI [of _ "DmRemoveDevice devname # cs"]) simp
    qed
  qed
qed


lemma waitRemove_loop_trace:
  "waitRemove_loop P name i w = (r, w') \<Longrightarrow>
   \<exists>cs. w' = w\<lparr>trace := trace w @ cs\<rparr> \<and> set cs \<subseteq> {DmGetInfo name}"
proof (induction P name i w rule: waitRemove_loop.induct)
  case (1 P devname i w)
  show ?case
  proof (cases "i < 1000")
    case False
    with "1.prems" have "w' = w" by (simp add: waitRemove_loop.simps)
    then show ?thesis by (intro exI [of _ "[]"]) simp
  next
    case True
    obtain x w1 where p: "GetInfo P devname w = (x, w1)" by force
    note w1 = GetInfo_world [OF p]
    show ?thesis
    proof (cases "\<exists>oc. x = Inr (0, oc) \<or> (\<exists>e. x = Inl e)")
      case stop: True
      with "1.prems" True p have "w' = w1"
        by (auto simp add: waitRemove_loop.simps split: if_splits)
      with w1 show ?thesis by (intro exI [of _ "[DmGetInfo devname]"]) simp
    next
      case go: False
      then obtain ex oc where x: "x = Inr (ex, oc)" "ex \<noteq> 0"
        by (cases x) auto
      with "1.prems" True p have "waitRemove_loop P devname (i + 1) w1 = (r, w')"
        by (auto simp add: waitRemove_loop.simps split: if_splits)
      from "1.IH" [OF True p [symmetric] x(1) refl x(2) this]
      obtain cs where "w' = w1\<lparr>trace := trace w1 @ cs\<rparr>" "set cs \<subseteq> {DmGetInfo devname}"
        by auto
      with w1 show ?thesis
        by (intro exI [of _ "DmGetInfo devname # cs"]) simp
    qed
  qed
qed

lemma waitClose_loop_trace:
  "waitClose_loop P devices info i w = (r, w') \<Longrightarrow>
   \<exists>cs. w' = w\<lparr>trace := trace w @ cs\<rparr> \<and> set cs \<subseteq> {DmGetInfo (Name devices info)}"
proof (induction P devices info i w rule: waitClose_loop.induct)
  case (1 P devices info i w)
  show ?case
  proof (cases "i < 1000")
    case False
    with "1.prems" have "w' = w" by (simp add: waitClose_loop.simps)
    then show ?thesis by (intro exI [of _ "[]"]) simp
  next
    case True
    obtain x w1 where p: "GetInfo P (Name devices info) w = (x, w1)" by force
    note w1 = GetInfo_world [OF p]
    show ?thesis
    proof (cases "\<exists>ex. x = Inr (ex, 0) \<or> (\<exists>e. x = Inl e)")
      case stop: True
      with "1.prems" True p have "w' = w1"
        by (auto simp add: waitClose_loop.simps split: if_splits)
      with w1 show ?thesis by (intro exI [of _ "[DmGetInfo (Name devices info)]"]) simp
    next
      case go: False
      then obtain ex oc where x: "x = Inr (ex, oc)" "oc \<noteq> 0"
        by (cases x) auto
      with "1.prems" True p have "waitClose_loop P devices info (i + 1) w1 = (r, w')"
        by (auto simp add: waitClose_loop.simps split: if_splits)
      from "1.IH" [OF True p [symmetric] x(1) refl x(2) this]
      obtain cs where "w' = w1\<lparr>trace := trace w1 @ cs\<rparr>"
        "set cs \<subseteq> {DmGetInfo (Name devices info)}"
        by auto
      with w1 show ?thesis
        by (intro exI [of _ "DmGetInfo (Name devices info) # cs"]) simp
    qed
  qed
qed

lemma removeDeviceAndWait_trace:
  assumes "removeDeviceAndWait P name w = (r, w')"
  shows "\<exists>cs. w' = w\<lparr>trace := trace w @ cs\<rparr> \<and> set cs \<subseteq> {DmGetInfo name, DmRemoveDevice name}"
proof -
  obtain r1 w1 where l: "removeDeviceAndWait_loop P name 0 w = (r1, w1)" by force
  from removeDeviceAndWait_loop_trace [OF l]
  obtain cs1 where 1: "w1 = w\<lparr>trace := trace w @ cs1\<rparr>" "set cs1 \<subseteq> {DmRemoveDevice name}"
    by blast
  show ?thesis
  proof (cases r1)
    case (Some e)
    with assms l have "w' = w1" by (simp add: removeDeviceAndWait_def)
    with 1 show ?thesis by (intro exI [of _ cs1]) auto
  next
    case None
    obtain r2 w2 where m: "waitRemove_loop P name 0 w1 = (r2, w2)" by force
    from waitRemove_loop_trace [OF m]
    obtain cs2 where 2: "w2 = w1\<lparr>trace := trace w1 @ cs2\<rparr>" "set cs2 \<subseteq> {DmGetInfo name}"
      by blast
    from assms l None m have "w' = w2"
      by (auto simp add: removeDeviceAndWait_def waitRemove_def split: option.splits)
    with 1 2 show ?thesis by (intro exI [of _ "cs1 @ cs2"]) auto
  qed
qed

lemma deactivateDevice_trace:
  assumes "deactivateDevice P devices info w = (r, w')"
  shows "\<exists>cs. w' = w\<lparr>trace := trace w @ cs\<rparr> \<and>
              set cs \<subseteq> {DmGetInfo (Name devices info), DmRemoveDevice (Name devices info)}"
proof -
  let ?n = "Name devices info"
  obtain r1 w1 where c: "waitClose_loop P devices info 0 w = (r1, w1)" by force
  from waitClose_loop_trace [OF c]
  obtain cs1 where 1: "w1 = w\<lparr>trace := trace w @ cs1\<rparr>" "set cs1 \<subseteq> {DmGetInfo ?n}" by blast
  obtain x w2 where g: "GetInfo P ?n w1 = (x, w2)" by force
  note 2 = GetInfo_world [OF g]
  show ?thesis
  proof (cases "\<exists>ex oc. x = Inr (ex, oc) \<and> ex \<noteq> 0")
    case False
    with assms c g have "w' = w2"
      by (auto simp add: deactivateDevice_def waitClose_def split: sum.splits)
    with 1 2 show ?thesis by (intro exI [of _ "cs1 @ [DmGetInfo ?n]"]) auto
  next
    case True
    obtain r3 w3 where m: "removeDeviceAndWait P ?n w2 = (r3, w3)" by force
    from removeDeviceAndWait_trace [OF m]
    obtain cs3 where 3: "w3 = w2\<lparr>trace := trace w2 @ cs3\<rparr>"
      "set cs3 \<subseteq> {DmGetInfo ?n, DmRemoveDevice ?n}" by blast
    from assms c g True m have "w' = w3"
      by (auto simp add: deactivateDevice_def waitClose_def split: sum.splits option.splits)
    with 1 2 3 show ?thesis by (intro exI [of _ "cs1 @ [DmGetInfo ?n] @ cs3"]) auto
  qed
qed

subsection \<open>Matched mounts and unmounts\<close>

lemma lookupDevice_loaded:
  assumes "lookupDevice P devices hash w = (Inr info, devices', w')" "Devices devices hash = None"
  shows "devices' = devices\<lparr>Devices := (Devices devices)(hash \<mapsto> info)\<rparr>"
    "mountCount info = 0" "mountPath info = []" "Hash info = hash"
  using assms
  by (auto simp add: lookupDevice_def loadMetadata_def Let_def newDevInfo_def
           split: prod.splits option.splits sum.splits)

lemma MountDevice_mounted:
  assumes "Devices devices hash = Some info" and "mountCount info > 0"
  shows "MountDevice P devices hash path mountLabel w =
           (if path \<noteq> mountPath info
            then (Some (MountedElsewhere (mountPath info) path), devices, w)
            else (None,
                  devices\<lparr>Devices := (Devices devices)
                    (hash \<mapsto> info\<lparr>mountCount := mountCount info + 1\<rparr>)\<rparr>,
                  w))"
  using assms by (simp add: MountDevice_def lookupDevice_cached)

lemma MountDevice_unmounted:
  assumes m: "MountDevice P devices hash path mountLabel w = (None, devices1, w1)"
    and u: "(case Devices devices hash of None \<Rightarrow> 0 | Some info \<Rightarrow> mountCount info) = 0"
  shows "\<exists>info. Devices devices1 hash = Some info \<and> mountCount info = 1 \<and> mountPath info = path"
proof (cases "Devices devices hash")
  case (Some i)
  with u have "mountCount i = 0" by simp
  with m Some show ?thesis
    by (auto simp add: MountDevice_def lookupDevice_cached Let_def
             split: prod.splits option.splits sum.splits if_splits)
next
  case None
  obtain x d' w' where l: "lookupDevice P devices hash w = (x, d', w')"
    by (cases "lookupDevice P devices hash w") auto
  show ?thesis
  proof (cases x)
    case (Inl e)
    with m l show ?thesis by (simp add: MountDevice_def)
  next
    case (Inr i)
    with l lookupDevice_loaded [of P devices hash w i d' w'] None
    have "mountCount i = 0" by simp
    with m l Inr show ?thesis
      by (auto simp add: MountDevice_def Let_def
               split: prod.splits option.splits sum.splits if_splits)
  qed
qed

lemma repeated_MountDevice:
  assumes "Devices devices hash = Some info" "mountCount info > 0" "mountPath info = path"
  shows "repeated n (\<lambda>d. MountDevice P d hash path mountLabel) devices w =
           (None,
            devices\<lparr>Devices := (Devices devices)
              (hash \<mapsto> info\<lparr>mountCount := mountCount info + int n\<rparr>)\<rparr>,
            w)"
  using assms
proof (induction n arbitrary: devices info)
  case 0
  then have "(Devices devices)(hash \<mapsto> info) = Devices devices" by (simp add: map_upd_triv)
  then show ?case by simp
next
  case (Suc n)
  let ?i = "info\<lparr>mountCount := mountCount info + 1\<rparr>"
  let ?d = "devices\<lparr>Devices := (Devices devices)(hash \<mapsto> ?i)\<rparr>"
  have step: "MountDevice P devices hash path mountLabel w = (None, ?d, w)"
    using MountDevice_mounted [OF Suc.prems(1,2)] Suc.prems(3) by simp
  have "repeated n (\<lambda>d. MountDevice P d hash path mountLabel) ?d w =
          (None, ?d\<lparr>Devices := (Devices ?d)(hash \<mapsto> ?i\<lparr>mountCount := mountCount ?i + int n\<rparr>)\<rparr>, w)"
    using Suc.prems by (intro Suc.IH) simp_all
  then have ih: "repeated n (\<lambda>d. MountDevice P d hash path mountLabel) ?d w =
          (None, devices\<lparr>Devices := (Devices devices)
             (hash \<mapsto> info\<lparr>mountCount := mountCount info + int (Suc n)\<rparr>)\<rparr>, w)"
    by (simp add: add.assoc)
  show ?case by (simp only: repeated.simps step ih prod.case option.case)
qed

lemma UnmountDevice_counted:
  assumes "Devices devices hash = Some info" "mountCount info > 1"
  shows "UnmountDevice P devices hash w =
           (None,
            devices\<lparr>Devices := (Devices devices)
              (hash \<mapsto> info\<lparr>mountCount := mountCount info - 1\<rparr>)\<rparr>,
            w)"
  using assms by (simp add: UnmountDevice_def lookupDevice_cached Let_def)

lemma repeated_UnmountDevice:
  assumes "Devices devices hash = Some info" "mountCount info = 1 + int n"
  shows "repeated n (\<lambda>d. UnmountDevice P d hash) devices w =
           (None,
            devices\<lparr>Devices := (Devices devices)(hash \<mapsto> info\<lparr>mountCount := 1\<rparr>)\<rparr>,
            w)"
  using assms
proof (induction n arbitrary: devices info)
  case 0
  then have "info\<lparr>mountCount := 1\<rparr> = info" by simp
  moreover from 0 have "(Devices devices)(hash \<mapsto> info) = Devices devices"
    by (simp add: map_upd_triv)
  ultimately show ?case by simp
next
  case (Suc n)
  let ?i = "info\<lparr>mountCount := mountCount info - 1\<rparr>"
  let ?d = "devices\<lparr>Devices := (Devices devices)(hash \<mapsto> ?i)\<rparr>"
  have step: "UnmountDevice P devices hash w = (None, ?d, w)"
    using Suc.prems by (intro UnmountDevice_counted) simp_all
  have "repeated n (\<lambda>d. UnmountDevice P d hash) ?d w =
          (None, ?d\<lparr>Devices := (Devices ?d)(hash \<mapsto> ?i\<lparr>mountCount := 1\<rparr>)\<rparr>, w)"
    using Suc.prems by (intro Suc.IH) simp_all
  then have ih: "repeated n (\<lambda>d. UnmountDevice P d hash) ?d w =
          (None, devices\<lparr>Devices := (Devices devices)(hash \<mapsto> info\<lparr>mountCount := 1\<rparr>)\<rparr>, w)"
    by simp
  show ?case by (simp only: repeated.simps step ih prod.case option.case)
qed

lemma UnmountDevice_last:
  assumes "Devices devices hash = Some info" "mountCount info = 1"
    and "UnmountDevice P devices hash w = (None, devices', w')"
  shows "devices' = devices\<lparr>Devices := (Devices devices)
                      (hash \<mapsto> info\<lparr>mountCount := 0, mountPath := []\<rparr>)\<rparr>"
    "\<exists>wa. invoke P (SysUnmount (mountPath info) MNT_DETACH) w = (None, wa) \<and>
          deactivateDevice P
            (devices\<lparr>Devices := (Devices devices)(hash \<mapsto> info\<lparr>mountCount := 0\<rparr>)\<rparr>)
            (info\<lparr>mountCount := 0\<rparr>) wa = (None, w')"
  using assms
  by (auto simp add: UnmountDevice_def lookupDevice_cached Let_def
           split: prod.splits option.splits)

lemma UnmountDevice_not_mounted:
  assumes "Devices devices hash = Some info" "mountCount info = 0"
  shows "UnmountDevice P devices hash w = (Some (NotMounted hash), devices, w)"
  using assms by (simp add: UnmountDevice_def lookupDevice_cached)

lemma Name_Devices_update [simp]: "Name (devices\<lparr>Devices := m\<rparr>) info = Name devices info"
  by (simp add: Name_def)

lemma Name_mountCount_update [simp]: "Name devices (info\<lparr>mountCount := k\<rparr>) = Name devices info"
  by (simp add: Name_def)

text \<open>
  C5. Mount refcount protocol. Start from a device whose mount count is 0 (or that is not
  in the registry yet) and let the first \<^verbatim>\<open>MountDevice\<close> at \<open>path\<close> succeed. Then the
  record has count 1 and that path, and for every \<open>n\<close>: \<open>n\<close> further
  \<^verbatim>\<open>MountDevice\<close> calls at the same path succeed, raise the count to \<open>1 + n\<close> and leave
  the world as it is (no outside call); the first \<open>n\<close> \<^verbatim>\<open>UnmountDevice\<close> calls succeed,
  bring the count back to 1 and leave the world as it is; and when the last
  \<^verbatim>\<open>UnmountDevice\<close> succeeds, it has made the one kernel unmount with
  \<^verbatim>\<open>MNT_DETACH\<close> followed by one run of \<^verbatim>\<open>deactivateDevice\<close> (whose calls are the
  device's \<^verbatim>\<open>GetInfo\<close> and \<^verbatim>\<open>RemoveDevice\<close> only), the count is 0, the mount path
  is empty, and a further \<^verbatim>\<open>UnmountDevice\<close> fails with the not-mounted error and
  changes nothing.
\<close>

theorem mount_refcount_protocol:
  assumes first: "MountDevice P devices hash path mountLabel w = (None, devices1, w1)"
    and unmounted: "(case Devices devices hash of None \<Rightarrow> 0 | Some info \<Rightarrow> mountCount info) = 0"
  shows "\<exists>info.
     Devices devices1 hash = Some info \<and> mountCount info = 1 \<and> mountPath info = path \<and>
     repeated n (\<lambda>d. MountDevice P d hash path mountLabel) devices1 w1 =
       (None,
        devices1\<lparr>Devices := (Devices devices1)(hash \<mapsto> info\<lparr>mountCount := 1 + int n\<rparr>)\<rparr>,
        w1) \<and>
     repeated n (\<lambda>d. UnmountDevice P d hash)
       (devices1\<lparr>Devices := (Devices devices1)(hash \<mapsto> info\<lparr>mountCount := 1 + int n\<rparr>)\<rparr>) w1 =
       (None, devices1, w1) \<and>
     (\<forall>devices2 w2. UnmountDevice P devices1 hash w1 = (None, devices2, w2) \<longrightarrow>
        devices2 = devices1\<lparr>Devices := (Devices devices1)
                      (hash \<mapsto> info\<lparr>mountCount := 0, mountPath := []\<rparr>)\<rparr> \<and>
        (\<exists>wa. invoke P (SysUnmount path MNT_DETACH) w1 = (None, wa) \<and>
              deactivateDevice P
                (devices1\<lparr>Devices := (Devices devices1)(hash \<mapsto> info\<lparr>mountCount := 0\<rparr>)\<rparr>)
                (info\<lparr>mountCount := 0\<rparr>) wa = (None, w2)) \<and>
        (\<exists>cs. trace w2 = trace w1 @ SysUnmount path MNT_DETACH # cs \<and>
              set cs \<subseteq> {DmGetInfo (Name devices1 info), DmRemoveDevice (Name devices1 info)}) \<and>
        files w2 = files w1 \<and>
        UnmountDevice P devices2 hash w2 = (Some (NotMounted hash), devices2, w2))"
proof -
  from MountDevice_unmounted [OF first unmounted]
  obtain info where i: "Devices devices1 hash = Some info" "mountCount info = 1" "mountPath info = path"
    by blast
  let ?dn = "devices1\<lparr>Devices := (Devices devices1)(hash \<mapsto> info\<lparr>mountCount := 1 + int n\<rparr>)\<rparr>"
  have mounts: "repeated n (\<lambda>d. MountDevice P d hash path mountLabel) devices1 w1 = (None, ?dn, w1)"
    using repeated_MountDevice [OF i(1) _ i(3), of n P mountLabel w1] i(2) by simp
  have "repeated n (\<lambda>d. UnmountDevice P d hash) ?dn w1 =
          (None, ?dn\<lparr>Devices := (Devices ?dn)(hash \<mapsto> (info\<lparr>mountCount := 1 + int n\<rparr>)\<lparr>mountCount := 1\<rparr>)\<rparr>, w1)"
    by (rule repeated_UnmountDevice) simp_all
  moreover have "info\<lparr>mountCount := 1\<rparr> = info" using i(2) by simp
  moreover have "(Devices devices1)(hash \<mapsto> info) = Devices devices1"
    using i(1) by (simp add: map_upd_triv)
  ultimately have unmounts: "repeated n (\<lambda>d. UnmountDevice P d hash) ?dn w1 = (None, devices1, w1)"
    by simp
  have last: "devices2 = devices1\<lparr>Devices := (Devices devices1)
                      (hash \<mapsto> info\<lparr>mountCount := 0, mountPath := []\<rparr>)\<rparr> \<and>
        (\<exists>wa. invoke P (SysUnmount path MNT_DETACH) w1 = (None, wa) \<and>
              deactivateDevice P
                (devices1\<lparr>Devices := (Devices devices1)(hash \<mapsto> info\<lparr>mountCount := 0\<rparr>)\<rparr>)
                (info\<lparr>mountCount := 0\<rparr>) wa = (None, w2)) \<and>
        (\<exists>cs. trace w2 = trace w1 @ SysUnmount path MNT_DETACH # cs \<and>
              set cs \<subseteq> {DmGetInfo (Name devices1 info), DmRemoveDevice (Name devices1 info)}) \<and>
        files w2 = files w1 \<and>
        UnmountDevice P devices2 hash w2 = (Some (NotMounted hash), devices2, w2)"
    if u: "UnmountDevice P devices1 hash w1 = (None, devices2, w2)" for devices2 w2
  proof -
    note l = UnmountDevice_last [OF i(1,2) u]
    from l(2) i(3) obtain wa where wa: "invoke P (SysUnmount path MNT_DETACH) w1 = (None, wa)"
      "deactivateDevice P
         (devices1\<lparr>Devices := (Devices devices1)(hash \<mapsto> info\<lparr>mountCount := 0\<rparr>)\<rparr>)
         (info\<lparr>mountCount := 0\<rparr>) wa = (None, w2)" by auto
    from deactivateDevice_trace [OF wa(2)] obtain cs where
      cs: "w2 = wa\<lparr>trace := trace wa @ cs\<rparr>"
        "set cs \<subseteq> {DmGetInfo (Name devices1 info), DmRemoveDevice (Name devices1 info)}"
      by auto
    have tr: "trace w2 = trace w1 @ SysUnmount path MNT_DETACH # cs" "files w2 = files w1"
      using cs(1) invoke_world [OF wa(1)] by simp_all
    have "UnmountDevice P devices2 hash w2 = (Some (NotMounted hash), devices2, w2)"
      by (rule UnmountDevice_not_mounted [where info = "info\<lparr>mountCount := 0, mountPath := []\<rparr>"])
         (simp_all add: l(1))
    with l(1) wa tr cs(2) show ?thesis by blast
  qed
  from i mounts unmounts last show ?thesis by blast
qed

lemma MountDevice_example:
  "MountDevice (examplePlatform nominalAnswers) unmountedDevices ''A'' ''/mnt/x'' [] exampleWorld =
     (None, exampleDevices, afterMount)"
  by (simp add: MountDevice_def lookupDevice_def unmountedDevices_def exampleDevices_def
        mountedA_def newDevInfo_def activateDeviceIfNeeded_def GetInfo_def perform_def
        examplePlatform_def nominalAnswers_def exampleWorld_def Name_def DevName_def
        getDevName_def ProbeFsType_def NewDeviceSet_literal_def Let_def afterMount_def)

lemma UnmountDevice_example:
  "UnmountDevice (examplePlatform nominalAnswers) exampleDevices ''A'' afterMount =
     (None,
      exampleDevices\<lparr>Devices := [''A'' \<mapsto> mountedA\<lparr>mountCount := 0, mountPath := []\<rparr>]\<rparr>,
      afterMount\<lparr>trace := trace afterMount @
        [SysUnmount ''/mnt/x'' MNT_DETACH,
         DmGetInfo ''docker-8:1-2-A'', DmGetInfo ''docker-8:1-2-A'',
         DmRemoveDevice ''docker-8:1-2-A'', DmGetInfo ''docker-8:1-2-A'']\<rparr>)"
  by (simp add: UnmountDevice_def lookupDevice_def exampleDevices_def
        mountedA_def newDevInfo_def GetInfo_def perform_def invoke_def
        examplePlatform_def nominalAnswers_def exampleWorld_def Name_def
        NewDeviceSet_literal_def Let_def afterMount_def deactivateDevice_def
        waitClose_def waitClose_loop.simps [of _ _ _ 0] removeDeviceAndWait_def
        removeDeviceAndWait_loop.simps [of _ _ 0] waitRemove_def waitRemove_loop.simps [of _ _ 0])


theorem mount_refcount_protocol_witness:
  "MountDevice (examplePlatform nominalAnswers) unmountedDevices ''A'' ''/mnt/x'' [] exampleWorld =
     (None, exampleDevices, afterMount) \<and>
   repeated 2 (\<lambda>d. MountDevice (examplePlatform nominalAnswers) d ''A'' ''/mnt/x'' [])
     exampleDevices afterMount =
     (None, exampleDevices\<lparr>Devices := [''A'' \<mapsto> mountedA\<lparr>mountCount := 3\<rparr>]\<rparr>, afterMount) \<and>
   repeated 2 (\<lambda>d. UnmountDevice (examplePlatform nominalAnswers) d ''A'')
     (exampleDevices\<lparr>Devices := [''A'' \<mapsto> mountedA\<lparr>mountCount := 3\<rparr>]\<rparr>) afterMount =
     (None, exampleDevices, afterMount) \<and>
   UnmountDevice (examplePlatform nominalAnswers) exampleDevices ''A'' afterMount =
     (None, unmountedDevices, afterUnmount) \<and>
   UnmountDevice (examplePlatform nominalAnswers) unmountedDevices ''A'' afterUnmount =
     (Some (NotMounted ''A''), unmountedDevices, afterUnmount)"
proof -
  let ?P = "examplePlatform nominalAnswers"
  have unm: "(case Devices unmountedDevices ''A'' of None \<Rightarrow> 0 | Some info \<Rightarrow> mountCount info) = 0"
    by (simp add: unmountedDevices_def)
  have d: "Devices exampleDevices ''A'' = Some mountedA" by (simp add: exampleDevices_def)
  have upd: "(Devices exampleDevices)(''A'' \<mapsto> i) = [''A'' \<mapsto> i]" for i
    by (simp add: exampleDevices_def)
  have u: "UnmountDevice ?P exampleDevices ''A'' afterMount = (None, unmountedDevices, afterUnmount)"
    using UnmountDevice_example by (simp add: unmountedDevices_def afterUnmount_def)
  from mount_refcount_protocol [OF MountDevice_example unm, of 2]
  obtain info where i: "Devices exampleDevices ''A'' = Some info"
    and m: "repeated 2 (\<lambda>d. MountDevice ?P d ''A'' ''/mnt/x'' []) exampleDevices afterMount =
       (None, exampleDevices\<lparr>Devices := (Devices exampleDevices)(''A'' \<mapsto> info\<lparr>mountCount := 1 + int 2\<rparr>)\<rparr>, afterMount)"
    and n: "repeated 2 (\<lambda>d. UnmountDevice ?P d ''A'')
       (exampleDevices\<lparr>Devices := (Devices exampleDevices)(''A'' \<mapsto> info\<lparr>mountCount := 1 + int 2\<rparr>)\<rparr>) afterMount =
       (None, exampleDevices, afterMount)"
    and l: "\<forall>devices2 w2. UnmountDevice ?P exampleDevices ''A'' afterMount = (None, devices2, w2) \<longrightarrow>
        UnmountDevice ?P devices2 ''A'' w2 = (Some (NotMounted ''A''), devices2, w2)"
    by blast
  from i d have info: "info = mountedA" by simp
  from l u have z: "UnmountDevice ?P unmountedDevices ''A'' afterUnmount =
     (Some (NotMounted ''A''), unmountedDevices, afterUnmount)" by blast
  from m n show ?thesis
    unfolding info upd using MountDevice_example u z by simp
qed

section \<open>Atomic metadata write\<close>

lemma osTempFile_Inr:
  assumes "osTempFile P dir pfx w = (Inr tmp, w1)"
  shows "prefix (dir @ ''/'' @ pfx) tmp" "files w tmp = None"
    "w1 = w\<lparr>trace := trace w @ [OsTempFile dir pfx], files := (files w)(tmp \<mapsto> [])\<rparr>"
  using assms
  by (auto simp add: osTempFile_def perform_def Let_def split: outcome.splits if_splits)

lemma osTempFile_Inl:
  assumes "osTempFile P dir pfx w = (Inl e, w1)"
  shows "w1 = w\<lparr>trace := trace w @ [OsTempFile dir pfx]\<rparr>"
  using assms
  by (auto simp add: osTempFile_def perform_def Let_def split: outcome.splits if_splits)

lemma osWrite_world:
  assumes "osWrite P name bs w = (r, w2)"
  shows "trace w2 = trace w @ [OsWrite name bs]"
    "p \<noteq> name \<Longrightarrow> files w2 p = files w p"
    "r = Inr n \<Longrightarrow> \<not> n < length bs \<Longrightarrow> files w name = Some old \<Longrightarrow> files w2 name = Some (old @ bs)"
  using assms
  by (auto simp add: osWrite_def perform_def appendFile_def split: outcome.splits)

lemma osRename_world:
  assumes "osRename P old new w = (r, w')"
  shows "trace w' = trace w @ [OsRename old new]"
    "r = None \<Longrightarrow> files w' new = files w old"
    "r \<noteq> None \<Longrightarrow> files w' = files w"
  using assms
  by (auto simp add: osRename_def perform_def split: if_splits)

lemma writeMetaFile_result:
  assumes run: "writeMetaFile P devices jsonData filePath w = (r, w')"
    and target: "\<not> prefix (metadataDir devices @ ''/.tmp'') filePath"
  shows "(r = None \<longrightarrow>
            files w' filePath = Some jsonData \<and>
            (\<exists>tmp. prefix (metadataDir devices @ ''/.tmp'') tmp \<and> files w tmp = None \<and>
                   trace w' = trace w @
                     [OsTempFile (metadataDir devices) ''.tmp'', OsWrite tmp jsonData,
                      OsSync tmp, OsClose tmp, OsRename tmp filePath])) \<and>
         (r \<noteq> None \<longrightarrow> files w' filePath = files w filePath) \<and>
         (\<forall>tmp w1 n w2.
            osTempFile P (metadataDir devices) ''.tmp'' w = (Inr tmp, w1) \<and>
            osWrite P tmp jsonData w1 = (Inr n, w2) \<and> n < length jsonData \<longrightarrow>
            r = Some ErrShortWrite \<and> w' = w2)"
proof -
  let ?dir = "metadataDir devices"
  obtain t w1 where tf: "osTempFile P ?dir ''.tmp'' w = (t, w1)" by force
  show ?thesis
  proof (cases t)
    case (Inl e)
    with run tf have "r \<noteq> None" "w' = w1" by (auto simp add: writeMetaFile_def)
    with osTempFile_Inl [of P ?dir "''.tmp''" w e w1] tf Inl show ?thesis by auto
  next
    case (Inr tmp)
    note tmp = osTempFile_Inr [OF tf [unfolded Inr]]
    from tmp(1) target have ne: "filePath \<noteq> tmp" by auto
    have f1: "files w1 filePath = files w filePath" "files w1 tmp = Some []"
      using tmp(3) ne by simp_all
    obtain x w2 where wr: "osWrite P tmp jsonData w1 = (x, w2)" by force
    note w2 = osWrite_world [OF wr]
    have f2: "files w2 filePath = files w filePath" using w2(2) [OF ne] f1 by simp
    show ?thesis
    proof (cases "\<exists>n. x = Inr n \<and> \<not> n < length jsonData")
      case False
      with run tf Inr wr have "r \<noteq> None" "w' = w2"
        "\<And>n. x = Inr n \<Longrightarrow> r = Some ErrShortWrite"
        by (auto simp add: writeMetaFile_def split: sum.splits)
      with f2 tf Inr wr show ?thesis by auto
    next
      case True
      then obtain n where n: "x = Inr n" "\<not> n < length jsonData" by blast
      have c2: "files w2 tmp = Some jsonData" using w2(3) [OF n f1(2)] by simp
      obtain r3 w3 where sy: "invoke P (OsSync tmp) w2 = (r3, w3)" by force
      note w3 = invoke_world [OF sy]
      obtain r4 w4 where cl: "invoke P (OsClose tmp) w3 = (r4, w4)" by force
      note w4 = invoke_world [OF cl]
      obtain r5 w5 where rn: "osRename P tmp filePath w4 = (r5, w5)" by force
      note w5 = osRename_world [OF rn]
      have short: "\<forall>tmp' w1' n' w2'.
            osTempFile P ?dir ''.tmp'' w = (Inr tmp', w1') \<and>
            osWrite P tmp' jsonData w1' = (Inr n', w2') \<and> n' < length jsonData \<longrightarrow>
            r = Some ErrShortWrite \<and> w' = w2'"
        using tf Inr wr n by auto
      consider (sync) "r3 \<noteq> None" | (close) "r3 = None" "r4 \<noteq> None"
        | (rename) "r3 = None" "r4 = None" "r5 \<noteq> None"
        | (ok) "r3 = None" "r4 = None" "r5 = None" by blast
      then show ?thesis
      proof cases
        case sync
        with run tf Inr wr n sy have "r \<noteq> None" "w' = w3"
          by (auto simp add: writeMetaFile_def)
        with f2 w3 short show ?thesis by auto
      next
        case close
        with run tf Inr wr n sy cl have "r \<noteq> None" "w' = w4"
          by (auto simp add: writeMetaFile_def)
        with f2 w3 w4 short show ?thesis by auto
      next
        case rename
        with run tf Inr wr n sy cl rn have "r \<noteq> None" "w' = w5"
          by (auto simp add: writeMetaFile_def)
        with f2 w3 w4 w5(3) rename(3) short show ?thesis by auto
      next
        case ok
        with run tf Inr wr n sy cl rn have res: "r = None" "w' = w5"
          by (auto simp add: writeMetaFile_def)
        have "files w5 filePath = Some jsonData"
          using w5(2) [OF ok(3)] w4 w3 c2 by simp
        moreover have "trace w5 = trace w @
                     [OsTempFile ?dir ''.tmp'', OsWrite tmp jsonData,
                      OsSync tmp, OsClose tmp, OsRename tmp filePath]"
          using w5(1) w4 w3 w2(1) tmp(3) by simp
        ultimately show ?thesis using res tmp(1,2) short by auto
      qed
    qed
  qed
qed

text \<open>
  C3. Atomic metadata write. For a target that is not itself a temporary name of the
  metadata directory: when \<^verbatim>\<open>writeMetaFile\<close> returns nil, the target holds exactly the
  given bytes and the calls it made are, in this order, the creation of a temporary file
  \<^verbatim>\<open>.tmp*\<close> in the metadata directory (a name that did not exist), the write of the
  whole slice to it, its sync, its close and its rename over the target. When it returns
  an error (also the error of the rename), the target has the content it had before, or is
  absent as before. A write that reports fewer bytes than the slice, with a nil error,
  makes it return \<^verbatim>\<open>io.ErrShortWrite\<close> at once.
\<close>

theorem writeMetaFile_atomic:
  assumes "writeMetaFile P devices jsonData filePath w = (r, w')"
    and "\<not> prefix (metadataDir devices @ ''/.tmp'') filePath"
  shows "(r = None \<longrightarrow>
            files w' filePath = Some jsonData \<and>
            (\<exists>tmp. prefix (metadataDir devices @ ''/.tmp'') tmp \<and> files w tmp = None \<and>
                   trace w' = trace w @
                     [OsTempFile (metadataDir devices) ''.tmp'', OsWrite tmp jsonData,
                      OsSync tmp, OsClose tmp, OsRename tmp filePath])) \<and>
         (r \<noteq> None \<longrightarrow> files w' filePath = files w filePath) \<and>
         (\<forall>tmp w1 n w2.
            osTempFile P (metadataDir devices) ''.tmp'' w = (Inr tmp, w1) \<and>
            osWrite P tmp jsonData w1 = (Inr n, w2) \<and> n < length jsonData \<longrightarrow>
            r = Some ErrShortWrite \<and> w' = w2)"
  using assms by (rule writeMetaFile_result)

lemma writeMetaFile_example_ok:
  "\<exists>w'. writeMetaFile (examplePlatform nominalAnswers) exampleDevices [1, 2, 3]
           ''/var/lib/docker/metadata/base'' worldWithBase = (None, w')"
  by (simp add: writeMetaFile_def osTempFile_def osWrite_def osRename_def invoke_def perform_def
        examplePlatform_def nominalAnswers_def worldWithBase_def metadataDir_def pathJoin_examples
        exampleDevices_def NewDeviceSet_literal_def appendFile_def Let_def)

lemma writeMetaFile_example_fails:
  "\<exists>w'. writeMetaFile (examplePlatform syncFails) exampleDevices [1, 2, 3]
           ''/var/lib/docker/metadata/base'' worldWithBase =
         (Some (Wrapped ''Error syncing metadata file'' (External (Failure ''input/output error''))), w')"
  by (simp add: writeMetaFile_def osTempFile_def osWrite_def osRename_def invoke_def perform_def
        examplePlatform_def nominalAnswers_def syncFails_def worldWithBase_def metadataDir_def
        pathJoin_examples exampleDevices_def NewDeviceSet_literal_def appendFile_def Let_def)

theorem writeMetaFile_atomic_witness:
  "fst (writeMetaFile (examplePlatform nominalAnswers) exampleDevices [1, 2, 3]
          ''/var/lib/docker/metadata/base'' worldWithBase) = None \<and>
   files (snd (writeMetaFile (examplePlatform nominalAnswers) exampleDevices [1, 2, 3]
          ''/var/lib/docker/metadata/base'' worldWithBase)) ''/var/lib/docker/metadata/base'' =
     Some [1, 2, 3] \<and>
   fst (writeMetaFile (examplePlatform syncFails) exampleDevices [1, 2, 3]
          ''/var/lib/docker/metadata/base'' worldWithBase) \<noteq> None \<and>
   files (snd (writeMetaFile (examplePlatform syncFails) exampleDevices [1, 2, 3]
          ''/var/lib/docker/metadata/base'' worldWithBase)) ''/var/lib/docker/metadata/base'' =
     Some [9]"
proof -
  have t: "\<not> prefix (metadataDir exampleDevices @ ''/.tmp'') ''/var/lib/docker/metadata/base''"
    by (simp add: metadataDir_def pathJoin_examples exampleDevices_def NewDeviceSet_literal_def)
  have b: "files worldWithBase ''/var/lib/docker/metadata/base'' = Some [9]"
    by (simp add: worldWithBase_def)
  obtain w1 where ok: "writeMetaFile (examplePlatform nominalAnswers) exampleDevices [1, 2, 3]
           ''/var/lib/docker/metadata/base'' worldWithBase = (None, w1)"
    using writeMetaFile_example_ok by blast
  obtain w2 where bad: "writeMetaFile (examplePlatform syncFails) exampleDevices [1, 2, 3]
           ''/var/lib/docker/metadata/base'' worldWithBase =
         (Some (Wrapped ''Error syncing metadata file'' (External (Failure ''input/output error''))), w2)"
    using writeMetaFile_example_fails by blast
  from writeMetaFile_atomic [OF ok t] writeMetaFile_atomic [OF bad t] b
  show ?thesis unfolding ok bad by simp
qed

section \<open>Crash-recovery replay\<close>

lemma inTree_self [simp]: "inTree name name"
  by (simp add: inTree_def)

lemma osRemoveAll_world:
  assumes "osRemoveAll P name w = (r, w')"
  shows "trace w' = trace w @ [OsRemoveAll name]"
    "r = None \<longleftrightarrow> respond P (trace w @ [OsRemoveAll name]) = Success"
    "r = None \<Longrightarrow> files w' = (\<lambda>p. if inTree name p then None else files w p)"
    "r \<noteq> None \<Longrightarrow> files w' name = files w name"
    "\<And>p. \<not> inTree name p \<Longrightarrow> files w' p = files w p"
    "\<And>p. files w p = None \<Longrightarrow> files w' p = None"
  using assms by (auto simp add: osRemoveAll_def perform_def split: if_splits)

lemma osReadFile_world:
  assumes "osReadFile P name w = (r, w')"
  shows "w' = w\<lparr>trace := trace w @ [OsReadFile name]\<rparr>"
  using assms by (auto simp add: osReadFile_def perform_def split: if_splits option.splits)

lemma loadTransactionMetaData_frame:
  assumes "loadTransactionMetaData P devices w = (r, devices1, w1)"
  shows "w1 = w\<lparr>trace := trace w @ [OsReadFile (transactionMetaFile devices)]\<rparr>"
    "devices1 = devices\<lparr>Transaction := Transaction devices1\<rparr>"
proof -
  obtain x wx where rd: "osReadFile P (transactionMetaFile devices) w = (x, wx)" by force
  note wx = osReadFile_world [OF rd]
  from assms rd have "w1 = wx" "devices1 = devices\<lparr>Transaction := Transaction devices1\<rparr>"
    by (auto simp add: loadTransactionMetaData_def split: sum.splits if_splits)
  with wx show "w1 = w\<lparr>trace := trace w @ [OsReadFile (transactionMetaFile devices)]\<rparr>"
    "devices1 = devices\<lparr>Transaction := Transaction devices1\<rparr>" by simp_all
qed

lemma isDeviceIdFree_after_free:
  assumes d: "0 \<le> d" "d \<le> MaxDeviceId" and x: "0 \<le> x" "x \<le> MaxDeviceId"
    and m: "markDeviceIdFree devices d = Inr devices'"
  shows "isDeviceIdFree devices' x = (if x = d then Inr True else isDeviceIdFree devices x)"
proof -
  have n8: "nat (d mod 8) < 8" "nat (x mod 8) < 8" by simp_all
  from m d have d': "devices' = devices\<lparr>deviceIdMap := (deviceIdMap devices)
            (nat (d div 8) := deviceIdMap devices (nat (d div 8)) AND NOT (2 ^ nat (d mod 8)))\<rparr>"
    by (simp add: markDeviceIdFree_valid)
  show ?thesis
  proof (cases "x = d")
    case True
    then show ?thesis using d n8
      by (simp add: isDeviceIdFree_valid d' bit_and_iff bit_not_iff bit_exp_iff)
  next
    case False
    then have "nat (x div 8) \<noteq> nat (d div 8) \<or> nat (x mod 8) \<noteq> nat (d mod 8)"
      using id_split_eq [OF x(1) d(1)] by blast
    then show ?thesis using False d x n8
      by (auto simp add: isDeviceIdFree_valid d' bit_and_iff bit_not_iff bit_exp_iff)
  qed
qed

lemma markDeviceIdFree_frame:
  "markDeviceIdFree devices d = Inr devices' \<Longrightarrow>
   devices' = devices\<lparr>deviceIdMap := deviceIdMap devices'\<rparr>"
  by (auto simp add: markDeviceIdFree_def Let_def split: sum.splits)

text \<open>
  Outside \<open>0 .. MaxDeviceId\<close>: the slice access of \<^verbatim>\<open>markDeviceIdFree\<close> panics when
  \<^verbatim>\<open>deviceId/8\<close> is not an index of the bitmap; for the ids \<open>-7 .. -1\<close> the index is 0
  and the mask has no bit, so the bitmap stays as it is.
\<close>

lemma markDeviceIdFree_panics:
  assumes "d \<le> - 8 \<or> MaxDeviceId < d"
  shows "markDeviceIdFree devices d = Inl IndexOutOfRange"
  using assms
  by (auto simp add: markDeviceIdFree_def idMapIndex_def Let_def go_quot_def sgn_if
        MaxDeviceId_def DeviceIdMapSz_def)

lemma markDeviceIdFree_negative:
  assumes "markDeviceIdFree d i = Inr d'" "i < 0"
  shows "deviceIdMap d' = deviceIdMap d"
proof -
  from assms have q: "go_quot i 8 = 0"
    by (auto simp add: markDeviceIdFree_def idMapIndex_def Let_def go_quot_def sgn_if
          split: if_splits)
  then have "go_rem i 8 = i" by (simp add: go_rem_def)
  with assms(2) have "idMask i = 0" by (simp add: idMask_def)
  with assms(1) show ?thesis
    by (auto simp add: markDeviceIdFree_def Let_def split: sum.splits)
qed

lemma markDeviceIdFree_range:
  assumes "markDeviceIdFree d i = Inr d'"
  shows "- 8 < i" "i \<le> MaxDeviceId"
  using assms
  by (auto simp add: markDeviceIdFree_def idMapIndex_def Let_def go_quot_def sgn_if
        MaxDeviceId_def DeviceIdMapSz_def split: if_splits)

lemma rollbackTransaction_result:
  fixes P devices w
  defines "deviceId \<equiv> Transaction.DeviceId (Transaction devices)"
    and "mf \<equiv> metadataFile devices (newDevInfo (DeviceIdHash (Transaction devices)))"
    and "tf \<equiv> transactionMetaFile devices"
  defines "delete \<equiv> DmDeleteDevice (getPoolDevName devices) deviceId"
  assumes run: "rollbackTransaction P devices w = (r, devices', w')"
  shows
    "respond P (trace w @ [delete, OsRemoveAll mf]) \<noteq> Success \<Longrightarrow>
       r = Inr None \<and> devices' = devices \<and>
       trace w' = trace w @ [delete, OsRemoveAll mf, OsRemoveAll tf]"
    "\<And>d3. respond P (trace w @ [delete, OsRemoveAll mf]) = Success \<Longrightarrow>
       markDeviceIdFree devices deviceId = Inr d3 \<Longrightarrow>
       r = Inr None \<and> devices' = d3 \<and>
       trace w' = trace w @ [delete, OsRemoveAll mf, OsRemoveAll tf] \<and> files w' mf = None"
    "\<And>e. respond P (trace w @ [delete, OsRemoveAll mf]) = Success \<Longrightarrow>
       markDeviceIdFree devices deviceId = Inl e \<Longrightarrow>
       r = Inl e \<and> devices' = devices \<and> trace w' = trace w @ [delete, OsRemoveAll mf]"
    "r = Inr None \<Longrightarrow>
       respond P (trace w @ [delete, OsRemoveAll mf, OsRemoveAll tf]) = Success \<Longrightarrow>
       files w' tf = None"
    "\<And>p. \<not> inTree mf p \<Longrightarrow> \<not> inTree tf p \<Longrightarrow> files w' p = files w p"
    "\<And>p. files w p = None \<Longrightarrow> files w' p = None"
proof -
  obtain l1 w1 where a: "invoke P delete w = (l1, w1)" by force
  note w1 = invoke_world [OF a]
  obtain r2 w2 where b: "osRemoveAll P mf w1 = (r2, w2)" by force
  note w2 = osRemoveAll_world [OF b]
  have tr1: "trace w1 @ [OsRemoveAll mf] = trace w @ [delete, OsRemoveAll mf]"
    using w1 by simp
  have removed: "r2 = None \<longleftrightarrow> respond P (trace w @ [delete, OsRemoveAll mf]) = Success"
    using w2(2) tr1 by simp
  have tfd: "transactionMetaFile d3 = tf" if "markDeviceIdFree devices deviceId = Inr d3" for d3
    using markDeviceIdFree_frame [OF that]
    by (metis (no_types) tf_def transactionMetaFile_def metadataDir_def
          DeviceSet.select_convs(2) DeviceSet.surjective DeviceSet.update_convs(6))
  obtain r4 w4 where c: "osRemoveAll P tf w2 = (r4, w4)" by force
  note w4 = osRemoveAll_world [OF c]
  have tr2: "trace w2 @ [OsRemoveAll tf] = trace w @ [delete, OsRemoveAll mf, OsRemoveAll tf]"
    using w1 w2(1) by simp
  have f12: "files w1 = files w" using w1 by simp
  note defs = rollbackTransaction_def removeMetadata_def removeTransactionMetaData_def Let_def
  have unfolded: "rollbackTransaction P devices w =
      (case (if r2 \<noteq> None then Inr devices else markDeviceIdFree devices deviceId) of
         Inl panic \<Rightarrow> (Inl panic, devices, w2)
       | Inr d3 \<Rightarrow> (case osRemoveAll P (transactionMetaFile d3) w2 of
                      (x, w4) \<Rightarrow> (Inr None, d3, w4)))"
    using a b
    by (auto simp add: defs deviceId_def mf_def delete_def newDevInfo_def
          split: prod.splits option.splits sum.splits)
  have failing: "r = Inr None \<and> devices' = devices \<and> w' = w4" if "r2 \<noteq> None"
    using run that c unfolding unfolded by (simp add: tf_def)
  have freeing: "r = Inr None \<and> devices' = d3 \<and> w' = w4"
    if "r2 = None" "markDeviceIdFree devices deviceId = Inr d3" for d3
    using run that c tfd [OF that(2)] unfolding unfolded by simp
  have panicking: "r = Inl e \<and> devices' = devices \<and> w' = w2"
    if "r2 = None" "markDeviceIdFree devices deviceId = Inl e" for e
    using run that unfolding unfolded by simp
  have world: "w' = w4 \<or> (w' = w2 \<and> r \<noteq> Inr None)"
  proof (cases "r2 = None")
    case False
    with failing show ?thesis by simp
  next
    case True
    show ?thesis
    proof (cases "markDeviceIdFree devices deviceId")
      case (Inl e)
      from panicking [OF True Inl] show ?thesis by simp
    next
      case (Inr d3)
      from freeing [OF True Inr] show ?thesis by simp
    qed
  qed
  show "r = Inr None \<and> devices' = devices \<and>
       trace w' = trace w @ [delete, OsRemoveAll mf, OsRemoveAll tf]"
    if "respond P (trace w @ [delete, OsRemoveAll mf]) \<noteq> Success"
    using failing that removed w4(1) tr2 by simp
  show "r = Inr None \<and> devices' = d3 \<and>
       trace w' = trace w @ [delete, OsRemoveAll mf, OsRemoveAll tf] \<and> files w' mf = None"
    if "respond P (trace w @ [delete, OsRemoveAll mf]) = Success"
      "markDeviceIdFree devices deviceId = Inr d3" for d3
  proof -
    from that(1) removed have n: "r2 = None" by simp
    have "files w2 mf = None" using w2(3) [OF n] by simp
    then have "files w4 mf = None" by (rule w4(6))
    with freeing [OF n that(2)] w4(1) tr2 show ?thesis by simp
  qed
  show "r = Inl e \<and> devices' = devices \<and> trace w' = trace w @ [delete, OsRemoveAll mf]"
    if "respond P (trace w @ [delete, OsRemoveAll mf]) = Success"
      "markDeviceIdFree devices deviceId = Inl e" for e
  proof -
    from that(1) removed have n: "r2 = None" by simp
    from panicking [OF n that(2)] w2(1) tr1 show ?thesis by simp
  qed
  show "files w' tf = None"
    if "r = Inr None" "respond P (trace w @ [delete, OsRemoveAll mf, OsRemoveAll tf]) = Success"
  proof -
    from that(1) world have e: "w' = w4" by auto
    from that(2) w4(2) tr2 have "r4 = None" by simp
    from w4(3) [OF this] e show ?thesis by simp
  qed
  show "files w' p = files w p" if "\<not> inTree mf p" "\<not> inTree tf p" for p
  proof -
    have "files w2 p = files w p" using w2(5) [OF that(1)] f12 by simp
    moreover have "files w4 p = files w2 p" by (rule w4(5) [OF that(2)])
    ultimately show ?thesis using world by auto
  qed
  show "files w' p = None" if "files w p = None" for p
  proof -
    have "files w2 p = None" using w2(6) [of p] that f12 by simp
    moreover from this have "files w4 p = None" by (rule w4(6))
    ultimately show ?thesis using world by auto
  qed
qed

lemma markDeviceIdFree_small_negative:
  assumes "- 8 < d" "d < 0"
  shows "\<exists>devices'. markDeviceIdFree devices d = Inr devices'"
  using assms
  by (auto simp add: markDeviceIdFree_def idMapIndex_def Let_def go_quot_def sgn_if
        DeviceIdMapSz_def MaxDeviceId_def)

lemma processPendingTransaction_frame:
  assumes load: "loadTransactionMetaData P devices w = (None, devices1, w1)"
    and run: "processPendingTransaction P devices w = (r, devices', w')"
  shows "(OpenTransactionId (Transaction devices1) \<le> DeviceSet.TransactionId devices1 \<longrightarrow>
            r = None \<and> devices' = devices1 \<and> w' = w1) \<and>
         (DeviceSet.TransactionId devices1 < OpenTransactionId (Transaction devices1) \<longrightarrow>
            (let deviceId = Transaction.DeviceId (Transaction devices1);
                 mf = metadataFile devices1 (newDevInfo (DeviceIdHash (Transaction devices1)));
                 tf = transactionMetaFile devices1;
                 delete = DmDeleteDevice (getPoolDevName devices1) deviceId;
                 removed = (respond P (trace w1 @ [delete, OsRemoveAll mf]) = Success)
             in (\<not> removed \<longrightarrow>
                   r = None \<and>
                   trace w' = trace w1 @ [delete, OsRemoveAll mf, OsRemoveAll tf] \<and>
                   deviceIdMap devices' = deviceIdMap devices) \<and>
                (removed \<and> 0 \<le> deviceId \<and> deviceId \<le> MaxDeviceId \<longrightarrow>
                   r = None \<and>
                   trace w' = trace w1 @ [delete, OsRemoveAll mf, OsRemoveAll tf] \<and>
                   files w' mf = None \<and>
                   isDeviceIdFree devices' deviceId = Inr True \<and>
                   (\<forall>x. 0 \<le> x \<and> x \<le> MaxDeviceId \<and> x \<noteq> deviceId \<longrightarrow>
                      isDeviceIdFree devices' x = isDeviceIdFree devices x)) \<and>
                (removed \<and> - 8 < deviceId \<and> deviceId < 0 \<longrightarrow>
                   r = None \<and>
                   trace w' = trace w1 @ [delete, OsRemoveAll mf, OsRemoveAll tf] \<and>
                   files w' mf = None \<and>
                   deviceIdMap devices' = deviceIdMap devices) \<and>
                (removed \<and> (deviceId \<le> - 8 \<or> MaxDeviceId < deviceId) \<longrightarrow>
                   r = Some IndexOutOfRange \<and>
                   trace w' = trace w1 @ [delete, OsRemoveAll mf] \<and>
                   deviceIdMap devices' = deviceIdMap devices) \<and>
                (r = None \<and>
                 respond P (trace w1 @ [delete, OsRemoveAll mf, OsRemoveAll tf]) = Success \<longrightarrow>
                   files w' tf = None) \<and>
                (r = None \<longrightarrow>
                   OpenTransactionId (Transaction devices') = DeviceSet.TransactionId devices) \<and>
                (\<forall>p. \<not> inTree mf p \<and> \<not> inTree tf p \<longrightarrow> files w' p = files w p) \<and>
                Devices devices' = Devices devices \<and>
                DeviceSet.TransactionId devices' = DeviceSet.TransactionId devices)) \<and>
         devices1 = devices\<lparr>Transaction := Transaction devices1\<rparr> \<and>
         w1 = w\<lparr>trace := trace w @ [OsReadFile (transactionMetaFile devices)]\<rparr>"
proof -
  note fr = loadTransactionMetaData_frame [OF load]
  have d1: "devices1 = devices\<lparr>Transaction := Transaction devices1\<rparr>" by (rule fr(2))
  have idle: "r = None \<and> devices' = devices1 \<and> w' = w1"
    if le: "OpenTransactionId (Transaction devices1) \<le> DeviceSet.TransactionId devices1"
  proof -
    from le have "DeviceSet.TransactionId devices1 = OpenTransactionId (Transaction devices1) \<or>
        OpenTransactionId (Transaction devices1) < DeviceSet.TransactionId devices1" by auto
    with run load show ?thesis
      by (auto simp add: processPendingTransaction_def split: if_splits)
  qed
  define deviceId where "deviceId = Transaction.DeviceId (Transaction devices1)"
  define mf where "mf = metadataFile devices1 (newDevInfo (DeviceIdHash (Transaction devices1)))"
  define tf where "tf = transactionMetaFile devices1"
  define delete where "delete = DmDeleteDevice (getPoolDevName devices1) deviceId"
  define removed where "removed = (respond P (trace w1 @ [delete, OsRemoveAll mf]) = Success)"
  have pending:
     "(\<not> removed \<longrightarrow>
         r = None \<and>
         trace w' = trace w1 @ [delete, OsRemoveAll mf, OsRemoveAll tf] \<and>
         deviceIdMap devices' = deviceIdMap devices) \<and>
      (removed \<and> 0 \<le> deviceId \<and> deviceId \<le> MaxDeviceId \<longrightarrow>
         r = None \<and>
         trace w' = trace w1 @ [delete, OsRemoveAll mf, OsRemoveAll tf] \<and>
         files w' mf = None \<and>
         isDeviceIdFree devices' deviceId = Inr True \<and>
         (\<forall>x. 0 \<le> x \<and> x \<le> MaxDeviceId \<and> x \<noteq> deviceId \<longrightarrow>
            isDeviceIdFree devices' x = isDeviceIdFree devices x)) \<and>
      (removed \<and> - 8 < deviceId \<and> deviceId < 0 \<longrightarrow>
         r = None \<and>
         trace w' = trace w1 @ [delete, OsRemoveAll mf, OsRemoveAll tf] \<and>
         files w' mf = None \<and>
         deviceIdMap devices' = deviceIdMap devices) \<and>
      (removed \<and> (deviceId \<le> - 8 \<or> MaxDeviceId < deviceId) \<longrightarrow>
         r = Some IndexOutOfRange \<and>
         trace w' = trace w1 @ [delete, OsRemoveAll mf] \<and>
         deviceIdMap devices' = deviceIdMap devices) \<and>
      (r = None \<and>
       respond P (trace w1 @ [delete, OsRemoveAll mf, OsRemoveAll tf]) = Success \<longrightarrow>
         files w' tf = None) \<and>
      (r = None \<longrightarrow>
         OpenTransactionId (Transaction devices') = DeviceSet.TransactionId devices) \<and>
      (\<forall>p. \<not> inTree mf p \<and> \<not> inTree tf p \<longrightarrow> files w' p = files w p) \<and>
      Devices devices' = Devices devices \<and>
      DeviceSet.TransactionId devices' = DeviceSet.TransactionId devices"
    if lt: "DeviceSet.TransactionId devices1 < OpenTransactionId (Transaction devices1)"
  proof -
    obtain r2 d2 w2 where rb: "rollbackTransaction P devices1 w1 = (r2, d2, w2)"
      by (cases "rollbackTransaction P devices1 w1") auto
    note R = rollbackTransaction_result [OF rb, folded deviceId_def mf_def tf_def,
        folded delete_def, folded removed_def]
    from lt have ne: "DeviceSet.TransactionId devices1 \<noteq> OpenTransactionId (Transaction devices1)"
      "\<not> OpenTransactionId (Transaction devices1) < DeviceSet.TransactionId devices1" by auto
    have completed: "r = None \<and> w' = w2 \<and>
        devices' = d2\<lparr>Transaction := (Transaction d2)
                     \<lparr>OpenTransactionId := DeviceSet.TransactionId d2\<rparr>\<rparr>"
      if "r2 = Inr None"
      using run load ne rb that by (simp add: processPendingTransaction_def)
    have panicked: "r = Some e \<and> w' = w2 \<and> devices' = d2" if "r2 = Inl e" for e
      using run load ne rb that by (simp add: processPendingTransaction_def)
    have cases: "r2 = Inr None \<or> r2 = Inl IndexOutOfRange"
      and frame2: "d2 = devices1\<lparr>deviceIdMap := deviceIdMap d2\<rparr>"
    proof -
      show "r2 = Inr None \<or> r2 = Inl IndexOutOfRange"
      proof (cases removed)
        case False
        with R(1) show ?thesis by simp
      next
        case True
        show ?thesis
        proof (cases "markDeviceIdFree devices1 deviceId")
          case (Inl e)
          then have "e = IndexOutOfRange"
            by (auto simp add: markDeviceIdFree_def idMapIndex_def Let_def
                  split: sum.splits if_splits)
          with R(3) [OF True Inl] show ?thesis by simp
        next
          case (Inr d3)
          with R(2) [OF True Inr] show ?thesis by simp
        qed
      qed
      show "d2 = devices1\<lparr>deviceIdMap := deviceIdMap d2\<rparr>"
      proof (cases removed)
        case False
        with R(1) show ?thesis by simp
      next
        case True
        show ?thesis
        proof (cases "markDeviceIdFree devices1 deviceId")
          case (Inl e)
          with R(3) [OF True Inl] show ?thesis by simp
        next
          case (Inr d3)
          from R(2) [OF True Inr] have "d2 = d3" by simp
          with markDeviceIdFree_frame [OF Inr] show ?thesis by simp
        qed
      qed
    qed
    have result: "w' = w2" "deviceIdMap devices' = deviceIdMap d2"
      "Devices devices' = Devices devices"
      "DeviceSet.TransactionId devices' = DeviceSet.TransactionId devices"
      "r = None \<longleftrightarrow> r2 = Inr None"
      "r = None \<Longrightarrow> OpenTransactionId (Transaction devices') = DeviceSet.TransactionId devices"
    proof -
      have f: "Devices d2 = Devices devices" "DeviceSet.TransactionId d2 = DeviceSet.TransactionId devices"
        by (subst frame2, subst d1, simp)+
      from cases show "w' = w2" using completed panicked by auto
      from cases show "deviceIdMap devices' = deviceIdMap d2" using completed panicked by auto
      from cases show "Devices devices' = Devices devices" using completed panicked f by auto
      from cases show "DeviceSet.TransactionId devices' = DeviceSet.TransactionId devices"
        using completed panicked f by auto
      from cases show "r = None \<longleftrightarrow> r2 = Inr None" using completed panicked by auto
      assume "r = None"
      with cases panicked have "r2 = Inr None" by auto
      from completed [OF this] f
      show "OpenTransactionId (Transaction devices') = DeviceSet.TransactionId devices" by simp
    qed
    have same1: "deviceIdMap devices1 = deviceIdMap devices" by (subst d1) simp
    have files1: "files w1 = files w" by (subst fr(1)) simp
    show ?thesis
    proof (intro conjI impI allI)
      assume n: "\<not> removed"
      from R(1) [OF n] result same1
      show "r = None" "trace w' = trace w1 @ [delete, OsRemoveAll mf, OsRemoveAll tf]"
        "deviceIdMap devices' = deviceIdMap devices" by simp_all
    next
      assume a: "removed \<and> 0 \<le> deviceId \<and> deviceId \<le> MaxDeviceId"
      then have valid: "0 \<le> deviceId" "deviceId \<le> MaxDeviceId" and rm: removed by simp_all
      obtain d3 where m: "markDeviceIdFree devices1 deviceId = Inr d3"
        using valid by (simp add: markDeviceIdFree_valid)
      note F = R(2) [OF rm m]
      from F result show "r = None" "trace w' = trace w1 @ [delete, OsRemoveAll mf, OsRemoveAll tf]"
        "files w' mf = None" by simp_all
      have free: "isDeviceIdFree d2 x = (if x = deviceId then Inr True else isDeviceIdFree devices1 x)"
        if "0 \<le> x" "x \<le> MaxDeviceId" for x
        using isDeviceIdFree_after_free [OF valid that m] F by simp
      have same: "isDeviceIdFree devices' x = isDeviceIdFree d2 x" for x
        by (rule isDeviceIdFree_same_map [OF result(2)])
      have same0: "isDeviceIdFree devices1 x = isDeviceIdFree devices x" for x
        by (rule isDeviceIdFree_same_map [OF same1])
      show "isDeviceIdFree devices' deviceId = Inr True"
        using free [OF valid] same by simp
      fix x
      assume "0 \<le> x \<and> x \<le> MaxDeviceId \<and> x \<noteq> deviceId"
      then show "isDeviceIdFree devices' x = isDeviceIdFree devices x"
        using free [of x] same same0 by simp
    next
      assume a: "removed \<and> - 8 < deviceId \<and> deviceId < 0"
      then have rm: removed by simp
      from a obtain d3 where m: "markDeviceIdFree devices1 deviceId = Inr d3"
        using markDeviceIdFree_small_negative [of deviceId devices1] by auto
      note F = R(2) [OF rm m]
      from F result show "r = None" "trace w' = trace w1 @ [delete, OsRemoveAll mf, OsRemoveAll tf]"
        "files w' mf = None" by simp_all
      from markDeviceIdFree_negative [OF m] a F result(2) same1
      show "deviceIdMap devices' = deviceIdMap devices" by simp
    next
      assume a: "removed \<and> (deviceId \<le> - 8 \<or> MaxDeviceId < deviceId)"
      then have rm: removed and out: "deviceId \<le> - 8 \<or> MaxDeviceId < deviceId" by simp_all
      note m = markDeviceIdFree_panics [OF out, of devices1]
      note F = R(3) [OF rm m]
      from F panicked [of IndexOutOfRange] result(1,2) same1
      show "r = Some IndexOutOfRange" "trace w' = trace w1 @ [delete, OsRemoveAll mf]"
        "deviceIdMap devices' = deviceIdMap devices" by simp_all
    next
      assume "r = None \<and>
         respond P (trace w1 @ [delete, OsRemoveAll mf, OsRemoveAll tf]) = Success"
      with R(4) result(1,5) show "files w' tf = None" by simp
    next
      assume "r = None"
      then show "OpenTransactionId (Transaction devices') = DeviceSet.TransactionId devices"
        by (rule result(6))
    next
      fix p
      assume "\<not> inTree mf p \<and> \<not> inTree tf p"
      with R(5) [of p] result(1) files1 show "files w' p = files w p" by simp
    next
      show "Devices devices' = Devices devices" by (rule result(3))
      show "DeviceSet.TransactionId devices' = DeviceSet.TransactionId devices" by (rule result(4))
    qed
  qed
  show ?thesis
    unfolding Let_def
    using idle pending [unfolded removed_def delete_def tf_def mf_def deviceId_def] d1 fr(1)
    by blast
qed

text \<open>
  C1, as the code has it. Start-up replay of the pending transaction. Let
  \<^verbatim>\<open>loadTransactionMetaData\<close> succeed (it only reads the transaction file and sets the
  \<^verbatim>\<open>Transaction\<close> field). If the loaded open transaction id is equal to or less than the
  pool's transaction id, \<^verbatim>\<open>processPendingTransaction\<close> returns nil and leaves the
  DeviceSet and the world as the load left them: no outside call, no file, no bit of the
  bitmap and no record changes. If it is strictly greater, the rollback first calls the
  pool's \<^verbatim>\<open>DeleteDevice\<close> of the pending id (whatever it answers) and then removes the
  metadata file named by the pending hash. The pending id is marked free only when that
  removal succeeded:

    \<^item> when the removal fails, the bitmap stays as it was, the transaction file is removed
      next and nil is returned;
    \<^item> when it succeeds and the pending id is a device id (in \<open>0 .. MaxDeviceId\<close>), the
      metadata file is gone, the id is free, every other id is as before, the
      transaction file is removed next and nil is returned;
    \<^item> when it succeeds and the pending id is in \<open>-7 .. -1\<close>, the same holds but for the
      bitmap, which stays as it was;
    \<^item> when it succeeds and the pending id is any other number, the slice access of
      \<^verbatim>\<open>markDeviceIdFree\<close> panics: no third call is made and the bitmap stays as it was.

  Whenever nil is returned, the transaction file is gone if its removal succeeded, and the
  open transaction id is reset to the pool's. In every case no file outside the two
  removed paths changes, and the registry and the pool transaction id are unchanged.
\<close>

theorem processPendingTransaction_replay:
  assumes "loadTransactionMetaData P devices w = (None, devices1, w1)"
    and "processPendingTransaction P devices w = (r, devices', w')"
  shows "(OpenTransactionId (Transaction devices1) \<le> DeviceSet.TransactionId devices1 \<longrightarrow>
            r = None \<and> devices' = devices1 \<and> w' = w1) \<and>
         (DeviceSet.TransactionId devices1 < OpenTransactionId (Transaction devices1) \<longrightarrow>
            (let deviceId = Transaction.DeviceId (Transaction devices1);
                 mf = metadataFile devices1 (newDevInfo (DeviceIdHash (Transaction devices1)));
                 tf = transactionMetaFile devices1;
                 delete = DmDeleteDevice (getPoolDevName devices1) deviceId;
                 removed = (respond P (trace w1 @ [delete, OsRemoveAll mf]) = Success)
             in (\<not> removed \<longrightarrow>
                   r = None \<and>
                   trace w' = trace w1 @ [delete, OsRemoveAll mf, OsRemoveAll tf] \<and>
                   deviceIdMap devices' = deviceIdMap devices) \<and>
                (removed \<and> 0 \<le> deviceId \<and> deviceId \<le> MaxDeviceId \<longrightarrow>
                   r = None \<and>
                   trace w' = trace w1 @ [delete, OsRemoveAll mf, OsRemoveAll tf] \<and>
                   files w' mf = None \<and>
                   isDeviceIdFree devices' deviceId = Inr True \<and>
                   (\<forall>x. 0 \<le> x \<and> x \<le> MaxDeviceId \<and> x \<noteq> deviceId \<longrightarrow>
                      isDeviceIdFree devices' x = isDeviceIdFree devices x)) \<and>
                (removed \<and> - 8 < deviceId \<and> deviceId < 0 \<longrightarrow>
                   r = None \<and>
                   trace w' = trace w1 @ [delete, OsRemoveAll mf, OsRemoveAll tf] \<and>
                   files w' mf = None \<and>
                   deviceIdMap devices' = deviceIdMap devices) \<and>
                (removed \<and> (deviceId \<le> - 8 \<or> MaxDeviceId < deviceId) \<longrightarrow>
                   r = Some IndexOutOfRange \<and>
                   trace w' = trace w1 @ [delete, OsRemoveAll mf] \<and>
                   deviceIdMap devices' = deviceIdMap devices) \<and>
                (r = None \<and>
                 respond P (trace w1 @ [delete, OsRemoveAll mf, OsRemoveAll tf]) = Success \<longrightarrow>
                   files w' tf = None) \<and>
                (r = None \<longrightarrow>
                   OpenTransactionId (Transaction devices') = DeviceSet.TransactionId devices) \<and>
                (\<forall>p. \<not> inTree mf p \<and> \<not> inTree tf p \<longrightarrow> files w' p = files w p) \<and>
                Devices devices' = Devices devices \<and>
                DeviceSet.TransactionId devices' = DeviceSet.TransactionId devices)) \<and>
         devices1 = devices\<lparr>Transaction := Transaction devices1\<rparr> \<and>
         w1 = w\<lparr>trace := trace w @ [OsReadFile (transactionMetaFile devices)]\<rparr>"
  using assms by (rule processPendingTransaction_frame)

lemma loadTransactionMetaData_pending:
  "loadTransactionMetaData (examplePlatform nominalAnswers) (pendingDevices\<lparr>DeviceSet.TransactionId := t\<rparr>) pendingWorld =
     (None,
      pendingDevices\<lparr>DeviceSet.TransactionId := t,
        Transaction := \<lparr>OpenTransactionId = 4, DeviceIdHash = ''C'', Transaction.DeviceId = 5\<rparr>\<rparr>,
      pendingWorld\<lparr>trace := [OsReadFile ''/var/lib/docker/metadata/transaction-metadata'']\<rparr>)"
  by (simp add: loadTransactionMetaData_def osReadFile_def perform_def examplePlatform_def
        nominalAnswers_def pendingDevices_def pendingWorld_def transactionMetaFile_def
        metadataDir_def pathJoin_examples NewDeviceSet_literal_def char_of_def bit_Suc_0_iff)

theorem processPendingTransaction_replay_witness:
  "fst (processPendingTransaction (examplePlatform nominalAnswers) pendingDevices pendingWorld) = None \<and>
   trace (snd (snd (processPendingTransaction (examplePlatform nominalAnswers) pendingDevices pendingWorld))) =
     [OsReadFile ''/var/lib/docker/metadata/transaction-metadata'',
      DmDeleteDevice ''/dev/mapper/docker-8:1-2-pool'' 5,
      OsRemoveAll ''/var/lib/docker/metadata/C'',
      OsRemoveAll ''/var/lib/docker/metadata/transaction-metadata''] \<and>
   files (snd (snd (processPendingTransaction (examplePlatform nominalAnswers) pendingDevices pendingWorld)))
     ''/var/lib/docker/metadata/C'' = None \<and>
   files (snd (snd (processPendingTransaction (examplePlatform nominalAnswers) pendingDevices pendingWorld)))
     ''/var/lib/docker/metadata/transaction-metadata'' = None \<and>
   isDeviceIdFree pendingDevices 5 = Inr False \<and>
   isDeviceIdFree (fst (snd (processPendingTransaction (examplePlatform nominalAnswers) pendingDevices pendingWorld))) 5 = Inr True \<and>
   processPendingTransaction (examplePlatform nominalAnswers) committedDevices pendingWorld =
     (None,
      committedDevices\<lparr>Transaction := \<lparr>OpenTransactionId = 4, DeviceIdHash = ''C'', Transaction.DeviceId = 5\<rparr>\<rparr>,
      pendingWorld\<lparr>trace := [OsReadFile ''/var/lib/docker/metadata/transaction-metadata'']\<rparr>)"
proof -
  let ?P = "examplePlatform nominalAnswers"
  let ?t = "\<lparr>OpenTransactionId = 4, DeviceIdHash = ''C'', Transaction.DeviceId = 5\<rparr>"
  let ?w1 = "pendingWorld\<lparr>trace := [OsReadFile ''/var/lib/docker/metadata/transaction-metadata'']\<rparr>"
  have self: "pendingDevices\<lparr>DeviceSet.TransactionId := 3\<rparr> = pendingDevices"
    by (simp add: pendingDevices_def)
  have load: "loadTransactionMetaData ?P pendingDevices pendingWorld =
      (None, pendingDevices\<lparr>Transaction := ?t\<rparr>, ?w1)"
    using loadTransactionMetaData_pending [of 3] by (simp only: self)
  have load4: "loadTransactionMetaData ?P committedDevices pendingWorld =
      (None, committedDevices\<lparr>Transaction := ?t\<rparr>, ?w1)"
    using loadTransactionMetaData_pending [of 4] by (simp only: committedDevices_def)
  obtain r d' w' where run: "processPendingTransaction ?P pendingDevices pendingWorld = (r, d', w')"
    by (cases "processPendingTransaction ?P pendingDevices pendingWorld") auto
  obtain r4 d4 w4 where run4: "processPendingTransaction ?P committedDevices pendingWorld = (r4, d4, w4)"
    by (cases "processPendingTransaction ?P committedDevices pendingWorld") auto
  have names: "getPoolDevName (pendingDevices\<lparr>Transaction := ?t\<rparr>) = ''/dev/mapper/docker-8:1-2-pool''"
    "metadataFile (pendingDevices\<lparr>Transaction := ?t\<rparr>) (newDevInfo ''C'') = ''/var/lib/docker/metadata/C''"
    "transactionMetaFile (pendingDevices\<lparr>Transaction := ?t\<rparr>) = ''/var/lib/docker/metadata/transaction-metadata''"
    by (simp_all add: getPoolDevName_def getPoolName_def getDevName_def pendingDevices_def
          NewDeviceSet_literal_def metadataFile_def metadataDir_def pathJoin_examples newDevInfo_def
          transactionMetaFile_def)
  have pend: "DeviceSet.TransactionId (pendingDevices\<lparr>Transaction := ?t\<rparr>) <
        OpenTransactionId (Transaction (pendingDevices\<lparr>Transaction := ?t\<rparr>))"
    by (simp add: pendingDevices_def NewDeviceSet_literal_def)
  have ok: "respond ?P h = Success" if "last h = OsRemoveAll p" for h p
    using that by (simp add: examplePlatform_def nominalAnswers_def)
  have used: "isDeviceIdFree pendingDevices 5 = Inr False"
    by (simp add: isDeviceIdFree_def idMapIndex_def idMask_def go_quot_def go_rem_def
          DeviceIdMapSz_def MaxDeviceId_def pendingDevices_def NewDeviceSet_literal_def)
  note T = processPendingTransaction_replay [OF load run, unfolded Let_def,
      THEN conjunct2, THEN conjunct1, rule_format, OF pend]
  have removed: "respond ?P (trace ?w1 @
        [DmDeleteDevice (getPoolDevName (pendingDevices\<lparr>Transaction := ?t\<rparr>))
           (Transaction.DeviceId (Transaction (pendingDevices\<lparr>Transaction := ?t\<rparr>))),
         OsRemoveAll (metadataFile (pendingDevices\<lparr>Transaction := ?t\<rparr>)
           (newDevInfo (DeviceIdHash (Transaction (pendingDevices\<lparr>Transaction := ?t\<rparr>)))))]) = Success \<and>
      0 \<le> Transaction.DeviceId (Transaction (pendingDevices\<lparr>Transaction := ?t\<rparr>)) \<and>
      Transaction.DeviceId (Transaction (pendingDevices\<lparr>Transaction := ?t\<rparr>)) \<le> MaxDeviceId"
    by (simp add: ok MaxDeviceId_def)
  note B = T [THEN conjunct2, THEN conjunct1, rule_format, OF removed]
  have a: "r = None" using B by simp
  have b: "trace w' = [OsReadFile ''/var/lib/docker/metadata/transaction-metadata'',
      DmDeleteDevice ''/dev/mapper/docker-8:1-2-pool'' 5,
      OsRemoveAll ''/var/lib/docker/metadata/C'',
      OsRemoveAll ''/var/lib/docker/metadata/transaction-metadata'']"
    using B [THEN conjunct2, THEN conjunct1] by (simp add: names)
  have c: "files w' ''/var/lib/docker/metadata/C'' = None \<and> isDeviceIdFree d' 5 = Inr True"
    using B [THEN conjunct2, THEN conjunct2] by (simp add: names)
  have d: "files w' ''/var/lib/docker/metadata/transaction-metadata'' = None"
    using T [THEN conjunct2, THEN conjunct2, THEN conjunct2, THEN conjunct2, THEN conjunct1] a
    by (simp add: names ok)
  have le: "OpenTransactionId (Transaction (committedDevices\<lparr>Transaction := ?t\<rparr>)) \<le>
        DeviceSet.TransactionId (committedDevices\<lparr>Transaction := ?t\<rparr>)"
    by (simp add: committedDevices_def)
  have e: "r4 = None \<and> d4 = committedDevices\<lparr>Transaction := ?t\<rparr> \<and> w4 = ?w1"
    using processPendingTransaction_replay [OF load4 run4, THEN conjunct1, rule_format, OF le] .
  show ?thesis unfolding run run4 using a b c d e used by simp
qed

lemma example_removal_fails:
  "DeviceSet.TransactionId pendingDevices = 3"
  "OpenTransactionId (Transaction (fst (snd (loadTransactionMetaData
      (examplePlatform metadataRemovalFails) pendingDevices pendingWorld)))) = 4"
  "fst (processPendingTransaction (examplePlatform metadataRemovalFails) pendingDevices
          pendingWorld) = None"
  "trace (snd (snd (processPendingTransaction (examplePlatform metadataRemovalFails)
      pendingDevices pendingWorld))) =
     [OsReadFile ''/var/lib/docker/metadata/transaction-metadata'',
      DmDeleteDevice ''/dev/mapper/docker-8:1-2-pool'' 5,
      OsRemoveAll ''/var/lib/docker/metadata/C'',
      OsRemoveAll ''/var/lib/docker/metadata/transaction-metadata'']"
  "isDeviceIdFree (fst (snd (processPendingTransaction (examplePlatform metadataRemovalFails)
      pendingDevices pendingWorld))) 5 = Inr False"
  "files (snd (snd (processPendingTransaction (examplePlatform metadataRemovalFails)
      pendingDevices pendingWorld))) ''/var/lib/docker/metadata/C'' = Some [5, 0, 0, 0]"
  "files (snd (snd (processPendingTransaction (examplePlatform metadataRemovalFails)
      pendingDevices pendingWorld))) ''/var/lib/docker/metadata/transaction-metadata'' = None"
  by code_simp+

lemma example_large_id:
  "Transaction (fst (snd (loadTransactionMetaData decodesLargeId pendingDevices pendingWorld))) =
     \<lparr>OpenTransactionId = 4, DeviceIdHash = ''C'', Transaction.DeviceId = 16777216\<rparr>"
  "fst (processPendingTransaction decodesLargeId pendingDevices pendingWorld) =
     Some IndexOutOfRange"
  "files (snd (snd (processPendingTransaction decodesLargeId pendingDevices pendingWorld)))
     ''/var/lib/docker/metadata/transaction-metadata'' = Some [4, 5, 67]"
  by code_simp+

text \<open>
  C1, as the claim states it, fails on two runs that start with the pool at transaction 3
  and a pending transaction 4. On a platform where the metadata file of the pending hash
  cannot be removed, the rollback still returns nil and deletes the transaction file, but
  the metadata file is still there and the pending id 5 is still in use. With a
  transaction file that holds the device id \<open>2^24\<close>, the rollback panics in
  \<^verbatim>\<open>markDeviceIdFree\<close> and the transaction file is still there.
\<close>

theorem processPendingTransaction_replay_counterexample:
  "DeviceSet.TransactionId pendingDevices = 3 \<and>
   OpenTransactionId (Transaction (fst (snd (loadTransactionMetaData
      (examplePlatform metadataRemovalFails) pendingDevices pendingWorld)))) = 4 \<and>
   fst (processPendingTransaction (examplePlatform metadataRemovalFails) pendingDevices
          pendingWorld) = None \<and>
   trace (snd (snd (processPendingTransaction (examplePlatform metadataRemovalFails)
      pendingDevices pendingWorld))) =
     [OsReadFile ''/var/lib/docker/metadata/transaction-metadata'',
      DmDeleteDevice ''/dev/mapper/docker-8:1-2-pool'' 5,
      OsRemoveAll ''/var/lib/docker/metadata/C'',
      OsRemoveAll ''/var/lib/docker/metadata/transaction-metadata''] \<and>
   isDeviceIdFree (fst (snd (processPendingTransaction (examplePlatform metadataRemovalFails)
      pendingDevices pendingWorld))) 5 = Inr False \<and>
   files (snd (snd (processPendingTransaction (examplePlatform metadataRemovalFails)
      pendingDevices pendingWorld))) ''/var/lib/docker/metadata/C'' = Some [5, 0, 0, 0] \<and>
   files (snd (snd (processPendingTransaction (examplePlatform metadataRemovalFails)
      pendingDevices pendingWorld))) ''/var/lib/docker/metadata/transaction-metadata'' = None \<and>
   Transaction (fst (snd (loadTransactionMetaData decodesLargeId pendingDevices pendingWorld))) =
     \<lparr>OpenTransactionId = 4, DeviceIdHash = ''C'', Transaction.DeviceId = 16777216\<rparr> \<and>
   fst (processPendingTransaction decodesLargeId pendingDevices pendingWorld) =
     Some IndexOutOfRange \<and>
   files (snd (snd (processPendingTransaction decodesLargeId pendingDevices pendingWorld)))
     ''/var/lib/docker/metadata/transaction-metadata'' = Some [4, 5, 67]"
  using example_removal_fails example_large_id by blast

section \<open>Base image on an external pool\<close>

lemma lookupDevice_unknown:
  assumes "lookupDevice P devices hash w = (Inl e, devices1, w1)"
  shows "e = UnknownDevice hash" "devices1 = devices" "Devices devices hash = None"
    "w1 = w\<lparr>trace := trace w @ [OsReadFile (metadataFile devices (newDevInfo hash))]\<rparr>"
proof -
  from assms show d: "Devices devices hash = None"
    by (cases "Devices devices hash") (simp_all add: lookupDevice_def)
  obtain x wx where rd: "osReadFile P (metadataFile devices (newDevInfo hash)) w = (x, wx)" by force
  note wx = osReadFile_world [OF rd]
  from assms d rd have "e = UnknownDevice hash \<and> devices1 = devices \<and> w1 = wx"
    by (auto simp add: lookupDevice_def loadMetadata_def Let_def split: sum.splits option.splits)
  with wx show "e = UnknownDevice hash" "devices1 = devices"
    "w1 = w\<lparr>trace := trace w @ [OsReadFile (metadataFile devices (newDevInfo hash))]\<rparr>"
    by simp_all
qed

lemma poolStatus_world:
  "poolStatus P devices w = (st, w2) \<Longrightarrow>
   w2 = w\<lparr>trace := trace w @ [DmGetStatus (getPoolName devices)]\<rparr>"
  by (auto simp add: poolStatus_def perform_def split: outcome.splits)

lemma setupBaseImage_external:
  assumes ext: "thinPoolDevice devices \<noteq> []"
    and nobase: "lookupDevice P devices [] w = (Inl e, devices1, w1)"
    and status: "poolStatus P devices w1 = (st, w2)"
    and run: "setupBaseImage P devices w = (r, devices', w')"
  shows "trace w2 = trace w @ [OsReadFile (metadataFile devices (newDevInfo [])),
                               DmGetStatus (getPoolName devices)] \<and>
         files w2 = files w \<and>
         (case st of
            Inl err \<Rightarrow> r = Some err \<and> devices' = devices \<and> w' = w2
          | Inr (totalSizeInSectors, transactionId, dataUsed, others) \<Rightarrow>
              (dataUsed \<noteq> 0 \<longrightarrow>
                 r = Some (PoolHasUsedData (thinPoolDevice devices)) \<and> devices' = devices \<and> w' = w2) \<and>
              (dataUsed = 0 \<and> transactionId \<noteq> 0 \<longrightarrow>
                 r = Some (PoolHasTransactionId (thinPoolDevice devices)) \<and> devices' = devices \<and> w' = w2) \<and>
              (dataUsed = 0 \<and> transactionId = 0 \<longrightarrow>
                 (case createRegisterDevice P devices [] w2 of
                    (Inl err, devices4, w4) \<Rightarrow> r = Some err \<and> devices' = devices4 \<and> w' = w4
                  | (Inr info, devices4, w4) \<Rightarrow>
                      (case activateDeviceIfNeeded P devices4 info w4 of
                         (Some err, w5) \<Rightarrow> r = Some err \<and> devices' = devices4 \<and> w' = w5
                       | (None, w5) \<Rightarrow>
                           (case createFilesystem P devices4 info w5 of
                              (Some err, w6) \<Rightarrow> r = Some err \<and> devices' = devices4 \<and> w' = w6
                            | (None, w6) \<Rightarrow>
                                (case saveMetadata P devices4 (info\<lparr>Initialized := True\<rparr>) w6 of
                                   (Some err, w7) \<Rightarrow> r = Some err \<and> devices' = devices4 \<and> w' = w7
                                 | (None, w7) \<Rightarrow>
                                     r = None \<and> w' = w7 \<and>
                                     devices' = devices4\<lparr>Devices := (Devices devices4)
                                       ([] \<mapsto> info\<lparr>Initialized := True\<rparr>)\<rparr>))))))"
proof -
  note l = lookupDevice_unknown [OF nobase]
  note p = poolStatus_world [OF status]
  have tr: "trace w2 = trace w @ [OsReadFile (metadataFile devices (newDevInfo [])),
                               DmGetStatus (getPoolName devices)]" "files w2 = files w"
    using l(4) p by simp_all
  have run': "setupBaseImage P devices w = (r, devices', w')" by (rule run)
  show ?thesis
  proof (cases st)
    case (Inl err)
    with run nobase status ext l(2) have "r = Some err \<and> devices' = devices \<and> w' = w2"
      by (auto simp add: setupBaseImage_def)
    with tr Inl show ?thesis by simp
  next
    case (Inr v)
    obtain total transactionId dataUsed others where v: "v = (total, transactionId, dataUsed, others)"
      by (cases v) auto
    consider (used) "dataUsed \<noteq> 0" | (tx) "dataUsed = 0" "transactionId \<noteq> 0"
      | (zero) "dataUsed = 0" "transactionId = 0" by blast
    then show ?thesis
    proof cases
      case used
      with run nobase status ext l(2) Inr v
      have "r = Some (PoolHasUsedData (thinPoolDevice devices)) \<and> devices' = devices \<and> w' = w2"
        by (auto simp add: setupBaseImage_def)
      with tr Inr v used show ?thesis by simp
    next
      case tx
      with run nobase status ext l(2) Inr v
      have "r = Some (PoolHasTransactionId (thinPoolDevice devices)) \<and> devices' = devices \<and> w' = w2"
        by (auto simp add: setupBaseImage_def)
      with tr Inr v tx show ?thesis by simp
    next
      case zero
      from run nobase status ext l(2) Inr v zero
      have "(case createRegisterDevice P devices [] w2 of
                    (Inl err, devices4, w4) \<Rightarrow> r = Some err \<and> devices' = devices4 \<and> w' = w4
                  | (Inr info, devices4, w4) \<Rightarrow>
                      (case activateDeviceIfNeeded P devices4 info w4 of
                         (Some err, w5) \<Rightarrow> r = Some err \<and> devices' = devices4 \<and> w' = w5
                       | (None, w5) \<Rightarrow>
                           (case createFilesystem P devices4 info w5 of
                              (Some err, w6) \<Rightarrow> r = Some err \<and> devices' = devices4 \<and> w' = w6
                            | (None, w6) \<Rightarrow>
                                (case saveMetadata P devices4 (info\<lparr>Initialized := True\<rparr>) w6 of
                                   (Some err, w7) \<Rightarrow> r = Some err \<and> devices' = devices4 \<and> w' = w7
                                 | (None, w7) \<Rightarrow>
                                     r = None \<and> w' = w7 \<and>
                                     devices' = devices4\<lparr>Devices := (Devices devices4)
                                       ([] \<mapsto> info\<lparr>Initialized := True\<rparr>)\<rparr>))))"
        by (auto simp add: setupBaseImage_def split: prod.splits sum.splits option.splits)
      with tr Inr v zero show ?thesis by simp
    qed
  qed
qed

text \<open>
  C7. Refusing a used external pool. Let an external thin pool be configured
  (\<^verbatim>\<open>thinPoolDevice\<close> not empty) and let the lookup of the base device (the empty
  hash) fail: the record is neither in the registry nor loadable from disk. Then
  \<^verbatim>\<open>setupBaseImage\<close> queries the pool status next (the only calls so far are the read of
  the base metadata file and \<^verbatim>\<open>GetStatus\<close>; no file changed), and: if the query
  fails, or the used data blocks are not zero, or they are zero and the transaction id is
  not zero, it returns that error with the DeviceSet unchanged (no id was allocated) and no
  further call, so no device was created; when both are zero it goes on with
  \<^verbatim>\<open>createRegisterDevice\<close> of the empty hash on that world, and then activation,
  formatting and the save of the initialized record, each error ending it.
\<close>

theorem setupBaseImage_refuses_used_pool:
  assumes "thinPoolDevice devices \<noteq> []"
    and "lookupDevice P devices [] w = (Inl e, devices1, w1)"
    and "poolStatus P devices w1 = (st, w2)"
    and "setupBaseImage P devices w = (r, devices', w')"
  shows "trace w2 = trace w @ [OsReadFile (metadataFile devices (newDevInfo [])),
                               DmGetStatus (getPoolName devices)] \<and>
         files w2 = files w \<and>
         (case st of
            Inl err \<Rightarrow> r = Some err \<and> devices' = devices \<and> w' = w2
          | Inr (totalSizeInSectors, transactionId, dataUsed, others) \<Rightarrow>
              (dataUsed \<noteq> 0 \<longrightarrow>
                 r = Some (PoolHasUsedData (thinPoolDevice devices)) \<and> devices' = devices \<and> w' = w2) \<and>
              (dataUsed = 0 \<and> transactionId \<noteq> 0 \<longrightarrow>
                 r = Some (PoolHasTransactionId (thinPoolDevice devices)) \<and> devices' = devices \<and> w' = w2) \<and>
              (dataUsed = 0 \<and> transactionId = 0 \<longrightarrow>
                 (case createRegisterDevice P devices [] w2 of
                    (Inl err, devices4, w4) \<Rightarrow> r = Some err \<and> devices' = devices4 \<and> w' = w4
                  | (Inr info, devices4, w4) \<Rightarrow>
                      (case activateDeviceIfNeeded P devices4 info w4 of
                         (Some err, w5) \<Rightarrow> r = Some err \<and> devices' = devices4 \<and> w' = w5
                       | (None, w5) \<Rightarrow>
                           (case createFilesystem P devices4 info w5 of
                              (Some err, w6) \<Rightarrow> r = Some err \<and> devices' = devices4 \<and> w' = w6
                            | (None, w6) \<Rightarrow>
                                (case saveMetadata P devices4 (info\<lparr>Initialized := True\<rparr>) w6 of
                                   (Some err, w7) \<Rightarrow> r = Some err \<and> devices' = devices4 \<and> w' = w7
                                 | (None, w7) \<Rightarrow>
                                     r = None \<and> w' = w7 \<and>
                                     devices' = devices4\<lparr>Devices := (Devices devices4)
                                       ([] \<mapsto> info\<lparr>Initialized := True\<rparr>)\<rparr>))))))"
  using assms by (rule setupBaseImage_external)

lemma lookupDevice_external:
  "lookupDevice (examplePlatform (poolReports t u)) externalDevices [] exampleWorld =
     (Inl (UnknownDevice []), externalDevices,
      exampleWorld\<lparr>trace := [OsReadFile ''/var/lib/docker/metadata/base'']\<rparr>)"
  by (simp add: lookupDevice_def loadMetadata_def osReadFile_def perform_def examplePlatform_def
        poolReports_def nominalAnswers_def externalDevices_def exampleWorld_def metadataFile_def
        metadataDir_def pathJoin_examples newDevInfo_def NewDeviceSet_literal_def Let_def)

lemma poolStatus_external:
  "poolStatus (examplePlatform (poolReports t u)) externalDevices
     (exampleWorld\<lparr>trace := [OsReadFile ''/var/lib/docker/metadata/base'']\<rparr>) =
     (Inr (1000, t, u, 100, 1, 10),
      exampleWorld\<lparr>trace := [OsReadFile ''/var/lib/docker/metadata/base'', DmGetStatus ''pool0'']\<rparr>)"
  by (simp add: poolStatus_def perform_def examplePlatform_def poolReports_def externalDevices_def
        exampleWorld_def getPoolName_def NewDeviceSet_literal_def)

theorem setupBaseImage_refuses_used_pool_witness:
  "setupBaseImage (examplePlatform (poolReports 0 12)) externalDevices exampleWorld =
     (Some (PoolHasUsedData ''pool0''), externalDevices,
      exampleWorld\<lparr>trace := [OsReadFile ''/var/lib/docker/metadata/base'', DmGetStatus ''pool0'']\<rparr>) \<and>
   setupBaseImage (examplePlatform (poolReports 7 0)) externalDevices exampleWorld =
     (Some (PoolHasTransactionId ''pool0''), externalDevices,
      exampleWorld\<lparr>trace := [OsReadFile ''/var/lib/docker/metadata/base'', DmGetStatus ''pool0'']\<rparr>)"
proof -
  have ext: "thinPoolDevice externalDevices \<noteq> []" "thinPoolDevice externalDevices = ''pool0''"
    by (simp_all add: externalDevices_def)
  obtain r d' w' where
    run: "setupBaseImage (examplePlatform (poolReports 0 12)) externalDevices exampleWorld = (r, d', w')"
    by (cases "setupBaseImage (examplePlatform (poolReports 0 12)) externalDevices exampleWorld") auto
  obtain r2 d2 w2 where
    run2: "setupBaseImage (examplePlatform (poolReports 7 0)) externalDevices exampleWorld = (r2, d2, w2)"
    by (cases "setupBaseImage (examplePlatform (poolReports 7 0)) externalDevices exampleWorld") auto
  from setupBaseImage_refuses_used_pool [OF ext(1) lookupDevice_external poolStatus_external run]
    setupBaseImage_refuses_used_pool [OF ext(1) lookupDevice_external poolStatus_external run2]
  show ?thesis unfolding run run2 by (simp add: ext(2))
qed

section \<open>Configuration of the discard work-around\<close>

lemma NewDeviceSet_options_other:
  assumes "NewDeviceSet_options P (option # options) devices found = Inr (devices', found')"
    and "\<not> isBlkDiscardOption P option"
  shows "\<exists>devices1. doBlkDiscard devices1 = doBlkDiscard devices \<and>
           NewDeviceSet_options P options devices1 found = Inr (devices', found')"
proof -
  from assms(1) obtain key val where kv: "ParseKeyValueOpt P option = Some (key, val)"
    by (cases "ParseKeyValueOpt P option") auto
  with assms(2) have nb: "ToLower P key \<noteq> ''dm.blkdiscard''"
    by (simp add: isBlkDiscardOption_def)
  let ?k = "ToLower P key"
  consider (basesize) "?k = ''dm.basesize''" | (loopdata) "?k = ''dm.loopdatasize''"
    | (loopmeta) "?k = ''dm.loopmetadatasize''" | (fs) "?k = ''dm.fs''"
    | (mkfsarg) "?k = ''dm.mkfsarg''" | (mountopt) "?k = ''dm.mountopt''"
    | (metadatadev) "?k = ''dm.metadatadev''" | (datadev) "?k = ''dm.datadev''"
    | (thinpooldev) "?k = ''dm.thinpooldev''" | (blocksize) "?k = ''dm.blocksize''"
    | (unknown) "?k \<notin> {''dm.basesize'', ''dm.loopdatasize'', ''dm.loopmetadatasize'', ''dm.fs'',
         ''dm.mkfsarg'', ''dm.mountopt'', ''dm.metadatadev'', ''dm.datadev'', ''dm.thinpooldev'',
         ''dm.blocksize''}"
    by blast
  then show ?thesis
  proof cases
    case basesize
    with assms(1) kv show ?thesis
      by (cases "RAMInBytes P val") (auto intro!: exI [of _ "devices\<lparr>baseFsSize := word_of_int _\<rparr>"])
  next
    case loopdata
    with assms(1) kv show ?thesis
      by (cases "RAMInBytes P val") (auto intro!: exI [of _ "devices\<lparr>dataLoopbackSize := _\<rparr>"])
  next
    case loopmeta
    with assms(1) kv show ?thesis
      by (cases "RAMInBytes P val") (auto intro!: exI [of _ "devices\<lparr>metaDataLoopbackSize := _\<rparr>"])
  next
    case fs
    with assms(1) kv show ?thesis
      by (auto split: if_splits intro!: exI [of _ "devices\<lparr>filesystem := val\<rparr>"])
  next
    case mkfsarg
    with assms(1) kv show ?thesis
      by (auto intro!: exI [of _ "devices\<lparr>mkfsArgs := mkfsArgs devices @ [val]\<rparr>"])
  next
    case mountopt
    with assms(1) kv show ?thesis
      by (auto intro!: exI [of _ "devices\<lparr>mountOptions := joinMountOptions P (mountOptions devices) val\<rparr>"])
  next
    case metadatadev
    with assms(1) kv show ?thesis
      by (auto intro!: exI [of _ "devices\<lparr>metadataDevice := val\<rparr>"])
  next
    case datadev
    with assms(1) kv show ?thesis
      by (auto intro!: exI [of _ "devices\<lparr>dataDevice := val\<rparr>"])
  next
    case thinpooldev
    with assms(1) kv show ?thesis
      by (auto intro!: exI [of _ "devices\<lparr>thinPoolDevice := TrimPrefix val ''/dev/mapper/''\<rparr>"])
  next
    case blocksize
    with assms(1) kv show ?thesis
      by (cases "RAMInBytes P val")
         (auto intro!: exI [of _ "devices\<lparr>thinpBlockSize := drop_bit 9 (word_of_int _)\<rparr>"])
  next
    case unknown
    with assms(1) kv nb show ?thesis by auto
  qed
qed

lemma NewDeviceSet_options_blkdiscard:
  assumes "NewDeviceSet_options P (option # options) devices found = Inr (devices', found')"
    and "isBlkDiscardOption P option"
  shows "\<exists>b. blkDiscardValue P option = Some b \<and>
           NewDeviceSet_options P options (devices\<lparr>doBlkDiscard := b\<rparr>) True = Inr (devices', found')"
proof -
  from assms(2) obtain key val where kv: "ParseKeyValueOpt P option = Some (key, val)"
    and k: "ToLower P key = ''dm.blkdiscard''"
    by (auto simp add: isBlkDiscardOption_def split: option.splits)
  with assms(1) show ?thesis
    by (cases "ParseBool P val") (auto simp add: blkDiscardValue_def)
qed

lemma NewDeviceSet_options_none:
  assumes "NewDeviceSet_options P options devices found = Inr (devices', found')"
    and "\<forall>option\<in>set options. \<not> isBlkDiscardOption P option"
  shows "doBlkDiscard devices' = doBlkDiscard devices \<and> found' = found"
  using assms
proof (induction options arbitrary: devices)
  case Nil
  then show ?case by simp
next
  case (Cons option options)
  from NewDeviceSet_options_other [OF Cons.prems(1)] Cons.prems(2)
  obtain devices1 where 1: "doBlkDiscard devices1 = doBlkDiscard devices"
    "NewDeviceSet_options P options devices1 found = Inr (devices', found')" by auto
  from Cons.IH [OF 1(2)] Cons.prems(2) 1(1) show ?case by simp
qed

lemma NewDeviceSet_options_last:
  assumes "NewDeviceSet_options P (pre @ option # post) devices found = Inr (devices', found')"
    and "isBlkDiscardOption P option" "blkDiscardValue P option = Some b"
    and "\<forall>other\<in>set post. \<not> isBlkDiscardOption P other"
  shows "doBlkDiscard devices' = b \<and> found'"
  using assms(1)
proof (induction pre arbitrary: devices found)
  case Nil
  then have run: "NewDeviceSet_options P (option # post) devices found = Inr (devices', found')"
    by simp
  from NewDeviceSet_options_blkdiscard [OF run assms(2)] assms(3)
  have "NewDeviceSet_options P post (devices\<lparr>doBlkDiscard := b\<rparr>) True = Inr (devices', found')"
    by simp
  from NewDeviceSet_options_none [OF this assms(4)] show ?case by simp
next
  case (Cons first pre)
  then have run: "NewDeviceSet_options P (first # (pre @ option # post)) devices found = Inr (devices', found')"
    by simp
  show ?case
  proof (cases "isBlkDiscardOption P first")
    case True
    from NewDeviceSet_options_blkdiscard [OF run True] Cons.IH show ?thesis by blast
  next
    case False
    from NewDeviceSet_options_other [OF run False] Cons.IH show ?thesis by blast
  qed
qed

lemma NewDeviceSet_configured:
  assumes parsed: "NewDeviceSet_options P options (NewDeviceSet_literal rootDir) False = Inr (devices, found)"
  shows "\<exists>configured.
           NewDeviceSet P initDevmapper rootDir doInit options w =
             (case initDevmapper configured doInit w of
                (Some err, devices', w') \<Rightarrow> (Inl err, w')
              | (None, devices', w') \<Rightarrow> (Inr devices', w')) \<and>
           configured = devices\<lparr>doBlkDiscard := doBlkDiscard configured\<rparr> \<and>
           ((\<forall>option\<in>set options. \<not> isBlkDiscardOption P option) \<longrightarrow>
              doBlkDiscard configured = (dataDevice configured = [] \<and> thinPoolDevice configured = [])) \<and>
           (\<forall>pre option post b.
              options = pre @ option # post \<and> isBlkDiscardOption P option \<and>
              blkDiscardValue P option = Some b \<and>
              (\<forall>other\<in>set post. \<not> isBlkDiscardOption P other) \<longrightarrow>
              doBlkDiscard configured = b)"
proof -
  let ?c = "if \<not> found \<and> (dataDevice devices \<noteq> [] \<or> thinPoolDevice devices \<noteq> [])
            then devices\<lparr>doBlkDiscard := False\<rparr> else devices"
  have run: "NewDeviceSet P initDevmapper rootDir doInit options w =
             (case initDevmapper ?c doInit w of
                (Some err, devices', w') \<Rightarrow> (Inl err, w')
              | (None, devices', w') \<Rightarrow> (Inr devices', w'))"
    using parsed by (simp add: NewDeviceSet_def Let_def)
  have shape: "?c = devices\<lparr>doBlkDiscard := doBlkDiscard ?c\<rparr>" by simp
  have none: "doBlkDiscard ?c = (dataDevice ?c = [] \<and> thinPoolDevice ?c = [])"
    if "\<forall>option\<in>set options. \<not> isBlkDiscardOption P option"
  proof -
    from NewDeviceSet_options_none [OF parsed that]
    have "doBlkDiscard devices" "\<not> found" by (simp_all add: NewDeviceSet_literal_def)
    then show ?thesis by auto
  qed
  have last: "doBlkDiscard ?c = b"
    if "options = pre @ option # post" "isBlkDiscardOption P option"
      "blkDiscardValue P option = Some b" "\<forall>other\<in>set post. \<not> isBlkDiscardOption P other"
    for pre option post b
  proof -
    from parsed that(1) have "NewDeviceSet_options P (pre @ option # post)
        (NewDeviceSet_literal rootDir) False = Inr (devices, found)" by simp
    from NewDeviceSet_options_last [OF this that(2,3,4)] show ?thesis by simp
  qed
  show ?thesis
    by (rule exI [of _ ?c]) (use run shape none last in blast)
qed


text \<open>
  C8. The default of \<^verbatim>\<open>doBlkDiscard\<close>. When the options parse without error,
  \<^verbatim>\<open>NewDeviceSet\<close> hands to \<^verbatim>\<open>initDevmapper\<close> (and returns what it leaves of) a DeviceSet
  that is the parsed one except perhaps for \<^verbatim>\<open>doBlkDiscard\<close>, and in it: when no option
  has the key \<^verbatim>\<open>dm.blkdiscard\<close>, the flag is true exactly when neither a data device nor a
  thin-pool device is configured (a loopback pool), and false as soon as one of them is;
  when the option is given, the flag is the value of its last occurrence, whatever the
  devices.
\<close>

theorem NewDeviceSet_blkdiscard_default:
  assumes "NewDeviceSet_options P options (NewDeviceSet_literal rootDir) False = Inr (devices, found)"
  shows "\<exists>configured.
           NewDeviceSet P initDevmapper rootDir doInit options w =
             (case initDevmapper configured doInit w of
                (Some err, devices', w') \<Rightarrow> (Inl err, w')
              | (None, devices', w') \<Rightarrow> (Inr devices', w')) \<and>
           configured = devices\<lparr>doBlkDiscard := doBlkDiscard configured\<rparr> \<and>
           ((\<forall>option\<in>set options. \<not> isBlkDiscardOption P option) \<longrightarrow>
              doBlkDiscard configured = (dataDevice configured = [] \<and> thinPoolDevice configured = [])) \<and>
           (\<forall>pre option post b.
              options = pre @ option # post \<and> isBlkDiscardOption P option \<and>
              blkDiscardValue P option = Some b \<and>
              (\<forall>other\<in>set post. \<not> isBlkDiscardOption P other) \<longrightarrow>
              doBlkDiscard configured = b)"
  using assms by (rule NewDeviceSet_configured)

lemma example_options:
  "ParseKeyValueOpt (examplePlatform a) ''dm.datadev=/dev/sdb'' = Some (''dm.datadev'', ''/dev/sdb'')"
  "ParseKeyValueOpt (examplePlatform a) ''dm.thinpooldev=/dev/mapper/pool0'' =
     Some (''dm.thinpooldev'', ''/dev/mapper/pool0'')"
  "ParseKeyValueOpt (examplePlatform a) ''dm.blkdiscard=true'' = Some (''dm.blkdiscard'', ''true'')"
  "ToLower (examplePlatform a) k = k"
  "ParseBool (examplePlatform a) ''true'' = Some True"
  by (simp_all add: examplePlatform_def)

lemma example_parse_datadev:
  "NewDeviceSet_options (examplePlatform a) [''dm.datadev=/dev/sdb''] (NewDeviceSet_literal r) False =
     Inr ((NewDeviceSet_literal r)\<lparr>dataDevice := ''/dev/sdb''\<rparr>, False)"
  by (simp add: example_options)

lemma example_parse_explicit:
  "NewDeviceSet_options (examplePlatform a) [''dm.thinpooldev=/dev/mapper/pool0'', ''dm.blkdiscard=true'']
     (NewDeviceSet_literal r) False =
     Inr ((NewDeviceSet_literal r)\<lparr>thinPoolDevice := ''pool0'', doBlkDiscard := True\<rparr>, True)"
  by (simp add: example_options TrimPrefix_def)

theorem NewDeviceSet_blkdiscard_default_witness:
  "(\<exists>d. NewDeviceSet (examplePlatform nominalAnswers) noInit ''/var/lib/docker'' True
           [''dm.datadev=/dev/sdb''] exampleWorld = (Inr d, exampleWorld) \<and>
        dataDevice d = ''/dev/sdb'' \<and> \<not> doBlkDiscard d) \<and>
   (\<exists>d. NewDeviceSet (examplePlatform nominalAnswers) noInit ''/var/lib/docker'' True
           [] exampleWorld = (Inr d, exampleWorld) \<and>
        dataDevice d = [] \<and> thinPoolDevice d = [] \<and> doBlkDiscard d) \<and>
   (\<exists>d. NewDeviceSet (examplePlatform nominalAnswers) noInit ''/var/lib/docker'' True
           [''dm.thinpooldev=/dev/mapper/pool0'', ''dm.blkdiscard=true''] exampleWorld =
           (Inr d, exampleWorld) \<and>
        thinPoolDevice d = ''pool0'' \<and> doBlkDiscard d)"
proof (intro conjI)
  let ?P = "examplePlatform nominalAnswers"
  let ?L = "NewDeviceSet_literal ''/var/lib/docker''"
  have nb: "\<not> isBlkDiscardOption ?P ''dm.datadev=/dev/sdb''"
    "\<not> isBlkDiscardOption ?P ''dm.thinpooldev=/dev/mapper/pool0''"
    "isBlkDiscardOption ?P ''dm.blkdiscard=true''"
    "blkDiscardValue ?P ''dm.blkdiscard=true'' = Some True"
    by (simp_all add: isBlkDiscardOption_def blkDiscardValue_def example_options)
  {
    from NewDeviceSet_blkdiscard_default [OF example_parse_datadev [of nominalAnswers "''/var/lib/docker''"],
        where initDevmapper = noInit and doInit = True and w = exampleWorld]
    obtain c where c: "NewDeviceSet ?P noInit ''/var/lib/docker'' True [''dm.datadev=/dev/sdb''] exampleWorld =
          (case noInit c True exampleWorld of
             (Some err, devices', w') \<Rightarrow> (Inl err, w') | (None, devices', w') \<Rightarrow> (Inr devices', w'))"
      "c = ?L\<lparr>dataDevice := ''/dev/sdb''\<rparr>\<lparr>doBlkDiscard := doBlkDiscard c\<rparr>"
      "(\<forall>option\<in>set [''dm.datadev=/dev/sdb'']. \<not> isBlkDiscardOption ?P option) \<longrightarrow>
         doBlkDiscard c = (dataDevice c = [] \<and> thinPoolDevice c = [])"
      by blast
    from c(2) have "dataDevice c = dataDevice (?L\<lparr>dataDevice := ''/dev/sdb''\<rparr>\<lparr>doBlkDiscard := doBlkDiscard c\<rparr>)"
      by (rule arg_cong)
    then have dd: "dataDevice c = ''/dev/sdb''" by simp
    with c(3) nb have "\<not> doBlkDiscard c" by simp
    with c(1) dd
    show "\<exists>d. NewDeviceSet ?P noInit ''/var/lib/docker'' True [''dm.datadev=/dev/sdb''] exampleWorld =
            (Inr d, exampleWorld) \<and> dataDevice d = ''/dev/sdb'' \<and> \<not> doBlkDiscard d"
      by (simp add: noInit_def)
  }
  {
    have parse: "NewDeviceSet_options ?P [] ?L False = Inr (?L, False)" by simp
    from NewDeviceSet_blkdiscard_default [OF parse,
        where initDevmapper = noInit and doInit = True and w = exampleWorld]
    obtain c where c: "NewDeviceSet ?P noInit ''/var/lib/docker'' True [] exampleWorld =
          (case noInit c True exampleWorld of
             (Some err, devices', w') \<Rightarrow> (Inl err, w') | (None, devices', w') \<Rightarrow> (Inr devices', w'))"
      "c = ?L\<lparr>doBlkDiscard := doBlkDiscard c\<rparr>"
      "(\<forall>option\<in>set []. \<not> isBlkDiscardOption ?P option) \<longrightarrow>
         doBlkDiscard c = (dataDevice c = [] \<and> thinPoolDevice c = [])"
      by blast
    from c(2) have "dataDevice c = dataDevice (?L\<lparr>doBlkDiscard := doBlkDiscard c\<rparr>)"
      "thinPoolDevice c = thinPoolDevice (?L\<lparr>doBlkDiscard := doBlkDiscard c\<rparr>)"
      by (rule arg_cong)+
    then have dd: "dataDevice c = []" "thinPoolDevice c = []"
      by (simp_all add: NewDeviceSet_literal_def)
    with c(3) have "doBlkDiscard c" by simp
    with c(1) dd
    show "\<exists>d. NewDeviceSet ?P noInit ''/var/lib/docker'' True [] exampleWorld = (Inr d, exampleWorld) \<and>
        dataDevice d = [] \<and> thinPoolDevice d = [] \<and> doBlkDiscard d"
      by (simp add: noInit_def)
  }
  {
    from NewDeviceSet_blkdiscard_default [OF example_parse_explicit [of nominalAnswers "''/var/lib/docker''"],
        where initDevmapper = noInit and doInit = True and w = exampleWorld]
    obtain c where c: "NewDeviceSet ?P noInit ''/var/lib/docker'' True
            [''dm.thinpooldev=/dev/mapper/pool0'', ''dm.blkdiscard=true''] exampleWorld =
          (case noInit c True exampleWorld of
             (Some err, devices', w') \<Rightarrow> (Inl err, w') | (None, devices', w') \<Rightarrow> (Inr devices', w'))"
      "c = ?L\<lparr>thinPoolDevice := ''pool0'', doBlkDiscard := True\<rparr>\<lparr>doBlkDiscard := doBlkDiscard c\<rparr>"
      "\<forall>pre option post b.
          [''dm.thinpooldev=/dev/mapper/pool0'', ''dm.blkdiscard=true''] = pre @ option # post \<and>
          isBlkDiscardOption ?P option \<and> blkDiscardValue ?P option = Some b \<and>
          (\<forall>other\<in>set post. \<not> isBlkDiscardOption ?P other) \<longrightarrow> doBlkDiscard c = b"
      by blast
    from c(2) have "thinPoolDevice c =
        thinPoolDevice (?L\<lparr>thinPoolDevice := ''pool0'', doBlkDiscard := True\<rparr>\<lparr>doBlkDiscard := doBlkDiscard c\<rparr>)"
      by (rule arg_cong)
    then have dd: "thinPoolDevice c = ''pool0''" by simp
    have "doBlkDiscard c = True"
      by (rule c(3) [rule_format, of "[''dm.thinpooldev=/dev/mapper/pool0'']" "''dm.blkdiscard=true''" "[]"])
         (simp add: nb)
    with c(1) dd
    show "\<exists>d. NewDeviceSet ?P noInit ''/var/lib/docker'' True
           [''dm.thinpooldev=/dev/mapper/pool0'', ''dm.blkdiscard=true''] exampleWorld =
           (Inr d, exampleWorld) \<and> thinPoolDevice d = ''pool0'' \<and> doBlkDiscard d"
      by (simp add: noInit_def)
  }
qed

section \<open>Calls of the transaction and registry operations\<close>

lemma reportedExisting_append:
  "reportedExisting P h (cs @ ds) = reportedExisting P h cs @ reportedExisting P (h @ cs) ds"
  by (induction cs arbitrary: h) simp_all

lemma reportedExisting_quiet:
  "\<forall>c\<in>set cs. \<not> isCreate c \<Longrightarrow> reportedExisting P h cs = []"
proof (induction cs arbitrary: h)
  case Nil
  then show ?case by simp
next
  case (Cons c cs)
  then have "\<not> isCreate c" by simp
  then have "(case c of
        DmCreateDevice pool deviceId \<Rightarrow>
          (if respond P (h @ [c]) = IdExists then [deviceId] else [])
      | DmCreateSnapDevice pool deviceId baseName baseId \<Rightarrow>
          (if respond P (h @ [c]) = IdExists then [deviceId] else [])
      | _ \<Rightarrow> []) = []"
    by (cases c) simp_all
  with Cons show ?case by simp
qed

lemma quietly_refl [simp]: "quietly w w"
  by (simp add: quietly_def)

lemma quietly_trans: "quietly w w1 \<Longrightarrow> quietly w1 w2 \<Longrightarrow> quietly w w2"
  by (fastforce simp add: quietly_def)

lemma quietly_step: "\<not> isCreate c \<Longrightarrow> quietly w (w\<lparr>trace := trace w @ [c]\<rparr>)"
  by (simp add: quietly_def)

lemma quietly_files [simp]: "quietly w (w'\<lparr>files := f\<rparr>) = quietly w w'"
  by (simp add: quietly_def)

lemma perform_quietly: "perform P c w = (r, w') \<Longrightarrow> \<not> isCreate c \<Longrightarrow> quietly w w'"
  by (auto simp add: perform_def quietly_def)

lemma invoke_quietly: "invoke P c w = (r, w') \<Longrightarrow> \<not> isCreate c \<Longrightarrow> quietly w w'"
  by (auto dest!: invoke_world simp add: quietly_def)

lemma osTempFile_quietly: "osTempFile P dir pfx w = (r, w') \<Longrightarrow> quietly w w'"
  by (cases r) (auto dest!: osTempFile_Inl osTempFile_Inr(3) simp add: quietly_def)

lemma osWrite_quietly: "osWrite P name bs w = (r, w') \<Longrightarrow> quietly w w'"
  by (auto dest!: osWrite_world(1) simp add: quietly_def)

lemma osRename_quietly: "osRename P old new w = (r, w') \<Longrightarrow> quietly w w'"
  by (auto dest!: osRename_world(1) simp add: quietly_def)

lemma osRemoveAll_quietly: "osRemoveAll P name w = (r, w') \<Longrightarrow> quietly w w'"
  by (auto dest!: osRemoveAll_world(1) simp add: quietly_def)

lemma writeMetaFile_quietly:
  assumes "writeMetaFile P devices jsonData filePath w = (r, w')"
  shows "quietly w w'"
proof -
  obtain t w1 where 1: "osTempFile P (metadataDir devices) ''.tmp'' w = (t, w1)" by force
  note q1 = osTempFile_quietly [OF 1]
  show ?thesis
  proof (cases t)
    case (Inl e)
    with assms 1 have "w' = w1" by (simp add: writeMetaFile_def)
    with q1 show ?thesis by simp
  next
    case (Inr tmp)
    obtain x w2 where 2: "osWrite P tmp jsonData w1 = (x, w2)" by force
    note q2 = quietly_trans [OF q1 osWrite_quietly [OF 2]]
    obtain r3 w3 where 3: "invoke P (OsSync tmp) w2 = (r3, w3)" by force
    have q3: "quietly w w3" by (rule quietly_trans [OF q2 invoke_quietly [OF 3]]) simp
    obtain r4 w4 where 4: "invoke P (OsClose tmp) w3 = (r4, w4)" by force
    have q4: "quietly w w4" by (rule quietly_trans [OF q3 invoke_quietly [OF 4]]) simp
    obtain r5 w5 where 5: "osRename P tmp filePath w4 = (r5, w5)" by force
    note q5 = quietly_trans [OF q4 osRename_quietly [OF 5]]
    from assms 1 Inr 2 3 4 5 have "w' = w2 \<or> w' = w3 \<or> w' = w4 \<or> w' = w5"
      by (auto simp add: writeMetaFile_def split: sum.splits if_splits option.splits)
    with q2 q3 q4 q5 show ?thesis by blast
  qed
qed

lemma saveTransactionMetaData_quietly:
  "saveTransactionMetaData P devices w = (r, w') \<Longrightarrow> quietly w w'"
  by (auto simp add: saveTransactionMetaData_def split: option.splits dest: writeMetaFile_quietly)

lemma saveMetadata_quietly: "saveMetadata P devices info w = (r, w') \<Longrightarrow> quietly w w'"
  by (auto simp add: saveMetadata_def split: option.splits dest: writeMetaFile_quietly)

lemma openTransaction_result:
  assumes "openTransaction P devices hash deviceId w = (r, devices', w')"
  shows "devices' = devices\<lparr>Transaction :=
           \<lparr>OpenTransactionId = DeviceSet.TransactionId devices + 1, DeviceIdHash = hash,
            Transaction.DeviceId = deviceId\<rparr>\<rparr>"
    "quietly w w'"
  using assms
  by (auto simp add: openTransaction_def allocateTransactionId_def Let_def
           split: prod.splits option.splits dest: saveTransactionMetaData_quietly)

lemma refreshTransaction_quietly:
  "refreshTransaction P devices deviceId w = (r, devices', w') \<Longrightarrow> quietly w w'"
  by (auto simp add: refreshTransaction_def Let_def
           split: prod.splits option.splits dest: saveTransactionMetaData_quietly)

lemma closeTransaction_result:
  assumes "closeTransaction P devices w = (r, devices', w')"
  shows "w' = w\<lparr>trace := trace w @ [DmSetTransactionId (getPoolDevName devices)
            (DeviceSet.TransactionId devices) (OpenTransactionId (Transaction devices))]\<rparr>"
    "r = None \<Longrightarrow> devices' = devices\<lparr>DeviceSet.TransactionId := OpenTransactionId (Transaction devices)\<rparr>"
    "r \<noteq> None \<Longrightarrow> devices' = devices"
  using assms
  by (auto simp add: closeTransaction_def updatePoolTransactionId_def
           split: prod.splits option.splits dest: invoke_world)

lemma closeTransaction_quietly: "closeTransaction P devices w = (r, devices', w') \<Longrightarrow> quietly w w'"
  by (auto dest!: closeTransaction_result(1) simp add: quietly_def)

lemma registerDevice_result:
  assumes "registerDevice P devices ident hash sz transactionId w = (r, devices', w')"
  shows "quietly w w'"
    "r = Inr info \<Longrightarrow>
       info = \<lparr>Hash = hash, DevInfo.DeviceId = ident, Size = sz,
               DevInfo.TransactionId = transactionId, Initialized = False,
               mountCount = 0, mountPath = []\<rparr> \<and>
       devices' = devices\<lparr>Devices := (Devices devices)(hash \<mapsto> info)\<rparr>"
    "r = Inl e \<Longrightarrow> devices' = devices\<lparr>Devices := (Devices devices)(hash := None)\<rparr>"
  using assms
  by (auto simp add: registerDevice_def Let_def
           split: prod.splits option.splits dest: saveMetadata_quietly)

lemma unregisterDevice_result:
  assumes "unregisterDevice P devices ident hash w = (r, devices', w')"
  shows "quietly w w'" "devices' = devices\<lparr>Devices := (Devices devices)(hash := None)\<rparr>"
  using assms
  by (auto simp add: unregisterDevice_def removeMetadata_def Let_def
           split: prod.splits option.splits dest: osRemoveAll_quietly)

lemma freeIdAndFail_result:
  assumes "freeIdAndFail devices deviceId err w = (r, devices', w')"
    and "0 \<le> deviceId" "deviceId \<le> MaxDeviceId"
  shows "r = Inl err" "w' = w" "markDeviceIdFree devices deviceId = Inr devices'"
  using assms by (auto simp add: freeIdAndFail_def markDeviceIdFree_valid)

lemma allocatorFrame_refl [simp]: "allocatorFrame d d"
  unfolding allocatorFrame_def
  by (rule exI [of _ "NextDeviceId d"], rule exI [of _ "deviceIdMap d"],
      rule exI [of _ "Transaction.DeviceId (Transaction d)"]) simp

lemma allocatorFrame_trans:
  assumes "allocatorFrame a b" "allocatorFrame b c"
  shows "allocatorFrame a c"
proof -
  from assms(1) obtain n m x where b: "b = a\<lparr>NextDeviceId := n, deviceIdMap := m,
      Transaction := (Transaction a)\<lparr>Transaction.DeviceId := x\<rparr>\<rparr>"
    by (auto simp add: allocatorFrame_def)
  from assms(2) obtain n' m' x' where c: "c = b\<lparr>NextDeviceId := n', deviceIdMap := m',
      Transaction := (Transaction b)\<lparr>Transaction.DeviceId := x'\<rparr>\<rparr>"
    by (auto simp add: allocatorFrame_def)
  have "c = a\<lparr>NextDeviceId := n', deviceIdMap := m',
      Transaction := (Transaction a)\<lparr>Transaction.DeviceId := x'\<rparr>\<rparr>"
    unfolding c b by simp
  then show ?thesis unfolding allocatorFrame_def by blast
qed

lemma allocatorFrame_fields:
  assumes "allocatorFrame d d'"
  shows "Devices d' = Devices d" "DeviceSet.TransactionId d' = DeviceSet.TransactionId d"
    "OpenTransactionId (Transaction d') = OpenTransactionId (Transaction d)"
    "DeviceIdHash (Transaction d') = DeviceIdHash (Transaction d)"
    "root d' = root d" "devicePrefix d' = devicePrefix d" "thinPoolDevice d' = thinPoolDevice d"
    "baseFsSize d' = baseFsSize d" "doBlkDiscard d' = doBlkDiscard d"
proof -
  from assms obtain n m x where e: "d' = d\<lparr>NextDeviceId := n, deviceIdMap := m,
      Transaction := (Transaction d)\<lparr>Transaction.DeviceId := x\<rparr>\<rparr>"
    by (auto simp add: allocatorFrame_def)
  show "Devices d' = Devices d" "DeviceSet.TransactionId d' = DeviceSet.TransactionId d"
    "OpenTransactionId (Transaction d') = OpenTransactionId (Transaction d)"
    "DeviceIdHash (Transaction d') = DeviceIdHash (Transaction d)"
    "root d' = root d" "devicePrefix d' = devicePrefix d" "thinPoolDevice d' = thinPoolDevice d"
    "baseFsSize d' = baseFsSize d" "doBlkDiscard d' = doBlkDiscard d"
    unfolding e by simp_all
qed

lemma allocatorFrame_names:
  assumes "allocatorFrame d d'"
  shows "getPoolDevName d' = getPoolDevName d" "metadataDir d' = metadataDir d"
    "transactionMetaFile d' = transactionMetaFile d" "Name d' info = Name d info"
  using allocatorFrame_fields [OF assms]
  by (simp_all add: getPoolDevName_def getPoolName_def metadataDir_def transactionMetaFile_def
        Name_def)

lemma getNextFreeDeviceId_frame:
  "getNextFreeDeviceId d = (r, d') \<Longrightarrow> allocatorFrame d d'"
proof (cases r)
  case (Inl e)
  assume "getNextFreeDeviceId d = (r, d')"
  with Inl getNextFreeDeviceId_Inl(2) [of d e d']
  have "d' = d\<lparr>NextDeviceId := (NextDeviceId d + 1) mod 2 ^ 24, deviceIdMap := deviceIdMap d,
      Transaction := (Transaction d)\<lparr>Transaction.DeviceId := Transaction.DeviceId (Transaction d)\<rparr>\<rparr>"
    by simp
  then show ?thesis unfolding allocatorFrame_def by blast
next
  case (Inr x)
  assume "getNextFreeDeviceId d = (r, d')"
  with Inr have g: "getNextFreeDeviceId d = (Inr x, d')" by simp
  note f = getNextFreeDeviceId_Inr [OF g]
  from f(4) f(1,2)
  have "d' = d\<lparr>NextDeviceId := x, deviceIdMap := deviceIdMap d',
      Transaction := (Transaction d)\<lparr>Transaction.DeviceId := Transaction.DeviceId (Transaction d)\<rparr>\<rparr>"
    by (auto simp add: markDeviceIdUsed_valid)
  then show ?thesis unfolding allocatorFrame_def by blast
qed

lemma refreshTransaction_frame:
  assumes "refreshTransaction P d x w = (r, d', w')"
  shows "allocatorFrame d d'"
proof -
  from refreshTransaction_devices [OF assms]
  have "d' = d\<lparr>NextDeviceId := NextDeviceId d, deviceIdMap := deviceIdMap d,
      Transaction := (Transaction d)\<lparr>Transaction.DeviceId := x\<rparr>\<rparr>"
    by simp
  then show ?thesis unfolding allocatorFrame_def by blast
qed

lemma markDeviceIdFree_allocatorFrame:
  assumes "markDeviceIdFree d x = Inr d'"
  shows "allocatorFrame d d'"
proof -
  have "d\<lparr>deviceIdMap := deviceIdMap d'\<rparr> =
      d\<lparr>NextDeviceId := NextDeviceId d, deviceIdMap := deviceIdMap d',
      Transaction := (Transaction d)\<lparr>Transaction.DeviceId := Transaction.DeviceId (Transaction d)\<rparr>\<rparr>"
    by simp
  with markDeviceIdFree_frame [OF assms]
  have "d' = d\<lparr>NextDeviceId := NextDeviceId d, deviceIdMap := deviceIdMap d',
      Transaction := (Transaction d)\<lparr>Transaction.DeviceId := Transaction.DeviceId (Transaction d)\<rparr>\<rparr>"
    by (rule trans)
  then show ?thesis unfolding allocatorFrame_def by blast
qed

section \<open>The retry loops of the create paths\<close>

declare createRegisterDevice_loop.simps [simp del] createRegisterSnapDevice_loop.simps [simp del]

lemma isDeviceIdFree_allocated:
  assumes g: "getNextFreeDeviceId d = (Inr i, d1)" and m: "deviceIdMap d2 = deviceIdMap d1"
    and x: "0 \<le> x" "x \<le> MaxDeviceId"
  shows "(isDeviceIdFree d2 x = Inr False) = (x = i \<or> isDeviceIdFree d x = Inr False)"
proof -
  note f = getNextFreeDeviceId_Inr [OF g]
  have "isDeviceIdFree d2 x = isDeviceIdFree d1 x" by (rule isDeviceIdFree_same_map [OF m])
  also have "\<dots> = (if x = i then Inr False else isDeviceIdFree d x)"
    using isDeviceIdFree_after_mark [OF f(1,2) x f(4)] by simp
  finally show ?thesis by simp
qed

lemma createRegisterDevice_loop_result:
  assumes "createRegisterDevice_loop P d i w = (res, d', w')"
    and "0 \<le> i" "i \<le> MaxDeviceId" "isDeviceIdFree d i = Inr False"
  shows "allocatorFrame d d' \<and>
         (\<exists>cs. trace w' = trace w @ cs \<and>
            (\<forall>x. 0 \<le> x \<and> x \<le> MaxDeviceId \<longrightarrow>
               (isDeviceIdFree d' x = Inr False) =
               (isDeviceIdFree d x = Inr False \<and> x \<noteq> i \<or>
                x \<in> set (reportedExisting P (trace w) cs) \<or> res = Inr x)) \<and>
            (\<forall>j. res = Inr j \<longrightarrow> j \<notin> set (reportedExisting P (trace w) cs))) \<and>
         (\<forall>j. res = Inr j \<longrightarrow>
            0 \<le> j \<and> j \<le> MaxDeviceId \<and> (j = i \<or> isDeviceIdFree d j = Inr True))"
  using assms
proof (induction P d i w arbitrary: res d' w' rule: createRegisterDevice_loop.induct)
  case (1 P d i w)
  let ?c = "DmCreateDevice (getPoolDevName d) i"
  obtain r w1 where p: "perform P ?c w = (r, w1)" by force
  from p have r: "r = respond P (trace w @ [?c])" and w1: "trace w1 = trace w @ [?c]"
    by (auto simp add: perform_def)
  note run = "1.prems"(1) [unfolded createRegisterDevice_loop.simps [of P d i w] p prod.case]
  note i = "1.prems"(2,3) and used = "1.prems"(4)
  consider (ok) "r = Success" | (exists) "r = IdExists" | (other) "r \<noteq> Success" "r \<noteq> IdExists"
    by blast
  then show ?case
  proof cases
    case ok
    with run have res: "res = Inr i" "d' = d" "w' = w1" by simp_all
    have re: "reportedExisting P (trace w) [?c] = []" using r ok by simp
    show ?thesis
      unfolding res
      using w1 re i used by (auto intro!: exI [of _ "[?c]"])
  next
    case other
    with run have f: "freeIdAndFail d i (External r) w1 = (res, d', w')" by simp
    note F = freeIdAndFail_result [OF f i]
    have re: "reportedExisting P (trace w) [?c] = []" using r other by simp
    have free: "isDeviceIdFree d' x = (if x = i then Inr True else isDeviceIdFree d x)"
      if "0 \<le> x" "x \<le> MaxDeviceId" for x
      using isDeviceIdFree_after_free [OF i that F(3)] .
    show ?thesis
      using F(1,2) w1 re free markDeviceIdFree_allocatorFrame [OF F(3)]
      by (auto intro!: exI [of _ "[?c]"])
  next
    case exists
    have re: "reportedExisting P (trace w) [?c] = [i]" using r exists by simp
    obtain g d1 where g: "getNextFreeDeviceId d = (g, d1)" by force
    note fr1 = getNextFreeDeviceId_frame [OF g]
    show ?thesis
    proof (cases g)
      case (Inl e)
      with run exists g have res: "res = Inl e" "d' = d1" "w' = w1" by simp_all
      from g Inl have "d1 = d\<lparr>NextDeviceId := (NextDeviceId d + 1) mod 2 ^ 24\<rparr>"
        using getNextFreeDeviceId_Inl(2) by simp
      then have same: "isDeviceIdFree d1 x = isDeviceIdFree d x" for x by simp
      show ?thesis
        unfolding res
        using w1 re fr1 same used by (auto intro!: exI [of _ "[?c]"])
    next
      case (Inr j)
      with g have gj: "getNextFreeDeviceId d = (Inr j, d1)" by simp
      note J = getNextFreeDeviceId_Inr [OF gj]
      obtain ig d2 w2 where rf: "refreshTransaction P d1 j w1 = (ig, d2, w2)"
        by (cases "refreshTransaction P d1 j w1") auto
      note fr2 = refreshTransaction_frame [OF rf]
      from refreshTransaction_devices [OF rf] have m: "deviceIdMap d2 = deviceIdMap d1" by simp
      from refreshTransaction_quietly [OF rf] obtain cs2 where
        cs2: "trace w2 = trace w1 @ cs2" "\<forall>c\<in>set cs2. \<not> isCreate c"
        by (auto simp add: quietly_def)
      from run exists g Inr rf have rec: "createRegisterDevice_loop P d2 j w2 = (res, d', w')"
        by simp
      have usedj: "isDeviceIdFree d2 j = Inr False"
        using isDeviceIdFree_allocated [OF gj m J(1,2)] by simp
      have "allocatorFrame d2 d' \<and>
         (\<exists>cs. trace w' = trace w2 @ cs \<and>
            (\<forall>x. 0 \<le> x \<and> x \<le> MaxDeviceId \<longrightarrow>
               (isDeviceIdFree d' x = Inr False) =
               (isDeviceIdFree d2 x = Inr False \<and> x \<noteq> j \<or>
                x \<in> set (reportedExisting P (trace w2) cs) \<or> res = Inr x)) \<and>
            (\<forall>k. res = Inr k \<longrightarrow> k \<notin> set (reportedExisting P (trace w2) cs))) \<and>
         (\<forall>k. res = Inr k \<longrightarrow>
            0 \<le> k \<and> k \<le> MaxDeviceId \<and> (k = j \<or> isDeviceIdFree d2 k = Inr True))"
        using exists
        by (intro "1.IH" [OF p [symmetric] _ _ g [symmetric] Inr rf [symmetric] refl rec J(1,2) usedj])
           simp_all
      then obtain cs3 where ih: "allocatorFrame d2 d'" "trace w' = trace w2 @ cs3"
        "\<And>x. 0 \<le> x \<Longrightarrow> x \<le> MaxDeviceId \<Longrightarrow>
               (isDeviceIdFree d' x = Inr False) =
               (isDeviceIdFree d2 x = Inr False \<and> x \<noteq> j \<or>
                x \<in> set (reportedExisting P (trace w2) cs3) \<or> res = Inr x)"
        "\<And>k. res = Inr k \<Longrightarrow> k \<notin> set (reportedExisting P (trace w2) cs3)"
        "\<And>k. res = Inr k \<Longrightarrow>
            0 \<le> k \<and> k \<le> MaxDeviceId \<and> (k = j \<or> isDeviceIdFree d2 k = Inr True)"
        by blast
      have fr: "allocatorFrame d d'"
        by (rule allocatorFrame_trans [OF allocatorFrame_trans [OF fr1 fr2] ih(1)])
      have tr: "trace w' = trace w @ ([?c] @ cs2 @ cs3)" using ih(2) cs2(1) w1 by simp
      have rep: "reportedExisting P (trace w) ([?c] @ cs2 @ cs3) =
          i # reportedExisting P (trace w2) cs3"
      proof -
        have "reportedExisting P (trace w) ([?c] @ cs2 @ cs3) =
            reportedExisting P (trace w) [?c] @
            (reportedExisting P (trace w @ [?c]) cs2 @
             reportedExisting P ((trace w @ [?c]) @ cs2) cs3)"
          by (simp only: reportedExisting_append)
        also have "\<dots> = [i] @ ([] @ reportedExisting P (trace w2) cs3)"
          by (simp only: re reportedExisting_quiet [OF cs2(2)] cs2(1) w1)
        finally show ?thesis by simp
      qed
      have bits: "(isDeviceIdFree d' x = Inr False) =
               (isDeviceIdFree d x = Inr False \<and> x \<noteq> i \<or>
                x \<in> set (reportedExisting P (trace w) ([?c] @ cs2 @ cs3)) \<or> res = Inr x)"
        if x: "0 \<le> x" "x \<le> MaxDeviceId" for x
      proof -
        have a: "(isDeviceIdFree d2 x = Inr False \<and> x \<noteq> j) = (isDeviceIdFree d x = Inr False)"
          using isDeviceIdFree_allocated [OF gj m x] J(3) by auto
        show ?thesis
          unfolding rep ih(3) [OF x] a using used by auto
      qed
      have fresh: "0 \<le> k \<and> k \<le> MaxDeviceId \<and> (k = i \<or> isDeviceIdFree d k = Inr True) \<and>
          k \<notin> set (reportedExisting P (trace w) ([?c] @ cs2 @ cs3))"
        if k: "res = Inr k" for k
      proof -
        note K = ih(5) [OF k]
        then have kr: "0 \<le> k" "k \<le> MaxDeviceId" by simp_all
        have free: "isDeviceIdFree d k = Inr True"
        proof (cases "k = j")
          case True
          with J(3) show ?thesis by simp
        next
          case False
          with K have "isDeviceIdFree d2 k = Inr True" by simp
          then have "isDeviceIdFree d2 k \<noteq> Inr False" by simp
          with isDeviceIdFree_allocated [OF gj m kr] have "isDeviceIdFree d k \<noteq> Inr False" by simp
          then show ?thesis using kr by (simp add: isDeviceIdFree_valid)
        qed
        with used have "k \<noteq> i" by auto
        with ih(4) [OF k] free kr show ?thesis unfolding rep by simp
      qed
      from fr tr bits fresh show ?thesis by blast
    qed
  qed
qed

lemma createRegisterSnapDevice_loop_result:
  assumes "createRegisterSnapDevice_loop P d b i w = (res, d', w')"
    and "0 \<le> i" "i \<le> MaxDeviceId" "isDeviceIdFree d i = Inr False"
  shows "allocatorFrame d d' \<and>
         (\<exists>cs. trace w' = trace w @ cs \<and>
            (\<forall>x. 0 \<le> x \<and> x \<le> MaxDeviceId \<longrightarrow>
               (isDeviceIdFree d' x = Inr False) =
               (isDeviceIdFree d x = Inr False \<and> x \<noteq> i \<or>
                x \<in> set (reportedExisting P (trace w) cs) \<or> res = Inr x)) \<and>
            (\<forall>j. res = Inr j \<longrightarrow> j \<notin> set (reportedExisting P (trace w) cs))) \<and>
         (\<forall>j. res = Inr j \<longrightarrow>
            0 \<le> j \<and> j \<le> MaxDeviceId \<and> (j = i \<or> isDeviceIdFree d j = Inr True))"
  using assms
proof (induction P d b i w arbitrary: res d' w' rule: createRegisterSnapDevice_loop.induct)
  case (1 P d b i w)
  let ?c = "DmCreateSnapDevice (getPoolDevName d) i (Name d b) (DevInfo.DeviceId b)"
  obtain r w1 where p: "perform P ?c w = (r, w1)" by force
  from p have r: "r = respond P (trace w @ [?c])" and w1: "trace w1 = trace w @ [?c]"
    by (auto simp add: perform_def)
  note run = "1.prems"(1) [unfolded createRegisterSnapDevice_loop.simps [of P d b i w] p prod.case]
  note i = "1.prems"(2,3) and used = "1.prems"(4)
  consider (ok) "r = Success" | (exists) "r = IdExists" | (other) "r \<noteq> Success" "r \<noteq> IdExists"
    by blast
  then show ?case
  proof cases
    case ok
    with run have res: "res = Inr i" "d' = d" "w' = w1" by simp_all
    have re: "reportedExisting P (trace w) [?c] = []" using r ok by simp
    show ?thesis
      unfolding res
      using w1 re i used by (auto intro!: exI [of _ "[?c]"])
  next
    case other
    with run have f: "freeIdAndFail d i (External r) w1 = (res, d', w')" by simp
    note F = freeIdAndFail_result [OF f i]
    have re: "reportedExisting P (trace w) [?c] = []" using r other by simp
    have free: "isDeviceIdFree d' x = (if x = i then Inr True else isDeviceIdFree d x)"
      if "0 \<le> x" "x \<le> MaxDeviceId" for x
      using isDeviceIdFree_after_free [OF i that F(3)] .
    show ?thesis
      using F(1,2) w1 re free markDeviceIdFree_allocatorFrame [OF F(3)]
      by (auto intro!: exI [of _ "[?c]"])
  next
    case exists
    have re: "reportedExisting P (trace w) [?c] = [i]" using r exists by simp
    obtain g d1 where g: "getNextFreeDeviceId d = (g, d1)" by force
    note fr1 = getNextFreeDeviceId_frame [OF g]
    show ?thesis
    proof (cases g)
      case (Inl e)
      with run exists g have res: "res = Inl e" "d' = d1" "w' = w1" by simp_all
      from g Inl have "d1 = d\<lparr>NextDeviceId := (NextDeviceId d + 1) mod 2 ^ 24\<rparr>"
        using getNextFreeDeviceId_Inl(2) by simp
      then have same: "isDeviceIdFree d1 x = isDeviceIdFree d x" for x by simp
      show ?thesis
        unfolding res
        using w1 re fr1 same used by (auto intro!: exI [of _ "[?c]"])
    next
      case (Inr j)
      with g have gj: "getNextFreeDeviceId d = (Inr j, d1)" by simp
      note J = getNextFreeDeviceId_Inr [OF gj]
      obtain ig d2 w2 where rf: "refreshTransaction P d1 j w1 = (ig, d2, w2)"
        by (cases "refreshTransaction P d1 j w1") auto
      note fr2 = refreshTransaction_frame [OF rf]
      from refreshTransaction_devices [OF rf] have m: "deviceIdMap d2 = deviceIdMap d1" by simp
      from refreshTransaction_quietly [OF rf] obtain cs2 where
        cs2: "trace w2 = trace w1 @ cs2" "\<forall>c\<in>set cs2. \<not> isCreate c"
        by (auto simp add: quietly_def)
      from run exists g Inr rf have rec: "createRegisterSnapDevice_loop P d2 b j w2 = (res, d', w')"
        by simp
      have usedj: "isDeviceIdFree d2 j = Inr False"
        using isDeviceIdFree_allocated [OF gj m J(1,2)] by simp
      have "allocatorFrame d2 d' \<and>
         (\<exists>cs. trace w' = trace w2 @ cs \<and>
            (\<forall>x. 0 \<le> x \<and> x \<le> MaxDeviceId \<longrightarrow>
               (isDeviceIdFree d' x = Inr False) =
               (isDeviceIdFree d2 x = Inr False \<and> x \<noteq> j \<or>
                x \<in> set (reportedExisting P (trace w2) cs) \<or> res = Inr x)) \<and>
            (\<forall>k. res = Inr k \<longrightarrow> k \<notin> set (reportedExisting P (trace w2) cs))) \<and>
         (\<forall>k. res = Inr k \<longrightarrow>
            0 \<le> k \<and> k \<le> MaxDeviceId \<and> (k = j \<or> isDeviceIdFree d2 k = Inr True))"
        using exists
        by (intro "1.IH" [OF p [symmetric] _ _ g [symmetric] Inr rf [symmetric] refl rec J(1,2) usedj])
           simp_all
      then obtain cs3 where ih: "allocatorFrame d2 d'" "trace w' = trace w2 @ cs3"
        "\<And>x. 0 \<le> x \<Longrightarrow> x \<le> MaxDeviceId \<Longrightarrow>
               (isDeviceIdFree d' x = Inr False) =
               (isDeviceIdFree d2 x = Inr False \<and> x \<noteq> j \<or>
                x \<in> set (reportedExisting P (trace w2) cs3) \<or> res = Inr x)"
        "\<And>k. res = Inr k \<Longrightarrow> k \<notin> set (reportedExisting P (trace w2) cs3)"
        "\<And>k. res = Inr k \<Longrightarrow>
            0 \<le> k \<and> k \<le> MaxDeviceId \<and> (k = j \<or> isDeviceIdFree d2 k = Inr True)"
        by blast
      have fr: "allocatorFrame d d'"
        by (rule allocatorFrame_trans [OF allocatorFrame_trans [OF fr1 fr2] ih(1)])
      have tr: "trace w' = trace w @ ([?c] @ cs2 @ cs3)" using ih(2) cs2(1) w1 by simp
      have rep: "reportedExisting P (trace w) ([?c] @ cs2 @ cs3) =
          i # reportedExisting P (trace w2) cs3"
      proof -
        have "reportedExisting P (trace w) ([?c] @ cs2 @ cs3) =
            reportedExisting P (trace w) [?c] @
            (reportedExisting P (trace w @ [?c]) cs2 @
             reportedExisting P ((trace w @ [?c]) @ cs2) cs3)"
          by (simp only: reportedExisting_append)
        also have "\<dots> = [i] @ ([] @ reportedExisting P (trace w2) cs3)"
          by (simp only: re reportedExisting_quiet [OF cs2(2)] cs2(1) w1)
        finally show ?thesis by simp
      qed
      have bits: "(isDeviceIdFree d' x = Inr False) =
               (isDeviceIdFree d x = Inr False \<and> x \<noteq> i \<or>
                x \<in> set (reportedExisting P (trace w) ([?c] @ cs2 @ cs3)) \<or> res = Inr x)"
        if x: "0 \<le> x" "x \<le> MaxDeviceId" for x
      proof -
        have a: "(isDeviceIdFree d2 x = Inr False \<and> x \<noteq> j) = (isDeviceIdFree d x = Inr False)"
          using isDeviceIdFree_allocated [OF gj m x] J(3) by auto
        show ?thesis
          unfolding rep ih(3) [OF x] a using used by auto
      qed
      have fresh: "0 \<le> k \<and> k \<le> MaxDeviceId \<and> (k = i \<or> isDeviceIdFree d k = Inr True) \<and>
          k \<notin> set (reportedExisting P (trace w) ([?c] @ cs2 @ cs3))"
        if k: "res = Inr k" for k
      proof -
        note K = ih(5) [OF k]
        then have kr: "0 \<le> k" "k \<le> MaxDeviceId" by simp_all
        have free: "isDeviceIdFree d k = Inr True"
        proof (cases "k = j")
          case True
          with J(3) show ?thesis by simp
        next
          case False
          with K have "isDeviceIdFree d2 k = Inr True" by simp
          then have "isDeviceIdFree d2 k \<noteq> Inr False" by simp
          with isDeviceIdFree_allocated [OF gj m kr] have "isDeviceIdFree d k \<noteq> Inr False" by simp
          then show ?thesis using kr by (simp add: isDeviceIdFree_valid)
        qed
        with used have "k \<noteq> i" by auto
        with ih(4) [OF k] free kr show ?thesis unfolding rep by simp
      qed
      from fr tr bits fresh show ?thesis by blast
    qed
  qed
qed

lemma reportedExisting_quietly:
  assumes "quietly w w'"
  shows "\<exists>cs. trace w' = trace w @ cs \<and> reportedExisting P (trace w) cs = []"
  using assms reportedExisting_quiet by (auto simp add: quietly_def)

lemma reportedExisting_sandwich:
  assumes "quietly w w2" "trace w3 = trace w2 @ cs3" "quietly w3 w'"
  shows "\<exists>cs. trace w' = trace w @ cs \<and>
              reportedExisting P (trace w) cs = reportedExisting P (trace w2) cs3"
proof -
  from assms(1) obtain cs2 where 2: "trace w2 = trace w @ cs2" "\<forall>c\<in>set cs2. \<not> isCreate c"
    by (auto simp add: quietly_def)
  from assms(3) obtain cs4 where 4: "trace w' = trace w3 @ cs4" "\<forall>c\<in>set cs4. \<not> isCreate c"
    by (auto simp add: quietly_def)
  have "reportedExisting P (trace w) (cs2 @ (cs3 @ cs4)) =
      reportedExisting P (trace w) cs2 @
      (reportedExisting P (trace w @ cs2) cs3 @ reportedExisting P ((trace w @ cs2) @ cs3) cs4)"
    by (simp only: reportedExisting_append)
  also have "\<dots> = [] @ (reportedExisting P (trace w2) cs3 @ [])"
    by (simp only: reportedExisting_quiet [OF 2(2)] reportedExisting_quiet [OF 4(2)] 2(1))
  finally have "reportedExisting P (trace w) (cs2 @ (cs3 @ cs4)) = reportedExisting P (trace w2) cs3"
    by simp
  moreover have "trace w' = trace w @ (cs2 @ (cs3 @ cs4))" using 2(1) 4(1) assms(2) by simp
  ultimately show ?thesis by blast
qed

lemma freeIdAndFail_bits:
  assumes f: "freeIdAndFail dX i err wX = (res, d', w')"
    and i: "0 \<le> i" "i \<le> MaxDeviceId"
    and m: "deviceIdMap dX = deviceIdMap dY"
  shows "res = Inl err" "w' = wX" "allocatorFrame dX d'"
    "0 \<le> x \<Longrightarrow> x \<le> MaxDeviceId \<Longrightarrow>
     (isDeviceIdFree d' x = Inr False) = (isDeviceIdFree dY x = Inr False \<and> x \<noteq> i)"
proof -
  note F = freeIdAndFail_result [OF f i]
  show "res = Inl err" "w' = wX" by (rule F)+
  show "allocatorFrame dX d'" by (rule markDeviceIdFree_allocatorFrame [OF F(3)])
  assume x: "0 \<le> x" "x \<le> MaxDeviceId"
  have "isDeviceIdFree d' x = (if x = i then Inr True else isDeviceIdFree dX x)"
    by (rule isDeviceIdFree_after_free [OF i x F(3)])
  also have "isDeviceIdFree dX x = isDeviceIdFree dY x" by (rule isDeviceIdFree_same_map [OF m])
  finally show "(isDeviceIdFree d' x = Inr False) = (isDeviceIdFree dY x = Inr False \<and> x \<noteq> i)"
    by auto
qed

lemma createRegisterDevice_result:
  assumes run: "createRegisterDevice P d hash w = (res, d', w')"
  shows "\<exists>cs. trace w' = trace w @ cs \<and>
           (\<forall>x. 0 \<le> x \<and> x \<le> MaxDeviceId \<longrightarrow>
              (isDeviceIdFree d' x = Inr False) =
              (isDeviceIdFree d x = Inr False \<or> x \<in> set (reportedExisting P (trace w) cs) \<or>
               (\<exists>info. res = Inr info \<and> DevInfo.DeviceId info = x)))"
    and "\<And>info. res = Inr info \<Longrightarrow>
           DeviceSet.TransactionId d' = DeviceSet.TransactionId d + 1 \<and>
           DevInfo.TransactionId info = DeviceSet.TransactionId d' \<and>
           Devices d' hash = Some info \<and> Hash info = hash \<and> Size info = baseFsSize d \<and>
           0 \<le> DevInfo.DeviceId info \<and> DevInfo.DeviceId info \<le> MaxDeviceId"
    and "\<And>e. res = Inl e \<Longrightarrow> DeviceSet.TransactionId d' = DeviceSet.TransactionId d"
proof -
  let ?U = "\<lambda>d x. isDeviceIdFree d x = Inr False"
  let ?goal1 = "\<exists>cs. trace w' = trace w @ cs \<and>
           (\<forall>x. 0 \<le> x \<and> x \<le> MaxDeviceId \<longrightarrow>
              ?U d' x =
              (?U d x \<or> x \<in> set (reportedExisting P (trace w) cs) \<or>
               (\<exists>info. res = Inr info \<and> DevInfo.DeviceId info = x)))"
  let ?goal2 = "\<forall>info. res = Inr info \<longrightarrow>
           DeviceSet.TransactionId d' = DeviceSet.TransactionId d + 1 \<and>
           DevInfo.TransactionId info = DeviceSet.TransactionId d' \<and>
           Devices d' hash = Some info \<and> Hash info = hash \<and> Size info = baseFsSize d \<and>
           0 \<le> DevInfo.DeviceId info \<and> DevInfo.DeviceId info \<le> MaxDeviceId"
  let ?goal3 = "\<forall>e. res = Inl e \<longrightarrow> DeviceSet.TransactionId d' = DeviceSet.TransactionId d"
  obtain g d1 where g: "getNextFreeDeviceId d = (g, d1)" by force
  note fr1 = getNextFreeDeviceId_frame [OF g]
  have all: "?goal1 \<and> ?goal2 \<and> ?goal3"
  proof (cases g)
    case (Inl e)
    with run g have res: "res = Inl e" "d' = d1" "w' = w" by (simp_all add: createRegisterDevice_def)
    from g Inl have "d1 = d\<lparr>NextDeviceId := (NextDeviceId d + 1) mod 2 ^ 24\<rparr>"
      using getNextFreeDeviceId_Inl(2) by simp
    then have same: "isDeviceIdFree d1 x = isDeviceIdFree d x" for x by simp
    have "?goal1" unfolding res using same by (intro exI [of _ "[]"]) simp
    moreover have "?goal2" unfolding res by simp
    moreover have "?goal3" unfolding res using allocatorFrame_fields(2) [OF fr1] by simp
    ultimately show ?thesis by blast
  next
    case (Inr i0)
    with g have g0: "getNextFreeDeviceId d = (Inr i0, d1)" by simp
    note J = getNextFreeDeviceId_Inr [OF g0]
    obtain ot d2 w2 where op: "openTransaction P d1 hash i0 w = (ot, d2, w2)"
      by (cases "openTransaction P d1 hash i0 w") auto
    note O = openTransaction_result [OF op]
    have m2: "deviceIdMap d2 = deviceIdMap d1" unfolding O(1) by simp
    have U2: "?U d2 x = (x = i0 \<or> ?U d x)" if "0 \<le> x" "x \<le> MaxDeviceId" for x
      by (rule isDeviceIdFree_allocated [OF g0 m2 that])
    have U2': "(?U d2 x \<and> x \<noteq> i0) = ?U d x" if "0 \<le> x" "x \<le> MaxDeviceId" for x
      using U2 [OF that] J(3) by auto
    have t1: "DeviceSet.TransactionId d1 = DeviceSet.TransactionId d"
      by (rule allocatorFrame_fields(2) [OF fr1])
    have t2: "DeviceSet.TransactionId d2 = DeviceSet.TransactionId d"
      "OpenTransactionId (Transaction d2) = DeviceSet.TransactionId d + 1"
      "Devices d2 = Devices d" "baseFsSize d2 = baseFsSize d"
      unfolding O(1) using t1 allocatorFrame_fields(1,8) [OF fr1] by simp_all
    show ?thesis
    proof (cases ot)
      case (Some err)
      with run g0 op have f: "freeIdAndFail d2 i0 err w2 = (res, d', w')"
        by (simp add: createRegisterDevice_def)
      note F = freeIdAndFail_bits [OF f J(1,2) refl]
      from reportedExisting_quietly [OF O(2), of P] F(2)
      obtain cs where cs: "trace w' = trace w @ cs" "reportedExisting P (trace w) cs = []" by auto
      have "?goal1"
        using cs F(1) F(4) U2' by (intro exI [of _ cs]) simp
      moreover have "?goal2" using F(1) by simp
      moreover have "?goal3" using allocatorFrame_fields(2) [OF F(3)] t2(1) by simp
      ultimately show ?thesis by blast
    next
      case None
      obtain l d3 w3 where lp: "createRegisterDevice_loop P d2 i0 w2 = (l, d3, w3)"
        by (cases "createRegisterDevice_loop P d2 i0 w2") auto
      have used0: "?U d2 i0" using U2 [OF J(1,2)] by simp
      from createRegisterDevice_loop_result [OF lp J(1,2) used0]
      obtain cs3 where L: "allocatorFrame d2 d3" "trace w3 = trace w2 @ cs3"
        "\<And>x. 0 \<le> x \<Longrightarrow> x \<le> MaxDeviceId \<Longrightarrow>
           ?U d3 x = (?U d2 x \<and> x \<noteq> i0 \<or> x \<in> set (reportedExisting P (trace w2) cs3) \<or> l = Inr x)"
        "\<And>j. l = Inr j \<Longrightarrow> j \<notin> set (reportedExisting P (trace w2) cs3)"
        "\<And>j. l = Inr j \<Longrightarrow> 0 \<le> j \<and> j \<le> MaxDeviceId \<and> (j = i0 \<or> isDeviceIdFree d2 j = Inr True)"
        by blast
      have U3: "?U d3 x = (?U d x \<or> x \<in> set (reportedExisting P (trace w2) cs3) \<or> l = Inr x)"
        if "0 \<le> x" "x \<le> MaxDeviceId" for x
        using L(3) [OF that] U2' [OF that] by simp
      note f3 = allocatorFrame_fields [OF L(1)]
      have t3: "DeviceSet.TransactionId d3 = DeviceSet.TransactionId d"
        "OpenTransactionId (Transaction d3) = DeviceSet.TransactionId d + 1"
        "Devices d3 = Devices d" "baseFsSize d3 = baseFsSize d"
        using f3 t2 by simp_all
      show ?thesis
      proof (cases l)
        case (Inl err)
        with run g0 op None lp have res: "res = Inl err" "d' = d3" "w' = w3"
          by (simp_all add: createRegisterDevice_def)
        from reportedExisting_sandwich [OF O(2) L(2) quietly_refl, of P]
        obtain cs where cs: "trace w3 = trace w @ cs"
          "reportedExisting P (trace w) cs = reportedExisting P (trace w2) cs3" by blast
        have "?goal1" unfolding res
          using cs U3 Inl by (intro exI [of _ cs]) simp
        moreover have "?goal2" unfolding res by simp
        moreover have "?goal3" unfolding res using t3 by simp
        ultimately show ?thesis by blast
      next
        case (Inr i)
        note I = L(5) [OF Inr]
        then have ir: "0 \<le> i" "i \<le> MaxDeviceId" by simp_all
        have ifree: "\<not> ?U d i"
        proof (cases "i = i0")
          case True
          with J(3) show ?thesis by simp
        next
          case False
          with I have "\<not> ?U d2 i" by simp
          with U2 [OF ir] show ?thesis by simp
        qed
        have inew: "i \<notin> set (reportedExisting P (trace w2) cs3)" by (rule L(4) [OF Inr])
        have U3i: "(?U d3 x \<and> x \<noteq> i) = (?U d x \<or> x \<in> set (reportedExisting P (trace w2) cs3))"
          if "0 \<le> x" "x \<le> MaxDeviceId" for x
          using U3 [OF that] Inr ifree inew by auto
        obtain rg d4 w4 where rgd: "registerDevice P d3 i hash (baseFsSize d3)
            (OpenTransactionId (Transaction d3)) w3 = (rg, d4, w4)"
          by (cases "registerDevice P d3 i hash (baseFsSize d3) (OpenTransactionId (Transaction d3)) w3") auto
        note R = registerDevice_result [OF rgd]
        show ?thesis
        proof (cases rg)
          case (Inl err)
          note d4 = R(3) [OF Inl]
          have m4: "deviceIdMap d4 = deviceIdMap d3" unfolding d4 by simp
          obtain ig w5 where del: "invoke P (DmDeleteDevice (getPoolDevName d4) i) w4 = (ig, w5)"
            by force
          have q5: "quietly w3 w5"
            by (rule quietly_trans [OF R(1) invoke_quietly [OF del]]) simp
          from run g0 op None lp Inr rgd Inl del
          have f: "freeIdAndFail d4 i err w5 = (res, d', w')"
            by (simp add: createRegisterDevice_def)
          note F = freeIdAndFail_bits [OF f ir m4]
          from reportedExisting_sandwich [OF O(2) L(2) q5, of P] F(2)
          obtain cs where cs: "trace w' = trace w @ cs"
            "reportedExisting P (trace w) cs = reportedExisting P (trace w2) cs3" by auto
          have "?goal1"
            using cs F(1) F(4) U3i by (intro exI [of _ cs]) simp
          moreover have "?goal2" using F(1) by simp
          moreover have "DeviceSet.TransactionId d4 = DeviceSet.TransactionId d"
            unfolding d4 using t3 by simp
          then have "?goal3" using allocatorFrame_fields(2) [OF F(3)] by simp
          ultimately show ?thesis by blast
        next
          case (Inr info)
          from R(2) [OF Inr] have info: "info = \<lparr>Hash = hash, DevInfo.DeviceId = i, Size = baseFsSize d3,
               DevInfo.TransactionId = OpenTransactionId (Transaction d3), Initialized = False,
               mountCount = 0, mountPath = []\<rparr>"
            and d4: "d4 = d3\<lparr>Devices := (Devices d3)(hash \<mapsto> info)\<rparr>" by simp_all
          have m4: "deviceIdMap d4 = deviceIdMap d3" unfolding d4 by simp
          obtain c d5 w5 where cl: "closeTransaction P d4 w4 = (c, d5, w5)"
            by (cases "closeTransaction P d4 w4") auto
          note C = closeTransaction_result [OF cl]
          note qc = closeTransaction_quietly [OF cl]
          show ?thesis
          proof (cases c)
            case None
            with run g0 op \<open>ot = None\<close> lp \<open>l = Inr i\<close> rgd Inr cl
            have res: "res = Inr info" "d' = d5" "w' = w5"
              by (simp_all add: createRegisterDevice_def)
            have d5: "d5 = d4\<lparr>DeviceSet.TransactionId := OpenTransactionId (Transaction d4)\<rparr>"
              by (rule C(2) [OF None])
            have m5: "deviceIdMap d5 = deviceIdMap d3" unfolding d5 d4 by simp
            from reportedExisting_sandwich [OF O(2) L(2) quietly_trans [OF R(1) qc], of P]
            obtain cs where cs: "trace w5 = trace w @ cs"
              "reportedExisting P (trace w) cs = reportedExisting P (trace w2) cs3" by blast
            have did: "DevInfo.DeviceId info = i" unfolding info by simp
            have "?goal1" unfolding res
              using cs U3 \<open>l = Inr i\<close> did isDeviceIdFree_same_map [OF m5]
              by (intro exI [of _ cs]) auto
            moreover have "?goal2" unfolding res
              using t3 ir by (simp add: d5 d4) (simp add: info)
            moreover have "?goal3" unfolding res by simp
            ultimately show ?thesis by blast
          next
            case (Some err)
            then have d5: "d5 = d4" using C(3) by simp
            obtain ig d6 w6 where un: "unregisterDevice P d5 i hash w5 = (ig, d6, w6)"
              by (cases "unregisterDevice P d5 i hash w5") auto
            note N = unregisterDevice_result [OF un]
            have m6: "deviceIdMap d6 = deviceIdMap d3" unfolding N(2) d5 d4 by simp
            obtain ig' w7 where del: "invoke P (DmDeleteDevice (getPoolDevName d6) i) w6 = (ig', w7)"
              by force
            have q7: "quietly w3 w7"
              by (rule quietly_trans [OF quietly_trans [OF quietly_trans [OF R(1) qc] N(1)]
                    invoke_quietly [OF del]]) simp
            from run g0 op \<open>ot = None\<close> lp \<open>l = Inr i\<close> rgd Inr cl Some un del
            have f: "freeIdAndFail d6 i err w7 = (res, d', w')"
              by (simp add: createRegisterDevice_def)
            note F = freeIdAndFail_bits [OF f ir m6]
            from reportedExisting_sandwich [OF O(2) L(2) q7, of P] F(2)
            obtain cs where cs: "trace w' = trace w @ cs"
              "reportedExisting P (trace w) cs = reportedExisting P (trace w2) cs3" by auto
            have "?goal1"
              using cs F(1) F(4) U3i by (intro exI [of _ cs]) simp
            moreover have "?goal2" using F(1) by simp
            moreover have "DeviceSet.TransactionId d6 = DeviceSet.TransactionId d"
              unfolding N(2) d5 d4 using t3 by simp
            then have "?goal3" using allocatorFrame_fields(2) [OF F(3)] by simp
            ultimately show ?thesis by blast
          qed
        qed
      qed
    qed
  qed
  from all show ?goal1 by blast
  from all show "\<And>info. res = Inr info \<Longrightarrow>
           DeviceSet.TransactionId d' = DeviceSet.TransactionId d + 1 \<and>
           DevInfo.TransactionId info = DeviceSet.TransactionId d' \<and>
           Devices d' hash = Some info \<and> Hash info = hash \<and> Size info = baseFsSize d \<and>
           0 \<le> DevInfo.DeviceId info \<and> DevInfo.DeviceId info \<le> MaxDeviceId" by blast
  from all show "\<And>e. res = Inl e \<Longrightarrow> DeviceSet.TransactionId d' = DeviceSet.TransactionId d"
    by blast
qed

lemma freeIdAndFail_option:
  assumes f: "(case freeIdAndFail dX i err wX :: (error + unit) \<times> DeviceSet \<times> world of
             (Inl e, d3, w3) \<Rightarrow> (Some e, d3, w3) | (Inr u, d3, w3) \<Rightarrow> (None, d3, w3)) = (res, d', w')"
    and i: "0 \<le> i" "i \<le> MaxDeviceId"
    and m: "deviceIdMap dX = deviceIdMap dY"
  shows "res = Some err" "w' = wX" "allocatorFrame dX d'"
    "0 \<le> x \<Longrightarrow> x \<le> MaxDeviceId \<Longrightarrow>
     (isDeviceIdFree d' x = Inr False) = (isDeviceIdFree dY x = Inr False \<and> x \<noteq> i)"
proof -
  obtain r dd ww where ff: "freeIdAndFail dX i err wX = (r :: error + unit, dd, ww)"
    by (cases "freeIdAndFail dX i err wX :: (error + unit) \<times> DeviceSet \<times> world") auto
  note F = freeIdAndFail_bits [OF ff i m]
  from f ff F(1) have e: "res = Some err" "d' = dd" "w' = ww" by simp_all
  show "res = Some err" by (rule e)
  show "w' = wX" using e F(2) by simp
  show "allocatorFrame dX d'" using e F(3) by simp
  assume "0 \<le> x" "x \<le> MaxDeviceId"
  then show "(isDeviceIdFree d' x = Inr False) = (isDeviceIdFree dY x = Inr False \<and> x \<noteq> i)"
    using F(4) e by simp
qed

lemma createRegisterSnapDevice_result:
  assumes run: "createRegisterSnapDevice P d hash b w = (res, d', w')"
  shows "\<exists>cs. trace w' = trace w @ cs \<and>
           (\<forall>x. 0 \<le> x \<and> x \<le> MaxDeviceId \<longrightarrow>
              (isDeviceIdFree d' x = Inr False) =
              (isDeviceIdFree d x = Inr False \<or> x \<in> set (reportedExisting P (trace w) cs) \<or>
               (\<exists>info. res = None \<and> Devices d' hash = Some info \<and> DevInfo.DeviceId info = x)))"
    and "res = None \<Longrightarrow>
           DeviceSet.TransactionId d' = DeviceSet.TransactionId d + 1 \<and>
           (\<exists>info. Devices d' hash = Some info \<and>
           DevInfo.TransactionId info = DeviceSet.TransactionId d' \<and>
           Hash info = hash \<and> Size info = Size b \<and>
           0 \<le> DevInfo.DeviceId info \<and> DevInfo.DeviceId info \<le> MaxDeviceId)"
    and "\<And>e. res = Some e \<Longrightarrow> DeviceSet.TransactionId d' = DeviceSet.TransactionId d"
proof -
  let ?U = "\<lambda>d x. isDeviceIdFree d x = Inr False"
  let ?goal1 = "\<exists>cs. trace w' = trace w @ cs \<and>
           (\<forall>x. 0 \<le> x \<and> x \<le> MaxDeviceId \<longrightarrow>
              ?U d' x =
              (?U d x \<or> x \<in> set (reportedExisting P (trace w) cs) \<or>
               (\<exists>info. res = None \<and> Devices d' hash = Some info \<and> DevInfo.DeviceId info = x)))"
  let ?goal2 = "res = None \<longrightarrow>
           DeviceSet.TransactionId d' = DeviceSet.TransactionId d + 1 \<and>
           (\<exists>info. Devices d' hash = Some info \<and>
           DevInfo.TransactionId info = DeviceSet.TransactionId d' \<and>
           Hash info = hash \<and> Size info = Size b \<and>
           0 \<le> DevInfo.DeviceId info \<and> DevInfo.DeviceId info \<le> MaxDeviceId)"
  let ?goal3 = "\<forall>e. res = Some e \<longrightarrow> DeviceSet.TransactionId d' = DeviceSet.TransactionId d"
  obtain g d1 where g: "getNextFreeDeviceId d = (g, d1)" by force
  note fr1 = getNextFreeDeviceId_frame [OF g]
  have all: "?goal1 \<and> ?goal2 \<and> ?goal3"
  proof (cases g)
    case (Inl e)
    with run g have res: "res = Some e" "d' = d1" "w' = w" by (simp_all add: createRegisterSnapDevice_def)
    from g Inl have "d1 = d\<lparr>NextDeviceId := (NextDeviceId d + 1) mod 2 ^ 24\<rparr>"
      using getNextFreeDeviceId_Inl(2) by simp
    then have same: "isDeviceIdFree d1 x = isDeviceIdFree d x" for x by simp
    have "?goal1" unfolding res using same by (intro exI [of _ "[]"]) simp
    moreover have "?goal2" unfolding res by simp
    moreover have "?goal3" unfolding res using allocatorFrame_fields(2) [OF fr1] by simp
    ultimately show ?thesis by blast
  next
    case (Inr i0)
    with g have g0: "getNextFreeDeviceId d = (Inr i0, d1)" by simp
    note J = getNextFreeDeviceId_Inr [OF g0]
    obtain ot d2 w2 where op: "openTransaction P d1 hash i0 w = (ot, d2, w2)"
      by (cases "openTransaction P d1 hash i0 w") auto
    note O = openTransaction_result [OF op]
    have m2: "deviceIdMap d2 = deviceIdMap d1" unfolding O(1) by simp
    have U2: "?U d2 x = (x = i0 \<or> ?U d x)" if "0 \<le> x" "x \<le> MaxDeviceId" for x
      by (rule isDeviceIdFree_allocated [OF g0 m2 that])
    have U2': "(?U d2 x \<and> x \<noteq> i0) = ?U d x" if "0 \<le> x" "x \<le> MaxDeviceId" for x
      using U2 [OF that] J(3) by auto
    have t1: "DeviceSet.TransactionId d1 = DeviceSet.TransactionId d"
      by (rule allocatorFrame_fields(2) [OF fr1])
    have t2: "DeviceSet.TransactionId d2 = DeviceSet.TransactionId d"
      "OpenTransactionId (Transaction d2) = DeviceSet.TransactionId d + 1"
      "Devices d2 = Devices d" "baseFsSize d2 = baseFsSize d"
      unfolding O(1) using t1 allocatorFrame_fields(1,8) [OF fr1] by simp_all
    show ?thesis
    proof (cases ot)
      case (Some err)
      with run g0 op have f: "(case freeIdAndFail d2 i0 err w2 :: (error + unit) \<times> DeviceSet \<times> world of
             (Inl e, d3, w3) \<Rightarrow> (Some e, d3, w3) | (Inr u, d3, w3) \<Rightarrow> (None, d3, w3)) = (res, d', w')"
        by (simp add: createRegisterSnapDevice_def)
      note F = freeIdAndFail_option [OF f J(1,2) refl]
      from reportedExisting_quietly [OF O(2), of P] F(2)
      obtain cs where cs: "trace w' = trace w @ cs" "reportedExisting P (trace w) cs = []" by auto
      have "?goal1"
        using cs F(1) F(4) U2' by (intro exI [of _ cs]) simp
      moreover have "?goal2" using F(1) by simp
      moreover have "?goal3" using allocatorFrame_fields(2) [OF F(3)] t2(1) by simp
      ultimately show ?thesis by blast
    next
      case None
      obtain l d3 w3 where lp: "createRegisterSnapDevice_loop P d2 b i0 w2 = (l, d3, w3)"
        by (cases "createRegisterSnapDevice_loop P d2 b i0 w2") auto
      have used0: "?U d2 i0" using U2 [OF J(1,2)] by simp
      from createRegisterSnapDevice_loop_result [OF lp J(1,2) used0]
      obtain cs3 where L: "allocatorFrame d2 d3" "trace w3 = trace w2 @ cs3"
        "\<And>x. 0 \<le> x \<Longrightarrow> x \<le> MaxDeviceId \<Longrightarrow>
           ?U d3 x = (?U d2 x \<and> x \<noteq> i0 \<or> x \<in> set (reportedExisting P (trace w2) cs3) \<or> l = Inr x)"
        "\<And>j. l = Inr j \<Longrightarrow> j \<notin> set (reportedExisting P (trace w2) cs3)"
        "\<And>j. l = Inr j \<Longrightarrow> 0 \<le> j \<and> j \<le> MaxDeviceId \<and> (j = i0 \<or> isDeviceIdFree d2 j = Inr True)"
        by blast
      have U3: "?U d3 x = (?U d x \<or> x \<in> set (reportedExisting P (trace w2) cs3) \<or> l = Inr x)"
        if "0 \<le> x" "x \<le> MaxDeviceId" for x
        using L(3) [OF that] U2' [OF that] by simp
      note f3 = allocatorFrame_fields [OF L(1)]
      have t3: "DeviceSet.TransactionId d3 = DeviceSet.TransactionId d"
        "OpenTransactionId (Transaction d3) = DeviceSet.TransactionId d + 1"
        "Devices d3 = Devices d" "baseFsSize d3 = baseFsSize d"
        using f3 t2 by simp_all
      show ?thesis
      proof (cases l)
        case (Inl err)
        with run g0 op None lp have res: "res = Some err" "d' = d3" "w' = w3"
          by (simp_all add: createRegisterSnapDevice_def)
        from reportedExisting_sandwich [OF O(2) L(2) quietly_refl, of P]
        obtain cs where cs: "trace w3 = trace w @ cs"
          "reportedExisting P (trace w) cs = reportedExisting P (trace w2) cs3" by blast
        have "?goal1" unfolding res
          using cs U3 Inl by (intro exI [of _ cs]) simp
        moreover have "?goal2" unfolding res by simp
        moreover have "?goal3" unfolding res using t3 by simp
        ultimately show ?thesis by blast
      next
        case (Inr i)
        note I = L(5) [OF Inr]
        then have ir: "0 \<le> i" "i \<le> MaxDeviceId" by simp_all
        have ifree: "\<not> ?U d i"
        proof (cases "i = i0")
          case True
          with J(3) show ?thesis by simp
        next
          case False
          with I have "\<not> ?U d2 i" by simp
          with U2 [OF ir] show ?thesis by simp
        qed
        have inew: "i \<notin> set (reportedExisting P (trace w2) cs3)" by (rule L(4) [OF Inr])
        have U3i: "(?U d3 x \<and> x \<noteq> i) = (?U d x \<or> x \<in> set (reportedExisting P (trace w2) cs3))"
          if "0 \<le> x" "x \<le> MaxDeviceId" for x
          using U3 [OF that] Inr ifree inew by auto
        obtain rg d4 w4 where rgd: "registerDevice P d3 i hash (Size b)
            (OpenTransactionId (Transaction d3)) w3 = (rg, d4, w4)"
          by (cases "registerDevice P d3 i hash (Size b) (OpenTransactionId (Transaction d3)) w3") auto
        note R = registerDevice_result [OF rgd]
        show ?thesis
        proof (cases rg)
          case (Inl err)
          note d4 = R(3) [OF Inl]
          have m4: "deviceIdMap d4 = deviceIdMap d3" unfolding d4 by simp
          obtain ig w5 where del: "invoke P (DmDeleteDevice (getPoolDevName d4) i) w4 = (ig, w5)"
            by force
          have q5: "quietly w3 w5"
            by (rule quietly_trans [OF R(1) invoke_quietly [OF del]]) simp
          from run g0 op None lp Inr rgd Inl del
          have f: "(case freeIdAndFail d4 i err w5 :: (error + unit) \<times> DeviceSet \<times> world of
             (Inl e, d3, w3) \<Rightarrow> (Some e, d3, w3) | (Inr u, d3, w3) \<Rightarrow> (None, d3, w3)) = (res, d', w')"
            by (simp add: createRegisterSnapDevice_def)
          note F = freeIdAndFail_option [OF f ir m4]
          from reportedExisting_sandwich [OF O(2) L(2) q5, of P] F(2)
          obtain cs where cs: "trace w' = trace w @ cs"
            "reportedExisting P (trace w) cs = reportedExisting P (trace w2) cs3" by auto
          have "?goal1"
            using cs F(1) F(4) U3i by (intro exI [of _ cs]) simp
          moreover have "?goal2" using F(1) by simp
          moreover have "DeviceSet.TransactionId d4 = DeviceSet.TransactionId d"
            unfolding d4 using t3 by simp
          then have "?goal3" using allocatorFrame_fields(2) [OF F(3)] by simp
          ultimately show ?thesis by blast
        next
          case (Inr info)
          from R(2) [OF Inr] have info: "info = \<lparr>Hash = hash, DevInfo.DeviceId = i, Size = Size b,
               DevInfo.TransactionId = OpenTransactionId (Transaction d3), Initialized = False,
               mountCount = 0, mountPath = []\<rparr>"
            and d4: "d4 = d3\<lparr>Devices := (Devices d3)(hash \<mapsto> info)\<rparr>" by simp_all
          have m4: "deviceIdMap d4 = deviceIdMap d3" unfolding d4 by simp
          obtain c d5 w5 where cl: "closeTransaction P d4 w4 = (c, d5, w5)"
            by (cases "closeTransaction P d4 w4") auto
          note C = closeTransaction_result [OF cl]
          note qc = closeTransaction_quietly [OF cl]
          show ?thesis
          proof (cases c)
            case None
            with run g0 op \<open>ot = None\<close> lp \<open>l = Inr i\<close> rgd Inr cl
            have res: "res = None" "d' = d5" "w' = w5"
              by (simp_all add: createRegisterSnapDevice_def)
            have d5: "d5 = d4\<lparr>DeviceSet.TransactionId := OpenTransactionId (Transaction d4)\<rparr>"
              by (rule C(2) [OF None])
            have m5: "deviceIdMap d5 = deviceIdMap d3" unfolding d5 d4 by simp
            from reportedExisting_sandwich [OF O(2) L(2) quietly_trans [OF R(1) qc], of P]
            obtain cs where cs: "trace w5 = trace w @ cs"
              "reportedExisting P (trace w) cs = reportedExisting P (trace w2) cs3" by blast
            have did: "DevInfo.DeviceId info = i" unfolding info by simp
            have reg: "Devices d5 hash = Some info" unfolding d5 d4 by simp
            have "?goal1" unfolding res
              using cs U3 \<open>l = Inr i\<close> did reg isDeviceIdFree_same_map [OF m5]
              by (intro exI [of _ cs]) auto
            moreover have "?goal2" unfolding res
              using t3 ir by (simp add: d5 d4) (simp add: info)
            moreover have "?goal3" unfolding res by simp
            ultimately show ?thesis by blast
          next
            case (Some err)
            then have d5: "d5 = d4" using C(3) by simp
            obtain ig d6 w6 where un: "unregisterDevice P d5 i hash w5 = (ig, d6, w6)"
              by (cases "unregisterDevice P d5 i hash w5") auto
            note N = unregisterDevice_result [OF un]
            have m6: "deviceIdMap d6 = deviceIdMap d3" unfolding N(2) d5 d4 by simp
            obtain ig' w7 where del: "invoke P (DmDeleteDevice (getPoolDevName d6) i) w6 = (ig', w7)"
              by force
            have q7: "quietly w3 w7"
              by (rule quietly_trans [OF quietly_trans [OF quietly_trans [OF R(1) qc] N(1)]
                    invoke_quietly [OF del]]) simp
            from run g0 op \<open>ot = None\<close> lp \<open>l = Inr i\<close> rgd Inr cl Some un del
            have f: "(case freeIdAndFail d6 i err w7 :: (error + unit) \<times> DeviceSet \<times> world of
             (Inl e, d3, w3) \<Rightarrow> (Some e, d3, w3) | (Inr u, d3, w3) \<Rightarrow> (None, d3, w3)) = (res, d', w')"
              by (simp add: createRegisterSnapDevice_def)
            note F = freeIdAndFail_option [OF f ir m6]
            from reportedExisting_sandwich [OF O(2) L(2) q7, of P] F(2)
            obtain cs where cs: "trace w' = trace w @ cs"
              "reportedExisting P (trace w) cs = reportedExisting P (trace w2) cs3" by auto
            have "?goal1"
              using cs F(1) F(4) U3i by (intro exI [of _ cs]) simp
            moreover have "?goal2" using F(1) by simp
            moreover have "DeviceSet.TransactionId d6 = DeviceSet.TransactionId d"
              unfolding N(2) d5 d4 using t3 by simp
            then have "?goal3" using allocatorFrame_fields(2) [OF F(3)] by simp
            ultimately show ?thesis by blast
          qed
        qed
      qed
    qed
  qed
  from all show ?goal1 by blast
  from all show "res = None \<Longrightarrow>
           DeviceSet.TransactionId d' = DeviceSet.TransactionId d + 1 \<and>
           (\<exists>info. Devices d' hash = Some info \<and>
           DevInfo.TransactionId info = DeviceSet.TransactionId d' \<and>
           Hash info = hash \<and> Size info = Size b \<and>
           0 \<le> DevInfo.DeviceId info \<and> DevInfo.DeviceId info \<le> MaxDeviceId)" by blast
  from all show "\<And>e. res = Some e \<Longrightarrow> DeviceSet.TransactionId d' = DeviceSet.TransactionId d"
    by blast
qed

section \<open>Transaction ids\<close>

lemma deleteDevice_result:
  assumes "deleteDevice P d info w = (None, d', w')"
  shows "DeviceSet.TransactionId d' = DeviceSet.TransactionId d + 1"
    "Devices d' = (Devices d)(Hash info := None)"
proof -
  from assms obtain w3 w4 w5 w6 d4 d6 d7 w7 where
    op: "openTransaction P d (Hash info) (DevInfo.DeviceId info) w3 = (None, d4, w4)"
    and un: "unregisterDevice P d4 (DevInfo.DeviceId info) (Hash info) w5 = (None, d6, w6)"
    and cl: "closeTransaction P d6 w6 = (None, d7, w7)"
    and fr: "markDeviceIdFree d7 (DevInfo.DeviceId info) = Inr d'"
    unfolding deleteDevice_def
    by (auto split: prod.splits option.splits sum.splits if_splits)
  note O = openTransaction_result(1) [OF op]
  note N = unregisterDevice_result(2) [OF un]
  note C = closeTransaction_result(2) [OF cl refl]
  note F = markDeviceIdFree_frame [OF fr]
  have "DeviceSet.TransactionId d' = DeviceSet.TransactionId d7" by (subst F) simp
  also have "\<dots> = DeviceSet.TransactionId d + 1" unfolding C N O by simp
  finally show "DeviceSet.TransactionId d' = DeviceSet.TransactionId d + 1" .
  have "Devices d' = Devices d7" by (subst F) simp
  also have "\<dots> = (Devices d)(Hash info := None)" unfolding C N O by simp
  finally show "Devices d' = (Devices d)(Hash info := None)" .
qed

text \<open>
  C2. Transaction monotonicity. The transaction id is a \<^verbatim>\<open>uint64\<close>, and \<open>+ 1\<close> is
  its addition. After a successful \<^verbatim>\<open>createRegisterDevice\<close> the transaction id of the
  DeviceSet is one more than before the call, and the record that is returned carries this
  new id and is the one registered under the hash. After a successful
  \<^verbatim>\<open>createRegisterSnapDevice\<close> the transaction id is one more than before the call, and the
  record registered under the hash carries the new id. After a successful
  \<^verbatim>\<open>deleteDevice\<close> the transaction id is one more than before the call. The commit,
  \<^verbatim>\<open>closeTransaction\<close>, makes one outside call, \<^verbatim>\<open>SetTransactionId\<close> from the current
  id to the open one; it changes no file, so the transaction file stays as it is, and of
  the DeviceSet it changes nothing but, when the call succeeds, the transaction id, which
  becomes the open one. Unless the id is \<open>2^64 - 1\<close>, the id plus one is, as a number,
  one more than the id.
\<close>

theorem transaction_monotonicity:
  "(createRegisterDevice P d hash w = (Inr info, d1, w1) \<longrightarrow>
      DeviceSet.TransactionId d1 = DeviceSet.TransactionId d + 1 \<and>
      DevInfo.TransactionId info = DeviceSet.TransactionId d1 \<and>
      Devices d1 hash = Some info) \<and>
   (createRegisterSnapDevice P d hash baseInfo w = (None, d2, w2) \<longrightarrow>
      DeviceSet.TransactionId d2 = DeviceSet.TransactionId d + 1 \<and>
      (\<exists>snap. Devices d2 hash = Some snap \<and>
              DevInfo.TransactionId snap = DeviceSet.TransactionId d2)) \<and>
   (deleteDevice P d gone w = (None, d3, w3) \<longrightarrow>
      DeviceSet.TransactionId d3 = DeviceSet.TransactionId d + 1) \<and>
   (closeTransaction P d w = (r, d4, w4) \<longrightarrow>
      files w4 = files w \<and>
      trace w4 = trace w @
        [DmSetTransactionId (getPoolDevName d) (DeviceSet.TransactionId d)
           (OpenTransactionId (Transaction d))] \<and>
      d4 = (if r = None
            then d\<lparr>DeviceSet.TransactionId := OpenTransactionId (Transaction d)\<rparr>
            else d)) \<and>
   (DeviceSet.TransactionId d \<noteq> - 1 \<longrightarrow>
      unat (DeviceSet.TransactionId d + 1) = unat (DeviceSet.TransactionId d) + 1)"
proof (intro conjI impI)
  assume run: "createRegisterDevice P d hash w = (Inr info, d1, w1)"
  from createRegisterDevice_result(2) [OF run refl]
  show "DeviceSet.TransactionId d1 = DeviceSet.TransactionId d + 1"
    "DevInfo.TransactionId info = DeviceSet.TransactionId d1"
    "Devices d1 hash = Some info"
    by simp_all
next
  assume run: "createRegisterSnapDevice P d hash baseInfo w = (None, d2, w2)"
  from createRegisterSnapDevice_result(2) [OF run refl]
  show "DeviceSet.TransactionId d2 = DeviceSet.TransactionId d + 1"
    "\<exists>snap. Devices d2 hash = Some snap \<and>
            DevInfo.TransactionId snap = DeviceSet.TransactionId d2"
    by auto
next
  assume "deleteDevice P d gone w = (None, d3, w3)"
  then show "DeviceSet.TransactionId d3 = DeviceSet.TransactionId d + 1"
    by (rule deleteDevice_result(1))
next
  assume run: "closeTransaction P d w = (r, d4, w4)"
  note C = closeTransaction_result [OF run]
  show "files w4 = files w" by (subst C(1)) simp
  show "trace w4 = trace w @
        [DmSetTransactionId (getPoolDevName d) (DeviceSet.TransactionId d)
           (OpenTransactionId (Transaction d))]" by (subst C(1)) simp
  show "d4 = (if r = None
            then d\<lparr>DeviceSet.TransactionId := OpenTransactionId (Transaction d)\<rparr>
            else d)" using C(2,3) by simp
next
  assume "DeviceSet.TransactionId d \<noteq> - 1"
  then have "1 + DeviceSet.TransactionId d \<noteq> 0"
    by (simp add: add_eq_0_iff)
  from unatSuc [OF this]
  show "unat (DeviceSet.TransactionId d + 1) = unat (DeviceSet.TransactionId d) + 1"
    by (simp add: add.commute)
qed

lemma example_create:
  "fst (createRegisterDevice (examplePlatform nominalAnswers) exampleDevices ''B'' exampleWorld) =
   Inr \<lparr>Hash = ''B'', DevInfo.DeviceId = 1, Size = 10737418240, DevInfo.TransactionId = 1,
         Initialized = False, mountCount = 0, mountPath = []\<rparr>"
  by code_simp

lemma example_snapshot:
  "fst (createRegisterSnapDevice (examplePlatform nominalAnswers) exampleDevices ''B'' mountedA
          exampleWorld) = None"
  by code_simp

lemma example_delete:
  "fst (deleteDevice (examplePlatform nominalAnswers) exampleDevices mountedA exampleWorld) = None"
  by code_simp

lemma example_commit:
  "fst (closeTransaction (examplePlatform nominalAnswers) openDevices pendingWorld) = None"
  by code_simp

theorem transaction_monotonicity_witness:
  "DeviceSet.TransactionId exampleDevices = 0 \<and>
   DeviceSet.TransactionId
     (fst (snd (createRegisterDevice (examplePlatform nominalAnswers) exampleDevices ''B''
                  exampleWorld))) = 1 \<and>
   Devices
     (fst (snd (createRegisterDevice (examplePlatform nominalAnswers) exampleDevices ''B''
                  exampleWorld))) ''B'' =
     Some \<lparr>Hash = ''B'', DevInfo.DeviceId = 1, Size = 10737418240, DevInfo.TransactionId = 1,
           Initialized = False, mountCount = 0, mountPath = []\<rparr> \<and>
   DeviceSet.TransactionId
     (fst (snd (createRegisterSnapDevice (examplePlatform nominalAnswers) exampleDevices ''B''
                  mountedA exampleWorld))) = 1 \<and>
   DeviceSet.TransactionId
     (fst (snd (deleteDevice (examplePlatform nominalAnswers) exampleDevices mountedA
                  exampleWorld))) = 1 \<and>
   DeviceSet.TransactionId
     (fst (snd (closeTransaction (examplePlatform nominalAnswers) openDevices pendingWorld))) = 4 \<and>
   files (snd (snd (closeTransaction (examplePlatform nominalAnswers) openDevices pendingWorld)))
     ''/var/lib/docker/metadata/transaction-metadata'' = Some [4, 5, 67]"
proof -
  let ?P = "examplePlatform nominalAnswers"
  let ?info = "\<lparr>Hash = ''B'', DevInfo.DeviceId = 1, Size = 10737418240, DevInfo.TransactionId = 1,
         Initialized = False, mountCount = 0, mountPath = []\<rparr>"
  let ?c = "createRegisterDevice ?P exampleDevices ''B'' exampleWorld"
  let ?s = "createRegisterSnapDevice ?P exampleDevices ''B'' mountedA exampleWorld"
  let ?d = "deleteDevice ?P exampleDevices mountedA exampleWorld"
  let ?t = "closeTransaction ?P openDevices pendingWorld"
  have c: "?c = (Inr ?info, fst (snd ?c), snd (snd ?c))"
    by (simp add: prod_eq_iff example_create)
  have s: "?s = (None, fst (snd ?s), snd (snd ?s))"
    by (simp add: prod_eq_iff example_snapshot)
  have d: "?d = (None, fst (snd ?d), snd (snd ?d))"
    by (simp add: prod_eq_iff example_delete)
  have t: "?t = (None, fst (snd ?t), snd (snd ?t))"
    by (simp add: prod_eq_iff example_commit)
  have z: "DeviceSet.TransactionId exampleDevices = 0"
    by (simp add: exampleDevices_def NewDeviceSet_literal_def)
  have o: "DeviceSet.TransactionId openDevices = 3" "OpenTransactionId (Transaction openDevices) = 4"
    "files pendingWorld ''/var/lib/docker/metadata/transaction-metadata'' = Some [4, 5, 67]"
    by (simp_all add: openDevices_def pendingDevices_def NewDeviceSet_literal_def pendingWorld_def)
  note A = transaction_monotonicity [where P = ?P and d = exampleDevices and hash = "''B''"
      and w = exampleWorld and info = ?info and ?d1.0 = "fst (snd ?c)" and ?w1.0 = "snd (snd ?c)"
      and baseInfo = mountedA and ?d2.0 = "fst (snd ?s)" and ?w2.0 = "snd (snd ?s)"
      and gone = mountedA and ?d3.0 = "fst (snd ?d)" and ?w3.0 = "snd (snd ?d)"]
  note B = transaction_monotonicity [where P = ?P and d = openDevices and w = pendingWorld
      and r = None and ?d4.0 = "fst (snd ?t)" and ?w4.0 = "snd (snd ?t)"]
  have 1: "DeviceSet.TransactionId (fst (snd ?c)) = 1" "Devices (fst (snd ?c)) ''B'' = Some ?info"
    using A [THEN conjunct1, rule_format, OF c] z by simp_all
  have 2: "DeviceSet.TransactionId (fst (snd ?s)) = 1"
    using A [THEN conjunct2, THEN conjunct1, rule_format, OF s] z by simp
  have 3: "DeviceSet.TransactionId (fst (snd ?d)) = 1"
    using A [THEN conjunct2, THEN conjunct2, THEN conjunct1, rule_format, OF d] z by simp
  note 4 = B [THEN conjunct2, THEN conjunct2, THEN conjunct2, THEN conjunct1, rule_format, OF t]
  have 5: "DeviceSet.TransactionId (fst (snd ?t)) = 4"
    by (subst 4 [THEN conjunct2, THEN conjunct2]) (simp add: o)
  have 6: "files (snd (snd ?t)) ''/var/lib/docker/metadata/transaction-metadata'' = Some [4, 5, 67]"
    by (subst 4 [THEN conjunct1]) (rule o(3))
  from z 1 2 3 5 6 show ?thesis by blast
qed

section \<open>Superseded device ids\<close>

lemma markDeviceIdFree_other:
  assumes m: "markDeviceIdFree d i = Inr d'" and x: "0 \<le> x" "x \<le> MaxDeviceId" "x \<noteq> i"
  shows "isDeviceIdFree d' x = isDeviceIdFree d x"
proof (cases "i < 0")
  case True
  show ?thesis by (rule isDeviceIdFree_same_map [OF markDeviceIdFree_negative [OF m True]])
next
  case False
  then have "0 \<le> i" by simp
  from isDeviceIdFree_after_free [OF this markDeviceIdFree_range(2) [OF m] x(1,2) m] x(3)
  show ?thesis by simp
qed

lemma deleteDevice_bits:
  assumes run: "deleteDevice P d info w = (r, d', w')"
    and x: "0 \<le> x" "x \<le> MaxDeviceId" "x \<noteq> DevInfo.DeviceId info"
  shows "isDeviceIdFree d' x = isDeviceIdFree d x"
proof -
  have o: "deviceIdMap b = deviceIdMap a"
    if "openTransaction P a h i u = (q, b, v)" for a b h i u q v
    using openTransaction_result(1) [OF that] by simp
  have n: "deviceIdMap b = deviceIdMap a"
    if "unregisterDevice P a i h u = (q, b, v)" for a b h i u q v
    using unregisterDevice_result(2) [OF that] by simp
  have c: "deviceIdMap b = deviceIdMap a"
    if "closeTransaction P a u = (q, b, v)" for a b u q v
    using closeTransaction_result(2,3) [OF that] by (cases q) simp_all
  from run have "deviceIdMap d' = deviceIdMap d \<or>
      (\<exists>d7. deviceIdMap d7 = deviceIdMap d \<and> markDeviceIdFree d7 (DevInfo.DeviceId info) = Inr d')"
    unfolding deleteDevice_def
    by (auto split: prod.splits option.splits sum.splits if_splits dest!: o n c)
  then show ?thesis
  proof
    assume "deviceIdMap d' = deviceIdMap d"
    then show ?thesis by (rule isDeviceIdFree_same_map)
  next
    assume "\<exists>d7. deviceIdMap d7 = deviceIdMap d \<and> markDeviceIdFree d7 (DevInfo.DeviceId info) = Inr d'"
    then obtain d7 where 7: "deviceIdMap d7 = deviceIdMap d"
      "markDeviceIdFree d7 (DevInfo.DeviceId info) = Inr d'" by blast
    have "isDeviceIdFree d' x = isDeviceIdFree d7 x" by (rule markDeviceIdFree_other [OF 7(2) x])
    also have "\<dots> = isDeviceIdFree d x" by (rule isDeviceIdFree_same_map [OF 7(1)])
    finally show ?thesis .
  qed
qed

lemma serve_keeps_used:
  assumes "0 \<le> x" "x \<le> MaxDeviceId" "isDeviceIdFree d x = Inr False"
    "\<forall>rq\<in>set rs. \<not> deletes rq x"
  shows "isDeviceIdFree (fst (serve P rs d w)) x = Inr False"
  using assms(3,4)
proof (induction rs arbitrary: d w)
  case Nil
  then show ?case by simp
next
  case (Cons rq rs)
  show ?case
  proof (cases rq)
    case (Create hash)
    obtain r d' w' where run: "createRegisterDevice P d hash w = (r, d', w')"
      by (cases "createRegisterDevice P d hash w") auto
    from createRegisterDevice_result(1) [OF run] assms(1,2) Cons.prems(1)
    have "isDeviceIdFree d' x = Inr False" by blast
    with Cons.IH [of d' w'] Cons.prems(2) show ?thesis by (simp add: Create run)
  next
    case (CreateSnap hash b)
    obtain r d' w' where run: "createRegisterSnapDevice P d hash b w = (r, d', w')"
      by (cases "createRegisterSnapDevice P d hash b w") auto
    from createRegisterSnapDevice_result(1) [OF run] assms(1,2) Cons.prems(1)
    have "isDeviceIdFree d' x = Inr False" by blast
    with Cons.IH [of d' w'] Cons.prems(2) show ?thesis by (simp add: CreateSnap run)
  next
    case (Delete info)
    obtain r d' w' where run: "deleteDevice P d info w = (r, d', w')"
      by (cases "deleteDevice P d info w") auto
    from Cons.prems(2) Delete have "x \<noteq> DevInfo.DeviceId info" by auto
    from deleteDevice_bits [OF run assms(1,2) this] Cons.prems(1)
    have "isDeviceIdFree d' x = Inr False" by simp
    with Cons.IH [of d' w'] Cons.prems(2) show ?thesis by (simp add: Delete run)
  qed
qed

text \<open>
  C9. The retry loop on a device id that exists. Of a call of \<^verbatim>\<open>createRegisterDevice\<close>
  or \<^verbatim>\<open>createRegisterSnapDevice\<close>, take the ids that the pool reported as already
  existing in answer to the creates of this call. Whatever the call returns, the ids in
  use in the bitmap afterwards are exactly the ids in use before, these reported ids and,
  when the call succeeds, the id of the new device. So a superseded id keeps its bit on
  every path, and an error path gives back no id but the one allocated last. After the
  call the bit stays set through every later create, snapshot and delete, whatever they
  return, as long as no device with this very id is deleted: \<^verbatim>\<open>deleteDevice\<close> frees
  the id of the device it deletes, and after start-up nothing else frees an id.
\<close>

theorem superseded_ids_stay_allocated:
  "(createRegisterDevice P d hash w = (res, d1, w1) \<longrightarrow>
      (\<forall>x. 0 \<le> x \<and> x \<le> MaxDeviceId \<longrightarrow>
         (isDeviceIdFree d1 x = Inr False) =
         (isDeviceIdFree d x = Inr False \<or>
          x \<in> set (reportedExisting P (trace w) (drop (length (trace w)) (trace w1))) \<or>
          (\<exists>info. res = Inr info \<and> DevInfo.DeviceId info = x)))) \<and>
   (createRegisterSnapDevice P d hash baseInfo w = (sres, d2, w2) \<longrightarrow>
      (\<forall>x. 0 \<le> x \<and> x \<le> MaxDeviceId \<longrightarrow>
         (isDeviceIdFree d2 x = Inr False) =
         (isDeviceIdFree d x = Inr False \<or>
          x \<in> set (reportedExisting P (trace w) (drop (length (trace w)) (trace w2))) \<or>
          (\<exists>info. sres = None \<and> Devices d2 hash = Some info \<and> DevInfo.DeviceId info = x)))) \<and>
   (\<forall>x. 0 \<le> x \<and> x \<le> MaxDeviceId \<and> isDeviceIdFree d x = Inr False \<and>
        (\<forall>rq\<in>set later. \<not> deletes rq x) \<longrightarrow>
        isDeviceIdFree (fst (serve P later d w)) x = Inr False)"
proof (intro conjI impI allI)
  fix x
  assume run: "createRegisterDevice P d hash w = (res, d1, w1)"
    and x: "0 \<le> x \<and> x \<le> MaxDeviceId"
  from createRegisterDevice_result(1) [OF run]
  obtain cs where cs: "trace w1 = trace w @ cs"
    "\<forall>x. 0 \<le> x \<and> x \<le> MaxDeviceId \<longrightarrow>
       (isDeviceIdFree d1 x = Inr False) =
       (isDeviceIdFree d x = Inr False \<or> x \<in> set (reportedExisting P (trace w) cs) \<or>
        (\<exists>info. res = Inr info \<and> DevInfo.DeviceId info = x))"
    by blast
  have "drop (length (trace w)) (trace w1) = cs" by (simp add: cs(1))
  with cs(2) x
  show "(isDeviceIdFree d1 x = Inr False) =
         (isDeviceIdFree d x = Inr False \<or>
          x \<in> set (reportedExisting P (trace w) (drop (length (trace w)) (trace w1))) \<or>
          (\<exists>info. res = Inr info \<and> DevInfo.DeviceId info = x))"
    by simp
next
  fix x
  assume run: "createRegisterSnapDevice P d hash baseInfo w = (sres, d2, w2)"
    and x: "0 \<le> x \<and> x \<le> MaxDeviceId"
  from createRegisterSnapDevice_result(1) [OF run]
  obtain cs where cs: "trace w2 = trace w @ cs"
    "\<forall>x. 0 \<le> x \<and> x \<le> MaxDeviceId \<longrightarrow>
       (isDeviceIdFree d2 x = Inr False) =
       (isDeviceIdFree d x = Inr False \<or> x \<in> set (reportedExisting P (trace w) cs) \<or>
        (\<exists>info. sres = None \<and> Devices d2 hash = Some info \<and> DevInfo.DeviceId info = x))"
    by blast
  have "drop (length (trace w)) (trace w2) = cs" by (simp add: cs(1))
  with cs(2) x
  show "(isDeviceIdFree d2 x = Inr False) =
         (isDeviceIdFree d x = Inr False \<or>
          x \<in> set (reportedExisting P (trace w) (drop (length (trace w)) (trace w2))) \<or>
          (\<exists>info. sres = None \<and> Devices d2 hash = Some info \<and> DevInfo.DeviceId info = x))"
    by simp
next
  fix x
  assume "0 \<le> x \<and> x \<le> MaxDeviceId \<and> isDeviceIdFree d x = Inr False \<and>
        (\<forall>rq\<in>set later. \<not> deletes rq x)"
  then show "isDeviceIdFree (fst (serve P later d w)) x = Inr False"
    by (intro serve_keeps_used) simp_all
qed

lemma example_retry_fails:
  "fst (createRegisterDevice (examplePlatform (kernelHolds [1] (Failure ''no space left on device'')))
          exampleDevices ''B'' exampleWorld) =
     Inl (External (Failure ''no space left on device''))"
  by code_simp

lemma example_retry_fails_reported:
  "reportedExisting (examplePlatform (kernelHolds [1] (Failure ''no space left on device''))) []
     (trace (snd (snd (createRegisterDevice
        (examplePlatform (kernelHolds [1] (Failure ''no space left on device'')))
        exampleDevices ''B'' exampleWorld)))) = [1]"
  by code_simp

lemma example_retry_succeeds:
  "fst (createRegisterSnapDevice (examplePlatform (kernelHolds [1] Success)) exampleDevices ''B''
          mountedA exampleWorld) = None"
  by code_simp

lemma example_retry_succeeds_reported:
  "reportedExisting (examplePlatform (kernelHolds [1] Success)) []
     (trace (snd (snd (createRegisterSnapDevice (examplePlatform (kernelHolds [1] Success))
        exampleDevices ''B'' mountedA exampleWorld)))) = [1]"
  by code_simp

lemma example_bitmap_clear:
  "isDeviceIdFree exampleDevices 1 = Inr True" "isDeviceIdFree exampleDevices 2 = Inr True"
  by (simp_all add: isDeviceIdFree_def idMapIndex_def idMask_def go_quot_def go_rem_def Let_def
        exampleDevices_def NewDeviceSet_literal_def DeviceIdMapSz_def MaxDeviceId_def)

theorem superseded_ids_stay_allocated_witness:
  "isDeviceIdFree exampleDevices 1 = Inr True \<and>
   isDeviceIdFree exampleDevices 2 = Inr True \<and>
   fst (createRegisterDevice (examplePlatform (kernelHolds [1] (Failure ''no space left on device'')))
          exampleDevices ''B'' exampleWorld) =
     Inl (External (Failure ''no space left on device'')) \<and>
   isDeviceIdFree
     (fst (snd (createRegisterDevice
        (examplePlatform (kernelHolds [1] (Failure ''no space left on device'')))
        exampleDevices ''B'' exampleWorld))) 1 = Inr False \<and>
   isDeviceIdFree
     (fst (snd (createRegisterDevice
        (examplePlatform (kernelHolds [1] (Failure ''no space left on device'')))
        exampleDevices ''B'' exampleWorld))) 2 \<noteq> Inr False \<and>
   fst (createRegisterSnapDevice (examplePlatform (kernelHolds [1] Success)) exampleDevices ''B''
          mountedA exampleWorld) = None \<and>
   isDeviceIdFree
     (fst (snd (createRegisterSnapDevice (examplePlatform (kernelHolds [1] Success))
        exampleDevices ''B'' mountedA exampleWorld))) 1 = Inr False \<and>
   isDeviceIdFree
     (fst (serve (examplePlatform (kernelHolds [1] Success)) [Delete mountedA, Create ''C'']
        (fst (snd (createRegisterSnapDevice (examplePlatform (kernelHolds [1] Success))
           exampleDevices ''B'' mountedA exampleWorld)))
        (snd (snd (createRegisterSnapDevice (examplePlatform (kernelHolds [1] Success))
           exampleDevices ''B'' mountedA exampleWorld))))) 1 = Inr False"
proof -
  let ?F = "examplePlatform (kernelHolds [1] (Failure ''no space left on device''))"
  let ?S = "examplePlatform (kernelHolds [1] Success)"
  let ?c = "createRegisterDevice ?F exampleDevices ''B'' exampleWorld"
  let ?s = "createRegisterSnapDevice ?S exampleDevices ''B'' mountedA exampleWorld"
  have t: "trace exampleWorld = []" by (simp add: exampleWorld_def)
  have r: "(1::int) \<le> MaxDeviceId" "(2::int) \<le> MaxDeviceId" by (simp_all add: MaxDeviceId_def)
  have m: "DevInfo.DeviceId mountedA = 2" by (simp add: mountedA_def newDevInfo_def)
  have ce: "?c = (fst ?c, fst (snd ?c), snd (snd ?c))" by simp
  have se: "?s = (fst ?s, fst (snd ?s), snd (snd ?s))" by simp
  note c = example_retry_fails example_retry_fails_reported
  note s = example_retry_succeeds example_retry_succeeds_reported
  note b = example_bitmap_clear
  note A = superseded_ids_stay_allocated [where P = ?F and d = exampleDevices and hash = "''B''"
      and w = exampleWorld and res = "fst ?c" and ?d1.0 = "fst (snd ?c)" and ?w1.0 = "snd (snd ?c)",
      THEN conjunct1, rule_format, OF ce]
  note B = superseded_ids_stay_allocated [where P = ?S and d = exampleDevices and hash = "''B''"
      and baseInfo = mountedA
      and w = exampleWorld and sres = "fst ?s" and ?d2.0 = "fst (snd ?s)" and ?w2.0 = "snd (snd ?s)",
      THEN conjunct2, THEN conjunct1, rule_format, OF se]
  note C = superseded_ids_stay_allocated [where P = ?S and d = "fst (snd ?s)" and w = "snd (snd ?s)"
      and later = "[Delete mountedA, Create ''C'']",
      THEN conjunct2, THEN conjunct2, rule_format, of 1]
  have 1: "isDeviceIdFree (fst (snd ?c)) 1 = Inr False"
    using A [of 1] r c by (simp add: t)
  have 2: "isDeviceIdFree (fst (snd ?c)) 2 \<noteq> Inr False"
    using A [of 2] r c b by (simp add: t)
  have 3: "isDeviceIdFree (fst (snd ?s)) 1 = Inr False"
    using B [of 1] r s by (simp add: t)
  have 4: "isDeviceIdFree (fst (serve ?S [Delete mountedA, Create ''C''] (fst (snd ?s)) (snd (snd ?s)))) 1
      = Inr False"
    using C 3 r m by simp
  from b c s 1 2 3 4 show ?thesis by blast
qed

end
